(* ===== verification/Rust_Strings.thy ===== *)
theory Rust_Strings
  imports Prelude
begin

text \<open>
  The part of Rust's \<open>str\<close> library the program calls. A Rust string is a sequence of
  UTF-8 bytes; a \<open>string\<close> of the model is that byte sequence, one \<open>char\<close> per byte.
  \<open>trim\<close> therefore matches the UTF-8 encodings of all Unicode white space, from the
  front and, reversed, from the back. \<open>to_lowercase\<close> is used by the program only to
  compare with ASCII words, and is given on ASCII letters.
\<close>

section \<open>Prefixes, trimming, splitting\<close>

fun starts_with :: "string \<Rightarrow> string \<Rightarrow> bool" where
  "starts_with s [] = True"
| "starts_with [] (p # ps) = False"
| "starts_with (c # cs) (p # ps) = (c = p \<and> starts_with cs ps)"

lemma starts_with_iff: "starts_with s p \<longleftrightarrow> (\<exists>t. s = p @ t)"
  by (induction s p rule: starts_with.induct) auto

lemma starts_with_append [simp]: "starts_with (p @ t) p"
  by (simp add: starts_with_iff)

lemma starts_with_drop: "starts_with s p \<Longrightarrow> s = p @ drop (length p) s"
  by (auto simp: starts_with_iff)

text \<open>Remove every leading occurrence of one of the words \<open>ws\<close>.\<close>

function strip_words :: "string list \<Rightarrow> string \<Rightarrow> string" where
  "strip_words ws s =
     (case find (\<lambda>w. w \<noteq> [] \<and> starts_with s w) ws of
        None \<Rightarrow> s
      | Some w \<Rightarrow> strip_words ws (drop (length w) s))"
  by pat_completeness auto
termination
proof (relation "measure (\<lambda>(ws, s). length s)")
  fix ws :: "string list" and s w :: string
  assume "find (\<lambda>w. w \<noteq> [] \<and> starts_with s w) ws = Some w"
  then have "w \<noteq> [] \<and> starts_with s w"
    using find_Some_in by fastforce
  then have "w \<noteq> []" "s \<noteq> []"
    by (auto simp: starts_with_iff)
  then show "((ws, drop (length w) s), ws, s) \<in> measure (\<lambda>(ws, s). length s)"
    by simp
qed simp

declare strip_words.simps [simp del]

lemma strip_words_stop:
  "\<forall>w \<in> set ws. w \<noteq> [] \<longrightarrow> \<not> starts_with s w \<Longrightarrow> strip_words ws s = s"
proof -
  assume "\<forall>w \<in> set ws. w \<noteq> [] \<longrightarrow> \<not> starts_with s w"
  then have "find (\<lambda>w. w \<noteq> [] \<and> starts_with s w) ws = None"
    by (auto simp: find_None_iff)
  then show ?thesis by (subst strip_words.simps) simp
qed

lemma strip_words_Nil [simp]: "strip_words ws [] = []"
  by (rule strip_words_stop) (auto simp: starts_with_iff)

lemma strip_words_suffix: "\<exists>t. s = t @ strip_words ws s"
proof (induction ws s rule: strip_words.induct)
  case (1 ws s)
  show ?case
  proof (cases "find (\<lambda>w. w \<noteq> [] \<and> starts_with s w) ws")
    case None
    then show ?thesis by (subst strip_words.simps) simp
  next
    case (Some w)
    have "drop (length w) s = drop (length w) s" ..
    with 1 Some obtain t where t: "drop (length w) s = t @ strip_words ws (drop (length w) s)"
      by blast
    have "s = take (length w) s @ drop (length w) s" by simp
    then have "s = (take (length w) s @ t) @ strip_words ws s"
      using t Some by (subst strip_words.simps) simp
    then show ?thesis by blast
  qed
qed

definition white_space :: "string list" where
  "white_space =
     [[CHR 0x09], [CHR 0x0A], [CHR 0x0B], [CHR 0x0C], [CHR 0x0D], [CHR 0x20],
      [CHR 0xC2, CHR 0x85], [CHR 0xC2, CHR 0xA0], [CHR 0xE1, CHR 0x9A, CHR 0x80],
      [CHR 0xE2, CHR 0x80, CHR 0x80], [CHR 0xE2, CHR 0x80, CHR 0x81],
      [CHR 0xE2, CHR 0x80, CHR 0x82], [CHR 0xE2, CHR 0x80, CHR 0x83],
      [CHR 0xE2, CHR 0x80, CHR 0x84], [CHR 0xE2, CHR 0x80, CHR 0x85],
      [CHR 0xE2, CHR 0x80, CHR 0x86], [CHR 0xE2, CHR 0x80, CHR 0x87],
      [CHR 0xE2, CHR 0x80, CHR 0x88], [CHR 0xE2, CHR 0x80, CHR 0x89],
      [CHR 0xE2, CHR 0x80, CHR 0x8A], [CHR 0xE2, CHR 0x80, CHR 0xA8],
      [CHR 0xE2, CHR 0x80, CHR 0xA9], [CHR 0xE2, CHR 0x80, CHR 0xAF],
      [CHR 0xE2, CHR 0x81, CHR 0x9F], [CHR 0xE3, CHR 0x80, CHR 0x80]]"

definition trim :: "string \<Rightarrow> string" where
  "trim s = rev (strip_words (map rev white_space) (rev (strip_words white_space s)))"

definition trim_end_char :: "char \<Rightarrow> string \<Rightarrow> string" where
  "trim_end_char c s = rev (dropWhile (\<lambda>d. d = c) (rev s))"

lemma trim_Nil [simp]: "trim [] = []"
  by (simp add: trim_def)

lemma trim_end_char_idem: "trim_end_char c (trim_end_char c s) = trim_end_char c s"
  by (simp add: trim_end_char_def)

lemma trim_end_char_id: "s = [] \<or> last s \<noteq> c \<Longrightarrow> trim_end_char c s = s"
  by (cases s rule: rev_cases) (auto simp: trim_end_char_def)

text \<open>\<open>str::split(char)\<close>: the pieces between the separators, empty pieces included.\<close>

fun split_on :: "char \<Rightarrow> string \<Rightarrow> string list" where
  "split_on c [] = [[]]"
| "split_on c (d # ds) =
     (if d = c then [] # split_on c ds
      else (case split_on c ds of [] \<Rightarrow> [[d]] | p # ps \<Rightarrow> (d # p) # ps))"

lemma split_on_not_Nil [simp]: "split_on c s \<noteq> []"
  by (induction s) (auto split: list.splits)

lemma split_on_no_sep: "c \<notin> set s \<Longrightarrow> split_on c s = [s]"
  by (induction s) auto

lemma split_on_append: "c \<notin> set s \<Longrightarrow> split_on c (s @ c # t) = s # split_on c t"
  by (induction s) auto

lemma split_on_single: "split_on c s = [p] \<Longrightarrow> s = p \<and> c \<notin> set s"
  by (induction s arbitrary: p) (auto split: list.splits if_splits)

lemma split_on_Cons:
  "split_on c s = p # q # ps \<Longrightarrow> \<exists>t. s = p @ c # t \<and> c \<notin> set p \<and> split_on c t = q # ps"
proof (induction s arbitrary: p)
  case Nil
  then show ?case by simp
next
  case (Cons d ds)
  show ?case
  proof (cases "d = c")
    case True
    with Cons.prems show ?thesis by auto
  next
    case False
    with Cons.prems obtain p' where p': "split_on c ds = p' # q # ps" "p = d # p'"
      by (auto split: list.splits)
    from Cons.IH [OF p'(1)] obtain t
      where "ds = p' @ c # t" "c \<notin> set p'" "split_on c t = q # ps" by blast
    with False p'(2) show ?thesis by auto
  qed
qed

text \<open>\<open>[&str]::join\<close>.\<close>

fun join :: "string \<Rightarrow> string list \<Rightarrow> string" where
  "join sep [] = []"
| "join sep [x] = x"
| "join sep (x # xs) = x @ sep @ join sep xs"

section \<open>Letter case\<close>

definition lower_char :: "char \<Rightarrow> char" where
  "lower_char c = (let n = of_char c :: nat in if 65 \<le> n \<and> n \<le> 90 then char_of (n + 32) else c)"

definition to_lowercase :: "string \<Rightarrow> string" where
  "to_lowercase s = map lower_char s"

section \<open>Decimal numbers\<close>

text \<open>\<open>ToString\<close> of an unsigned integer, and \<open>FromStr\<close> of one of \<open>bits\<close> bits: an
  optional plus sign, at least one digit, each step checked against the range.\<close>

definition digit_char :: "nat \<Rightarrow> char" where
  "digit_char d = char_of (48 + d)"

definition digit_val :: "char \<Rightarrow> nat option" where
  "digit_val c = (let n = of_char c :: nat in if 48 \<le> n \<and> n \<le> 57 then Some (n - 48) else None)"

fun show_nat :: "nat \<Rightarrow> string" where
  "show_nat n = (if n < 10 then [digit_char n] else show_nat (n div 10) @ [digit_char (n mod 10)])"

declare show_nat.simps [simp del]

fun parse_digits :: "nat \<Rightarrow> nat \<Rightarrow> string \<Rightarrow> nat option" where
  "parse_digits bits acc [] = Some acc"
| "parse_digits bits acc (c # cs) =
     (case digit_val c of
        None \<Rightarrow> None
      | Some d \<Rightarrow> if acc * 10 + d < 2 ^ bits then parse_digits bits (acc * 10 + d) cs else None)"

definition parse_uint :: "nat \<Rightarrow> string \<Rightarrow> nat option" where
  "parse_uint bits s =
     (let ds = (case s of [] \<Rightarrow> [] | c # cs \<Rightarrow> if c = CHR ''+'' then cs else s)
      in if ds = [] then None else parse_digits bits 0 ds)"

definition parse_u16 :: "string \<Rightarrow> u16 option" where
  "parse_u16 s = map_option of_nat (parse_uint 16 s)"

definition parse_u64 :: "string \<Rightarrow> u64 option" where
  "parse_u64 s = map_option of_nat (parse_uint 64 s)"

definition parse_bool :: "string \<Rightarrow> bool option" where
  "parse_bool s =
     (if s = ''true'' then Some True else if s = ''false'' then Some False else None)"

lemma digit_val_char: "d < 10 \<Longrightarrow> digit_val (digit_char d) = Some d"
  by (simp add: digit_val_def digit_char_def)

lemma digit_char_not_plus: "d < 10 \<Longrightarrow> digit_char d \<noteq> CHR ''+''"
proof
  assume "d < 10" and "digit_char d = CHR ''+''"
  then have "digit_val (CHR ''+'') = Some d" using digit_val_char by metis
  then show False by (simp add: digit_val_def)
qed

lemma show_nat_not_Nil [simp]: "show_nat n \<noteq> []"
  by (subst show_nat.simps) simp

lemma hd_show_nat: "hd (show_nat n) \<noteq> CHR ''+''"
proof (induction n rule: show_nat.induct)
  case (1 n)
  then show ?case
    by (cases "n < 10") (simp_all add: show_nat.simps [of n] digit_char_not_plus)
qed

lemma parse_digits_append:
  "parse_digits bits acc (xs @ ys) =
     (case parse_digits bits acc xs of None \<Rightarrow> None | Some v \<Rightarrow> parse_digits bits v ys)"
  by (induction xs arbitrary: acc) (auto split: option.splits)

lemma parse_digits_bound:
  "acc < 2 ^ bits \<Longrightarrow> parse_digits bits acc s = Some v \<Longrightarrow> v < 2 ^ bits"
  by (induction s arbitrary: acc) (auto split: option.splits if_splits)

lemma parse_digits_show: "n < 2 ^ bits \<Longrightarrow> parse_digits bits 0 (show_nat n) = Some n"
proof (induction n rule: show_nat.induct)
  case (1 n)
  show ?case
  proof (cases "n < 10")
    case True
    with 1 show ?thesis by (simp add: show_nat.simps [of n] digit_val_char)
  next
    case False
    moreover have "n div 10 < 2 ^ bits" using 1(2) by (meson div_le_dividend le_less_trans)
    ultimately have "parse_digits bits 0 (show_nat (n div 10)) = Some (n div 10)"
      using 1(1) by simp
    with False 1(2) show ?thesis
      by (simp add: show_nat.simps [of n] parse_digits_append digit_val_char)
  qed
qed

lemma parse_uint_show: "n < 2 ^ bits \<Longrightarrow> parse_uint bits (show_nat n) = Some n"
proof -
  assume n: "n < 2 ^ bits"
  obtain c cs where s: "show_nat n = c # cs" by (cases "show_nat n") auto
  with hd_show_nat [of n] have "c \<noteq> CHR ''+''" by simp
  then have "parse_uint bits (c # cs) = parse_digits bits 0 (c # cs)"
    by (simp add: parse_uint_def)
  then show ?thesis using parse_digits_show [OF n] s by simp
qed

lemma parse_uint_bound: "parse_uint bits s = Some v \<Longrightarrow> v < 2 ^ bits"
  by (auto simp: parse_uint_def Let_def split: if_splits intro: parse_digits_bound [of 0])

definition show_word :: "'a::len word \<Rightarrow> string" where
  "show_word w = show_nat (unat w)"

lemma parse_u16_show: "parse_u16 (show_word p) = Some p"
proof -
  have "unat p < 2 ^ 16" using unsigned_less [of p] by simp
  then show ?thesis by (simp add: parse_u16_def show_word_def parse_uint_show)
qed

end
