(* ===== verification/BTree_Map.thy ===== *)
theory BTree_Map
  imports Rust_Strings
begin

text \<open>
  Rust's \<open>BTreeMap\<close> as the program uses it: a finite map whose iteration order is the
  key order. It is represented by the list of its entries in strictly ascending key
  order, which is canonical. The interface the clients rely on is the locale
  \<open>ordered_map\<close>; the loop that inserts new entries and stops at the first key already
  present is verified once against it.
\<close>

section \<open>The interface\<close>

text \<open>The loop \<open>for (k, v) in kvs { if m.contains_key(&k) { return k } m.insert(k, v) }\<close>,
  over any map operations: the key it stops at, or the extended map.\<close>

fun insert_new ::
  "('m \<Rightarrow> 'k \<Rightarrow> bool) \<Rightarrow> ('k \<Rightarrow> 'v \<Rightarrow> 'm \<Rightarrow> 'm) \<Rightarrow> 'm \<Rightarrow> ('k \<times> 'v) list \<Rightarrow> 'k + 'm" where
  "insert_new con ins m [] = Inr m"
| "insert_new con ins m ((k, v) # kvs) =
     (if con m k then Inl k else insert_new con ins (ins k v m) kvs)"

locale ordered_map =
  fixes empty_map :: "'m"
    and ins :: "'k \<Rightarrow> 'v \<Rightarrow> 'm \<Rightarrow> 'm"
    and look :: "'m \<Rightarrow> 'k \<Rightarrow> 'v option"
    and con :: "'m \<Rightarrow> 'k \<Rightarrow> bool"
    and invar :: "'m \<Rightarrow> bool"
  assumes look_empty: "look empty_map = (\<lambda>_. None)"
    and look_ins: "invar m \<Longrightarrow> look (ins k v m) = (look m)(k \<mapsto> v)"
    and con_iff: "invar m \<Longrightarrow> con m k \<longleftrightarrow> look m k \<noteq> None"
    and invar_empty: "invar empty_map"
    and invar_ins: "invar m \<Longrightarrow> invar (ins k v m)"
    and canonical: "invar m \<Longrightarrow> invar m' \<Longrightarrow> look m = look m' \<Longrightarrow> m = m'"
begin

lemma dom_look_ins: "invar m \<Longrightarrow> dom (look (ins k v m)) = insert k (dom (look m))"
  by (simp only: look_ins dom_fun_upd) simp

lemma insert_new_Inr_iff:
  "invar m \<Longrightarrow> insert_new con ins m kvs = Inr m' \<longleftrightarrow>
     distinct (map fst kvs) \<and> fst ` set kvs \<inter> dom (look m) = {} \<and>
     m' = fold (\<lambda>(k, v). ins k v) kvs m"
proof (induction kvs arbitrary: m)
  case Nil
  then show ?case by auto
next
  case (Cons kv kvs)
  obtain k v where kv: "kv = (k, v)" by (cases kv)
  show ?case
  proof (cases "look m k")
    case None
    with Cons.prems have "\<not> con m k" by (simp add: con_iff)
    then show ?thesis
      using Cons.IH [OF invar_ins [OF Cons.prems, of k v]] Cons.prems None
      by (auto simp: kv look_ins dom_def image_iff)
  next
    case (Some w)
    with Cons.prems have "con m k" by (simp add: con_iff)
    with Some show ?thesis by (auto simp: kv)
  qed
qed

lemma insert_new_Inl:
  "invar m \<Longrightarrow> insert_new con ins m kvs = Inl k \<Longrightarrow>
     \<exists>pre v post. kvs = pre @ (k, v) # post \<and> (k \<in> fst ` set pre \<or> k \<in> dom (look m))"
proof (induction kvs arbitrary: m)
  case Nil
  then show ?case by simp
next
  case (Cons kv kvs)
  obtain k' v' where kv: "kv = (k', v')" by (cases kv)
  show ?case
  proof (cases "con m k'")
    case True
    with Cons.prems have "kv # kvs = [] @ (k, v') # kvs" "k \<in> dom (look m)"
      by (auto simp: kv con_iff)
    then show ?thesis by blast
  next
    case False
    with Cons.prems have "insert_new con ins (ins k' v' m) kvs = Inl k"
      by (simp add: kv)
    from Cons.IH [OF invar_ins [OF Cons.prems(1)] this]
    obtain pre v post where "kvs = pre @ (k, v) # post"
      "k \<in> fst ` set pre \<or> k \<in> insert k' (dom (look m))"
      unfolding dom_look_ins [OF Cons.prems(1), of k' v'] by blast
    then have "kv # kvs = (kv # pre) @ (k, v) # post"
      "k \<in> fst ` set (kv # pre) \<or> k \<in> dom (look m)"
      by (auto simp: kv)
    then show ?thesis by blast
  qed
qed

lemma invar_fold: "invar m \<Longrightarrow> invar (fold (\<lambda>(k, v). ins k v) kvs m)"
  by (induction kvs arbitrary: m) (auto simp: invar_ins)

lemma look_fold:
  "invar m \<Longrightarrow> distinct (map fst kvs) \<Longrightarrow>
     look (fold (\<lambda>(k, v). ins k v) kvs m) = look m ++ map_of kvs"
proof (induction kvs arbitrary: m)
  case Nil
  then show ?case by simp
next
  case (Cons kv kvs)
  obtain k v where kv: "kv = (k, v)" by (cases kv)
  from Cons.prems have "map_of kvs k = None" by (simp add: kv map_of_eq_None_iff)
  then show ?case
    using Cons.IH [OF invar_ins [OF Cons.prems(1), of k v]] Cons.prems
    by (auto simp: kv look_ins map_add_def fun_eq_iff split: option.splits)
qed

text \<open>The map built from a list of entries with distinct keys depends on the set of
  entries only, not on their order.\<close>

lemma fold_cong_set:
  assumes "distinct (map fst kvs)" "distinct (map fst kvs')" "set kvs = set kvs'"
  shows "fold (\<lambda>(k, v). ins k v) kvs empty_map = fold (\<lambda>(k, v). ins k v) kvs' empty_map"
proof (rule canonical)
  have "map_of kvs = map_of kvs'" using assms by (metis map_of_inject_set)
  with assms show "look (fold (\<lambda>(k, v). ins k v) kvs empty_map) =
      look (fold (\<lambda>(k, v). ins k v) kvs' empty_map)"
    by (simp add: look_fold invar_empty)
qed (simp_all add: invar_fold invar_empty)

end

section \<open>The implementation: entries in key order\<close>

type_synonym ('k, 'v) btree = "('k \<times> 'v) list"

fun bt_insert :: "'k::linorder \<Rightarrow> 'v \<Rightarrow> ('k, 'v) btree \<Rightarrow> ('k, 'v) btree" where
  "bt_insert k v [] = [(k, v)]"
| "bt_insert k v ((k', v') # m) =
     (if k < k' then (k, v) # (k', v') # m
      else if k = k' then (k, v) # m
      else (k', v') # bt_insert k v m)"

definition bt_contains :: "('k, 'v) btree \<Rightarrow> 'k \<Rightarrow> bool" where
  "bt_contains m k \<longleftrightarrow> k \<in> fst ` set m"

definition bt_wf :: "('k::linorder, 'v) btree \<Rightarrow> bool" where
  "bt_wf m \<longleftrightarrow> sorted (map fst m) \<and> distinct (map fst m)"

lemma set_bt_insert_keys: "fst ` set (bt_insert k v m) = insert k (fst ` set m)"
  by (induction k v m rule: bt_insert.induct) (simp_all add: insert_commute)

lemma bt_wf_insert: "bt_wf m \<Longrightarrow> bt_wf (bt_insert k v m)"
proof (induction m)
  case Nil
  then show ?case by (simp add: bt_wf_def)
next
  case (Cons kv m)
  obtain k' v' where kv: "kv = (k', v')" by (cases kv)
  from Cons have IH: "bt_wf (bt_insert k v m)" by (simp add: bt_wf_def)
  have keys: "set (map fst (bt_insert k v m)) = insert k (fst ` set m)"
    by (simp add: set_bt_insert_keys)
  show ?case
  proof (cases "k < k'")
    case True
    with Cons.prems show ?thesis by (fastforce simp: kv bt_wf_def)
  next
    case False
    with Cons.prems IH keys show ?thesis
      by (auto simp: kv bt_wf_def simp flip: set_map)
  qed
qed

lemma map_of_bt_insert: "map_of (bt_insert k v m) = (map_of m)(k \<mapsto> v)"
  by (induction m) (auto simp: fun_eq_iff)

lemma bt_canonical:
  assumes "bt_wf m" "bt_wf m'" "map_of m = map_of m'"
  shows "m = m'"
proof -
  have "set m = set m'"
    using assms by (auto simp: bt_wf_def dest: map_of_is_SomeI intro: map_of_SomeD)
  moreover have "inj_on fst (set m)"
    using assms(1) by (simp add: bt_wf_def distinct_map)
  ultimately show ?thesis
    using assms(1,2) by (intro map_sorted_distinct_set_unique [of fst]) (auto simp: bt_wf_def)
qed

interpretation btm: ordered_map "[]" bt_insert map_of bt_contains bt_wf
proof (unfold_locales, goal_cases)
  case (3 m k)
  show ?case by (simp add: bt_contains_def map_of_eq_None_iff)
next
  case 4
  show ?case by (simp add: bt_wf_def)
next
  case (6 m m')
  then show ?case by (rule bt_canonical)
qed (simp_all add: bt_wf_insert map_of_bt_insert fun_eq_iff)

end
