(* ===== verification/Crds.thy ===== *)
theory Crds
  imports BTree_Map
begin

text \<open>
  The custom resources of \<open>kif-api/src/crds.rs\<close>: \<open>CloudRoleBinding\<close> (a developer's
  mapping from a ServiceAccount to cloud identities) and \<open>ResolvedCloudRoleBinding\<close>
  (the merged, validated configuration of one ServiceAccount), their specs, statuses and
  conditions. Field names carry a prefix where two structs share a name. Of the
  Kubernetes \<open>ObjectMeta\<close> the fields the program reads or writes are kept, and the
  remaining ones as one opaque list of (field, JSON text) pairs, empty for
  \<open>Default\<close>. A timestamp counts the units of its wire form (RFC 3339, to the second for
  \<open>Time\<close>), as the finer part of a reading of the clock is never stored.
\<close>

type_synonym Time = int
type_synonym i64 = int

record ObjectMeta =
  meta_name :: "string option"
  meta_namespace :: "string option"
  meta_generate_name :: "string option"
  meta_generation :: "i64 option"
  meta_other :: "(string \<times> string) list"

definition default_ObjectMeta :: ObjectMeta where
  "default_ObjectMeta =
     \<lparr>meta_name = None, meta_namespace = None, meta_generate_name = None,
      meta_generation = None, meta_other = []\<rparr>"

section \<open>Specs\<close>

record SubjectRef =
  service_account_name :: string

record AttributesSpec =
  include_provenance :: "bool option"
  extra_attrs :: "(string, string) btree option"

record AwsProviderSpec =
  role_arn :: string
  aws_region :: "string option"
  sts_regional_endpoints :: bool
  aws_audience :: "string option"
  max_session_duration_seconds :: "u64 option"

record AzureProviderSpec =
  tenant_id :: string
  client_id :: string
  azure_audience :: "string option"

record GcpProviderSpec =
  workload_identity_provider :: string
  service_account_email :: string
  gcp_audience :: "string option"
  project_id :: "string option"

record ProvidersSpec =
  prov_aws :: "AwsProviderSpec option"
  prov_azure :: "AzureProviderSpec option"
  prov_gcp :: "GcpProviderSpec option"

definition default_ProvidersSpec :: ProvidersSpec where
  "default_ProvidersSpec = \<lparr>prov_aws = None, prov_azure = None, prov_gcp = None\<rparr>"

record CloudRoleBindingSpec =
  crb_subject :: SubjectRef
  crb_attributes :: "AttributesSpec option"
  crb_providers :: ProvidersSpec

record ResolvedCloudRoleBindingSpec =
  rcrb_subject :: SubjectRef
  rcrb_attributes :: "AttributesSpec option"
  rcrb_providers :: ProvidersSpec

section \<open>Statuses and conditions\<close>

datatype ConditionStatus = StatusTrue | StatusFalse | StatusUnknown

datatype ConditionType = Ready | Conflict | InvalidSpec

datatype ConditionReason =
  Validated | ProviderConflict | AttributeConflict | ValidationFailed | ReasonError

record Condition =
  cond_type :: ConditionType
  cond_status :: ConditionStatus
  observed_generation :: i64
  cond_reason :: ConditionReason
  cond_message :: string
  last_transition_time :: Time

record CloudRoleBindingStatus =
  crb_status_providers :: string
  crb_conditions :: "Condition list"
  crb_last_error :: "string option"

record CloudRoleBindingRef =
  ref_name :: string
  ref_generation :: "i64 option"

record ResolvedCloudRoleBindingStatus =
  rcrb_status_providers :: string
  rcrb_conditions :: "Condition list"
  sources :: "CloudRoleBindingRef list"
  config_hash :: "string option"
  rcrb_last_error :: "string option"

section \<open>Objects\<close>

record CloudRoleBinding =
  crb_metadata :: ObjectMeta
  crb_spec :: CloudRoleBindingSpec
  crb_status :: "CloudRoleBindingStatus option"

record ResolvedCloudRoleBinding =
  rcrb_metadata :: ObjectMeta
  rcrb_spec :: ResolvedCloudRoleBindingSpec
  rcrb_status :: "ResolvedCloudRoleBindingStatus option"

text \<open>The names under which the operations read an object.\<close>

definition crb_name :: "CloudRoleBinding \<Rightarrow> string" where
  "crb_name crb = unwrap_or (meta_name (crb_metadata crb)) []"

definition crb_sa :: "CloudRoleBinding \<Rightarrow> string" where
  "crb_sa crb = service_account_name (crb_subject (crb_spec crb))"

end
