(* ===== verification/Merge.thy ===== *)
theory Merge
  imports Crds "HOL-Library.Multiset"
begin

text \<open>
  \<open>kif-webhook/src/merge.rs\<close>: merging the \<open>CloudRoleBinding\<close>s of one ServiceAccount
  into a resolved configuration, and the objects that report the outcome. The loop of
  \<open>merge_inputs\<close> is a recursion over the bindings with the four mutable variables of
  the source as its accumulator. The SHA-256 digest of the serialised configuration and
  the clock are parameters.
\<close>

record MergeIssue =
  issue_condition_type :: ConditionType
  issue_reason :: ConditionReason
  issue_message :: string
  affected_crb_names :: "string list"

section \<open>The merge\<close>

definition providers_summary :: "ProvidersSpec \<Rightarrow> string" where
  "providers_summary p =
     join '','' ((if prov_aws p \<noteq> None then [''aws''] else []) @
                (if prov_azure p \<noteq> None then [''azure''] else []) @
                (if prov_gcp p \<noteq> None then [''gcp''] else []))"

text \<open>The local variables of \<open>merge_inputs\<close>.\<close>

record merge_acc =
  acc_aws :: "AwsProviderSpec option"
  acc_aws_set_by :: "string option"
  acc_include_prov :: "bool option"
  acc_extra :: "(string, string) btree"

definition merge_init :: merge_acc where
  "merge_init = \<lparr>acc_aws = None, acc_aws_set_by = None, acc_include_prov = None, acc_extra = []\<rparr>"

definition provider_present :: "CloudRoleBinding \<Rightarrow> bool" where
  "provider_present crb \<longleftrightarrow>
     (let p = crb_providers (crb_spec crb)
      in prov_aws p \<noteq> None \<or> prov_azure p \<noteq> None \<or> prov_gcp p \<noteq> None)"

definition input_names :: "CloudRoleBinding list \<Rightarrow> string list" where
  "input_names inputs = List.map_filter (\<lambda>c. meta_name (crb_metadata c)) inputs"

definition missing_provider_issue :: "CloudRoleBinding \<Rightarrow> MergeIssue" where
  "missing_provider_issue crb =
     \<lparr>issue_condition_type = InvalidSpec, issue_reason = ValidationFailed,
      issue_message = ''CloudRoleBinding must set at least one provider block'',
      affected_crb_names = [crb_name crb]\<rparr>"

definition aws_conflict_issue :: "merge_acc \<Rightarrow> CloudRoleBinding \<Rightarrow> MergeIssue" where
  "aws_conflict_issue acc crb =
     \<lparr>issue_condition_type = Conflict, issue_reason = ProviderConflict,
      issue_message = ''conflict: multiple CloudRoleBindings set providers.aws'',
      affected_crb_names =
        filter (\<lambda>n. n \<noteq> []) [unwrap_or (acc_aws_set_by acc) [], crb_name crb]\<rparr>"

definition provenance_conflict_issue :: "CloudRoleBinding list \<Rightarrow> MergeIssue" where
  "provenance_conflict_issue inputs =
     \<lparr>issue_condition_type = Conflict, issue_reason = AttributeConflict,
      issue_message = ''conflict: includeProvenance differs across CloudRoleBindings'',
      affected_crb_names = input_names inputs\<rparr>"

definition extra_conflict_issue :: "CloudRoleBinding list \<Rightarrow> string \<Rightarrow> MergeIssue" where
  "extra_conflict_issue inputs k =
     \<lparr>issue_condition_type = Conflict, issue_reason = AttributeConflict,
      issue_message = ''conflict: duplicate attributes.extra key: '' @ k,
      affected_crb_names = input_names inputs\<rparr>"

definition no_providers_issue :: "CloudRoleBinding list \<Rightarrow> MergeIssue" where
  "no_providers_issue inputs =
     \<lparr>issue_condition_type = InvalidSpec, issue_reason = ValidationFailed,
      issue_message = ''no providers configured after merge'',
      affected_crb_names = input_names inputs\<rparr>"

text \<open>The three blocks of the loop body, in the order of the source.\<close>

definition merge_aws :: "CloudRoleBinding \<Rightarrow> merge_acc \<Rightarrow> MergeIssue + merge_acc" where
  "merge_aws crb acc =
     (case prov_aws (crb_providers (crb_spec crb)) of
        None \<Rightarrow> Inr acc
      | Some p \<Rightarrow>
          if acc_aws acc \<noteq> None then Inl (aws_conflict_issue acc crb)
          else Inr (acc\<lparr>acc_aws := Some p, acc_aws_set_by := Some (crb_name crb)\<rparr>))"

definition merge_provenance ::
  "CloudRoleBinding list \<Rightarrow> AttributesSpec \<Rightarrow> merge_acc \<Rightarrow> MergeIssue + merge_acc" where
  "merge_provenance inputs a acc =
     (case include_provenance a of
        None \<Rightarrow> Inr acc
      | Some v \<Rightarrow>
          (case acc_include_prov acc of
             Some prev \<Rightarrow> if prev \<noteq> v then Inl (provenance_conflict_issue inputs) else Inr acc
           | None \<Rightarrow> Inr (acc\<lparr>acc_include_prov := Some v\<rparr>)))"

definition merge_extra ::
  "CloudRoleBinding list \<Rightarrow> AttributesSpec \<Rightarrow> merge_acc \<Rightarrow> MergeIssue + merge_acc" where
  "merge_extra inputs a acc =
     (case extra_attrs a of
        None \<Rightarrow> Inr acc
      | Some m \<Rightarrow>
          (case insert_new bt_contains bt_insert (acc_extra acc) m of
             Inl k \<Rightarrow> Inl (extra_conflict_issue inputs k)
           | Inr e \<Rightarrow> Inr (acc\<lparr>acc_extra := e\<rparr>)))"

definition merge_step ::
  "CloudRoleBinding list \<Rightarrow> CloudRoleBinding \<Rightarrow> merge_acc \<Rightarrow> MergeIssue + merge_acc" where
  "merge_step inputs crb acc =
     (if \<not> provider_present crb then Inl (missing_provider_issue crb)
      else res_bind (merge_aws crb acc) (\<lambda>acc.
        case crb_attributes (crb_spec crb) of
          None \<Rightarrow> Inr acc
        | Some a \<Rightarrow> res_bind (merge_provenance inputs a acc) (merge_extra inputs a)))"

fun merge_loop ::
  "CloudRoleBinding list \<Rightarrow> CloudRoleBinding list \<Rightarrow> merge_acc \<Rightarrow> MergeIssue + merge_acc" where
  "merge_loop inputs [] acc = Inr acc"
| "merge_loop inputs (crb # crbs) acc =
     res_bind (merge_step inputs crb acc) (merge_loop inputs crbs)"

definition merge_finish ::
  "string \<Rightarrow> CloudRoleBinding list \<Rightarrow> merge_acc \<Rightarrow> MergeIssue + ResolvedCloudRoleBindingSpec" where
  "merge_finish sa_name inputs acc =
     (case acc_aws acc of
        None \<Rightarrow> Inl (no_providers_issue inputs)
      | Some aws \<Rightarrow>
          Inr \<lparr>rcrb_subject = \<lparr>service_account_name = sa_name\<rparr>,
               rcrb_attributes =
                 Some \<lparr>include_provenance = opt_or (acc_include_prov acc) (Some True),
                       extra_attrs = (if acc_extra acc = [] then None else Some (acc_extra acc))\<rparr>,
               rcrb_providers = \<lparr>prov_aws = Some aws, prov_azure = None, prov_gcp = None\<rparr>\<rparr>)"

definition merge_inputs ::
  "string \<Rightarrow> CloudRoleBinding list \<Rightarrow> MergeIssue + ResolvedCloudRoleBindingSpec" where
  "merge_inputs sa_name inputs =
     res_bind (merge_loop inputs inputs merge_init) (merge_finish sa_name inputs)"

section \<open>What the merge promises\<close>

text \<open>The parts of a binding the merge looks at.\<close>

definition crb_aws :: "CloudRoleBinding \<Rightarrow> AwsProviderSpec option" where
  "crb_aws c = prov_aws (crb_providers (crb_spec c))"

definition crb_prov :: "CloudRoleBinding \<Rightarrow> bool option" where
  "crb_prov c = Option.bind (crb_attributes (crb_spec c)) include_provenance"

definition crb_extra :: "CloudRoleBinding \<Rightarrow> (string, string) btree" where
  "crb_extra c = unwrap_or (Option.bind (crb_attributes (crb_spec c)) extra_attrs) []"

definition awses :: "CloudRoleBinding list \<Rightarrow> AwsProviderSpec list" where
  "awses xs = List.map_filter crb_aws xs"

definition provs :: "CloudRoleBinding list \<Rightarrow> bool list" where
  "provs xs = List.map_filter crb_prov xs"

definition extras :: "CloudRoleBinding list \<Rightarrow> (string \<times> string) list" where
  "extras xs = concat (map crb_extra xs)"

definition all_same :: "'a list \<Rightarrow> bool" where
  "all_same xs \<longleftrightarrow> (\<forall>x \<in> set xs. \<forall>y \<in> set xs. x = y)"

text \<open>The bindings can be merged: each has a provider, exactly one an AWS block, the
  settings of \<open>includeProvenance\<close> agree, and no extra key occurs twice.\<close>

definition mergeable :: "CloudRoleBinding list \<Rightarrow> bool" where
  "mergeable xs \<longleftrightarrow> list_all provider_present xs \<and> length (awses xs) = 1 \<and>
     all_same (provs xs) \<and> distinct (map fst (extras xs))"

definition merged_spec :: "string \<Rightarrow> CloudRoleBinding list \<Rightarrow> ResolvedCloudRoleBindingSpec" where
  "merged_spec sa xs =
     (let e = fold (\<lambda>(k, v). bt_insert k v) (extras xs) []
      in \<lparr>rcrb_subject = \<lparr>service_account_name = sa\<rparr>,
          rcrb_attributes =
            Some \<lparr>include_provenance = Some (case provs xs of [] \<Rightarrow> True | v # _ \<Rightarrow> v),
                  extra_attrs = (if e = [] then None else Some e)\<rparr>,
          rcrb_providers = \<lparr>prov_aws = Some (hd (awses xs)), prov_azure = None, prov_gcp = None\<rparr>\<rparr>)"

section \<open>The loop against the specification\<close>

definition opt_list :: "'a option \<Rightarrow> 'a list" where
  "opt_list x = (case x of None \<Rightarrow> [] | Some v \<Rightarrow> [v])"

lemma opt_list_simps [simp]: "opt_list None = []" "opt_list (Some v) = [v]"
  by (simp_all add: opt_list_def)

lemma view_Nil [simp]: "awses [] = []" "provs [] = []" "extras [] = []"
  by (simp_all add: awses_def provs_def extras_def map_filter_simps)

lemma view_Cons:
  "awses (c # xs) = opt_list (crb_aws c) @ awses xs"
  "provs (c # xs) = opt_list (crb_prov c) @ provs xs"
  "extras (c # xs) = crb_extra c @ extras xs"
  by (simp_all add: awses_def provs_def extras_def map_filter_simps split: option.split)

lemma all_same_simps [simp]: "all_same []" "all_same [x]"
  by (simp_all add: all_same_def)

lemma all_same_Cons2: "all_same (x # y # zs) \<longleftrightarrow> x = y \<and> all_same (x # zs)"
  by (auto simp: all_same_def)

text \<open>What a loop iteration requires of the accumulator, and what it writes.\<close>

definition compatible :: "CloudRoleBinding \<Rightarrow> merge_acc \<Rightarrow> bool" where
  "compatible c acc \<longleftrightarrow> (crb_aws c = None \<or> acc_aws acc = None) \<and>
     all_same (opt_list (acc_include_prov acc) @ opt_list (crb_prov c)) \<and>
     distinct (map fst (crb_extra c)) \<and>
     fst ` set (crb_extra c) \<inter> dom (map_of (acc_extra acc)) = {}"

definition merge_upd :: "CloudRoleBinding \<Rightarrow> merge_acc \<Rightarrow> merge_acc" where
  "merge_upd c acc =
     acc\<lparr>acc_aws := opt_or (acc_aws acc) (crb_aws c),
         acc_aws_set_by := (if crb_aws c = None then acc_aws_set_by acc else Some (crb_name c)),
         acc_include_prov := opt_or (acc_include_prov acc) (crb_prov c),
         acc_extra := fold (\<lambda>(k, v). bt_insert k v) (crb_extra c) (acc_extra acc)\<rparr>"

lemma acc_eq_iff:
  "(acc :: merge_acc) = acc' \<longleftrightarrow> acc_aws acc = acc_aws acc' \<and>
     acc_aws_set_by acc = acc_aws_set_by acc' \<and> acc_include_prov acc = acc_include_prov acc' \<and>
     acc_extra acc = acc_extra acc'"
  by (cases acc; cases acc') simp

lemma merge_aws_Inr:
  "merge_aws c acc = Inr acc' \<longleftrightarrow> (crb_aws c = None \<or> acc_aws acc = None) \<and>
     acc' = acc\<lparr>acc_aws := opt_or (acc_aws acc) (crb_aws c),
       acc_aws_set_by := (if crb_aws c = None then acc_aws_set_by acc else Some (crb_name c))\<rparr>"
  by (cases "crb_aws c"; cases "acc_aws acc")
    (auto simp: merge_aws_def crb_aws_def acc_eq_iff)

lemma merge_provenance_Inr:
  "merge_provenance inputs a acc = Inr acc' \<longleftrightarrow>
     all_same (opt_list (acc_include_prov acc) @ opt_list (include_provenance a)) \<and>
     acc' = acc\<lparr>acc_include_prov := opt_or (acc_include_prov acc) (include_provenance a)\<rparr>"
  by (cases "include_provenance a"; cases "acc_include_prov acc")
    (auto simp: merge_provenance_def acc_eq_iff all_same_Cons2)

lemma merge_extra_Inr:
  assumes "bt_wf (acc_extra acc)"
  shows "merge_extra inputs a acc = Inr acc' \<longleftrightarrow>
     (let m = unwrap_or (extra_attrs a) [] in
      distinct (map fst m) \<and> fst ` set m \<inter> dom (map_of (acc_extra acc)) = {} \<and>
      acc' = acc\<lparr>acc_extra := fold (\<lambda>(k, v). bt_insert k v) m (acc_extra acc)\<rparr>)"
proof (cases "extra_attrs a")
  case None
  then show ?thesis by (auto simp: merge_extra_def acc_eq_iff)
next
  case (Some m)
  show ?thesis
  proof (cases "insert_new bt_contains bt_insert (acc_extra acc) m")
    case (Inl k)
    with btm.insert_new_Inr_iff [OF assms, of m] Some show ?thesis
      by (auto simp: merge_extra_def)
  next
    case (Inr e)
    with btm.insert_new_Inr_iff [OF assms, of m e] Some show ?thesis
      by (auto simp: merge_extra_def)
  qed
qed

lemma merge_step_Inr:
  assumes "bt_wf (acc_extra acc)"
  shows "merge_step inputs c acc = Inr acc' \<longleftrightarrow>
     provider_present c \<and> compatible c acc \<and> acc' = merge_upd c acc"
proof (cases "crb_attributes (crb_spec c)")
  case None
  then have "crb_prov c = None" "crb_extra c = []"
    by (simp_all add: crb_prov_def crb_extra_def)
  moreover have "all_same (opt_list (acc_include_prov acc))"
    by (cases "acc_include_prov acc") simp_all
  ultimately show ?thesis using None
    by (cases "acc_include_prov acc")
      (auto simp: merge_step_def res_bind_eq_Inr merge_aws_Inr compatible_def merge_upd_def acc_eq_iff)
next
  case (Some a)
  then have "crb_prov c = include_provenance a" "crb_extra c = unwrap_or (extra_attrs a) []"
    by (simp_all add: crb_prov_def crb_extra_def)
  with Some assms show ?thesis
    by (auto simp: merge_step_def res_bind_eq_Inr merge_aws_Inr merge_provenance_Inr
        merge_extra_Inr compatible_def merge_upd_def Let_def)
qed

text \<open>The condition under which the loop runs through from a given accumulator.\<close>

definition mergeable_from :: "merge_acc \<Rightarrow> CloudRoleBinding list \<Rightarrow> bool" where
  "mergeable_from acc xs \<longleftrightarrow> list_all provider_present xs \<and>
     length (opt_list (acc_aws acc) @ awses xs) \<le> 1 \<and>
     all_same (opt_list (acc_include_prov acc) @ provs xs) \<and>
     distinct (map fst (extras xs)) \<and>
     fst ` set (extras xs) \<inter> dom (map_of (acc_extra acc)) = {}"

lemma merge_upd_fields:
  "acc_aws (merge_upd c acc) = opt_or (acc_aws acc) (crb_aws c)"
  "acc_aws_set_by (merge_upd c acc) =
     (if crb_aws c = None then acc_aws_set_by acc else Some (crb_name c))"
  "acc_include_prov (merge_upd c acc) = opt_or (acc_include_prov acc) (crb_prov c)"
  "acc_extra (merge_upd c acc) = fold (\<lambda>(k, v). bt_insert k v) (crb_extra c) (acc_extra acc)"
  by (simp_all add: merge_upd_def)

lemma merge_upd_wf: "bt_wf (acc_extra acc) \<Longrightarrow> bt_wf (acc_extra (merge_upd c acc))"
  by (simp add: merge_upd_def btm.invar_fold)

lemma merge_upd_dom:
  "bt_wf (acc_extra acc) \<Longrightarrow> distinct (map fst (crb_extra c)) \<Longrightarrow>
     dom (map_of (acc_extra (merge_upd c acc))) =
       fst ` set (crb_extra c) \<union> dom (map_of (acc_extra acc))"
  by (simp add: merge_upd_def btm.look_fold dom_map_of_conv_image_fst Un_commute)

lemma aws_split:
  "length (opt_list a @ opt_list c @ ys) \<le> 1 \<longleftrightarrow>
     (c = None \<or> a = None) \<and> length (opt_list (opt_or a c) @ ys) \<le> 1"
  by (cases a; cases c) auto

lemma prov_split:
  "all_same (opt_list a @ opt_list c @ ys) \<longleftrightarrow>
     all_same (opt_list a @ opt_list c) \<and> all_same (opt_list (opt_or a c) @ ys)"
  by (cases a; cases c) (auto simp: all_same_Cons2)

lemma mergeable_from_Cons:
  assumes "bt_wf (acc_extra acc)"
  shows "mergeable_from acc (c # xs) \<longleftrightarrow>
     provider_present c \<and> compatible c acc \<and> mergeable_from (merge_upd c acc) xs"
proof (cases "distinct (map fst (crb_extra c))")
  case True
  have keys: "fst ` set (crb_extra c @ extras xs) \<inter> dom (map_of (acc_extra acc)) = {} \<and>
        distinct (map fst (crb_extra c @ extras xs)) \<longleftrightarrow>
      fst ` set (crb_extra c) \<inter> dom (map_of (acc_extra acc)) = {} \<and>
        distinct (map fst (extras xs)) \<and>
        fst ` set (extras xs) \<inter> dom (map_of (acc_extra (merge_upd c acc))) = {}"
    using merge_upd_dom [OF assms True] True by auto
  show ?thesis
    unfolding mergeable_from_def compatible_def view_Cons merge_upd_fields(1,3) aws_split prov_split
    using keys True by auto
next
  case False
  then show ?thesis by (simp add: mergeable_from_def compatible_def view_Cons)
qed

lemma merge_loop_Inr:
  "bt_wf (acc_extra acc) \<Longrightarrow> merge_loop inputs xs acc = Inr acc' \<longleftrightarrow>
     mergeable_from acc xs \<and> acc' = fold merge_upd xs acc"
proof (induction xs arbitrary: acc)
  case Nil
  then show ?case
    by (cases "acc_aws acc"; cases "acc_include_prov acc") (auto simp: mergeable_from_def)
next
  case (Cons c xs)
  have wf: "bt_wf (acc_extra (merge_upd c acc))"
    using Cons.prems by (rule merge_upd_wf)
  show ?case
    using Cons.IH [OF wf]
    by (auto simp: res_bind_eq_Inr merge_step_Inr Cons.prems mergeable_from_Cons)
qed

text \<open>The values the loop leaves in its variables.\<close>

lemma fold_upd_aws:
  "acc_aws (fold merge_upd xs acc) =
     opt_or (acc_aws acc) (case awses xs of [] \<Rightarrow> None | a # _ \<Rightarrow> Some a)"
proof (induction xs arbitrary: acc)
  case Nil
  then show ?case by (cases "acc_aws acc") simp_all
next
  case (Cons c xs)
  then show ?case
    by (cases "acc_aws acc"; cases "crb_aws c") (simp_all add: merge_upd_def view_Cons)
qed

lemma fold_upd_prov:
  "acc_include_prov (fold merge_upd xs acc) =
     opt_or (acc_include_prov acc) (case provs xs of [] \<Rightarrow> None | a # _ \<Rightarrow> Some a)"
proof (induction xs arbitrary: acc)
  case Nil
  then show ?case by (cases "acc_include_prov acc") simp_all
next
  case (Cons c xs)
  then show ?case
    by (cases "acc_include_prov acc"; cases "crb_prov c") (simp_all add: merge_upd_def view_Cons)
qed

lemma fold_upd_extra:
  "acc_extra (fold merge_upd xs acc) = fold (\<lambda>(k, v). bt_insert k v) (extras xs) (acc_extra acc)"
  by (induction xs arbitrary: acc) (simp_all add: merge_upd_def view_Cons)

lemma merge_init_simps [simp]:
  "acc_aws merge_init = None" "acc_aws_set_by merge_init = None"
  "acc_include_prov merge_init = None" "acc_extra merge_init = []"
  by (simp_all add: merge_init_def)

lemma bt_wf_Nil [simp]: "bt_wf []"
  by (rule btm.invar_empty)

lemma mergeable_from_init:
  "mergeable_from merge_init xs \<longleftrightarrow> list_all provider_present xs \<and> length (awses xs) \<le> 1 \<and>
     all_same (provs xs) \<and> distinct (map fst (extras xs))"
  by (simp add: mergeable_from_def)

lemma merge_finish_Inr:
  "merge_finish sa inputs (fold merge_upd inputs merge_init) = Inr r \<longleftrightarrow>
     awses inputs \<noteq> [] \<and> r = merged_spec sa inputs"
  by (cases "awses inputs"; cases "provs inputs")
    (auto simp: merge_finish_def fold_upd_aws fold_upd_prov fold_upd_extra merged_spec_def Let_def)

lemma merge_inputs_Inr:
  "merge_inputs sa inputs = Inr r \<longleftrightarrow> mergeable inputs \<and> r = merged_spec sa inputs"
  by (cases "awses inputs")
    (auto simp: merge_inputs_def res_bind_eq_Inr merge_loop_Inr mergeable_from_init
      merge_finish_Inr mergeable_def)

text \<open>
  C7: The merge of the bindings of a ServiceAccount, a loop with early returns and mutable
  accumulators, succeeds exactly when every binding has a provider block, exactly one has an
  AWS block, all settings of includeProvenance agree and no attributes.extra key occurs
  twice, and its result is the declarative merge of the bindings.
\<close>

theorem merge_inputs_ok_iff:
  "merge_inputs sa inputs = Inr r \<longleftrightarrow> mergeable inputs \<and> r = merged_spec sa inputs"
  by (rule merge_inputs_Inr)

section \<open>The order of the bindings does not matter\<close>

lemma mset_view:
  assumes "mset xs = mset ys"
  shows "mset (awses xs) = mset (awses ys)" "mset (provs xs) = mset (provs ys)"
    "mset (extras xs) = mset (extras ys)"
proof -
  have f: "mset (List.map_filter f xs) = mset (List.map_filter f ys)" for f :: "CloudRoleBinding \<Rightarrow> 'b option"
    using assms by (metis map_filter_def mset_filter mset_map)
  show "mset (awses xs) = mset (awses ys)" "mset (provs xs) = mset (provs ys)"
    by (simp_all add: awses_def provs_def f)
  have "mset (concat (map crb_extra zs)) = (\<Sum>c \<in># mset zs. mset (crb_extra c))" for zs
    by (induction zs) simp_all
  then show "mset (extras xs) = mset (extras ys)"
    by (simp add: extras_def assms)
qed

lemma mergeable_perm:
  assumes "mset xs = mset ys"
  shows "mergeable xs \<longleftrightarrow> mergeable ys"
proof -
  note v = mset_view [OF assms]
  have "list_all provider_present xs \<longleftrightarrow> list_all provider_present ys"
    using mset_eq_setD [OF assms] by (simp add: list_all_iff)
  moreover have "length (awses xs) = length (awses ys)"
    using v(1) by (rule mset_eq_length)
  moreover have "all_same (provs xs) \<longleftrightarrow> all_same (provs ys)"
    using mset_eq_setD [OF v(2)] by (simp add: all_same_def)
  moreover have "distinct (map fst (extras xs)) \<longleftrightarrow> distinct (map fst (extras ys))"
    using v(3) by (intro mset_eq_imp_distinct_iff) simp
  ultimately show ?thesis by (simp add: mergeable_def)
qed

lemma merged_spec_perm:
  assumes "mset xs = mset ys" "mergeable xs"
  shows "merged_spec sa xs = merged_spec sa ys"
proof -
  note v = mset_view [OF assms(1)]
  have "mergeable ys" using assms(2) mergeable_perm [OF assms(1)] by simp
  then have m: "length (awses xs) = 1" "length (awses ys) = 1" "distinct (map fst (extras xs))"
    "distinct (map fst (extras ys))" "all_same (provs xs)"
    using assms(2) by (simp_all add: mergeable_def)
  from m(1,2) obtain a b where "awses xs = [a]" "awses ys = [b]"
    by (auto simp: length_Suc_conv)
  with v(1) have "hd (awses xs) = hd (awses ys)" by simp
  moreover have "(case provs xs of [] \<Rightarrow> True | v # _ \<Rightarrow> v) = (case provs ys of [] \<Rightarrow> True | v # _ \<Rightarrow> v)"
    using mset_eq_setD [OF v(2)] m(5)
    by (cases "provs xs"; cases "provs ys") (auto simp: all_same_def)
  moreover have "fold (\<lambda>(k, v). bt_insert k v) (extras xs) [] = fold (\<lambda>(k, v). bt_insert k v) (extras ys) []"
    using m(3,4) mset_eq_setD [OF v(3)] by (rule btm.fold_cong_set)
  ultimately show ?thesis by (simp add: merged_spec_def Let_def)
qed

text \<open>
  C8: The result of a successful merge does not depend on the order in which the API server
  lists the bindings.
\<close>

theorem merge_inputs_perm:
  assumes "mset xs = mset ys"
  shows "merge_inputs sa xs = Inr r \<longleftrightarrow> merge_inputs sa ys = Inr r"
  using mergeable_perm [OF assms] merged_spec_perm [OF assms]
  by (auto simp: merge_inputs_Inr)

section \<open>Which error is reported\<close>

lemma merge_loop_Inl:
  "merge_loop inputs xs acc = Inl i \<Longrightarrow>
     \<exists>pre c post acc'. xs = pre @ c # post \<and> merge_loop inputs pre acc = Inr acc' \<and>
       merge_step inputs c acc' = Inl i"
proof (induction xs arbitrary: acc)
  case Nil
  then show ?case by simp
next
  case (Cons c xs)
  show ?case
  proof (cases "merge_step inputs c acc")
    case (Inl j)
    with Cons.prems have "merge_loop inputs [] acc = Inr acc" "merge_step inputs c acc = Inl i"
      by simp_all
    then show ?thesis by (metis append_Nil)
  next
    case (Inr acc1)
    with Cons.prems have "merge_loop inputs xs acc1 = Inl i" by simp
    from Cons.IH [OF this] obtain pre d post acc' where
      "xs = pre @ d # post" "merge_loop inputs pre acc1 = Inr acc'" "merge_step inputs d acc' = Inl i"
      by blast
    with Inr have "c # xs = (c # pre) @ d # post" "merge_loop inputs (c # pre) acc = Inr acc'"
      "merge_step inputs d acc' = Inl i" by simp_all
    then show ?thesis by blast
  qed
qed

lemma fold_upd_set_by:
  "acc_aws (fold merge_upd pre merge_init) \<noteq> None \<Longrightarrow>
     \<exists>d \<in> set pre. crb_aws d \<noteq> None \<and>
       acc_aws_set_by (fold merge_upd pre merge_init) = Some (crb_name d)"
proof (induction pre rule: rev_induct)
  case Nil
  then show ?case by simp
next
  case (snoc d pre)
  then show ?case
    by (cases "crb_aws d"; cases "acc_aws (fold merge_upd pre merge_init)")
      (auto simp: merge_upd_fields)
qed

lemma merge_extra_Inl:
  assumes "merge_extra inputs a acc = Inl i" "bt_wf (acc_extra acc)"
  shows "\<exists>pre k v post. unwrap_or (extra_attrs a) [] = pre @ (k, v) # post \<and>
     (k \<in> fst ` set pre \<or> k \<in> dom (map_of (acc_extra acc))) \<and> i = extra_conflict_issue inputs k"
proof -
  from assms(1) obtain m k where m: "extra_attrs a = Some m" "i = extra_conflict_issue inputs k"
    "insert_new bt_contains bt_insert (acc_extra acc) m = Inl k"
    by (auto simp: merge_extra_def split: option.splits sum.splits)
  with btm.insert_new_Inl [OF assms(2) m(3)] show ?thesis by (simp add: m(1,2)) blast
qed

lemma merge_step_Inl:
  assumes "merge_step inputs c acc = Inl i" "bt_wf (acc_extra acc)"
  shows "\<not> provider_present c \<and> i = missing_provider_issue c \<or>
     crb_aws c \<noteq> None \<and> acc_aws acc \<noteq> None \<and> i = aws_conflict_issue acc c \<or>
     (\<exists>v. crb_prov c = Some v \<and> acc_include_prov acc = Some (\<not> v)) \<and>
       i = provenance_conflict_issue inputs \<or>
     (\<exists>pre k v post. crb_extra c = pre @ (k, v) # post \<and>
       (k \<in> fst ` set pre \<or> k \<in> dom (map_of (acc_extra acc))) \<and> i = extra_conflict_issue inputs k)"
proof (cases "crb_attributes (crb_spec c)")
  case None
  with assms show ?thesis
    by (auto simp: merge_step_def res_bind_eq_Inl merge_aws_def crb_aws_def
        split: if_splits option.splits)
next
  case (Some a)
  have v: "crb_prov c = include_provenance a" "crb_extra c = unwrap_or (extra_attrs a) []"
    using Some by (simp_all add: crb_prov_def crb_extra_def)
  have "\<not> provider_present c \<and> i = missing_provider_issue c \<or> merge_aws c acc = Inl i \<or>
      (\<exists>acc1. merge_aws c acc = Inr acc1 \<and> (merge_provenance inputs a acc1 = Inl i \<or>
        (\<exists>acc2. merge_provenance inputs a acc1 = Inr acc2 \<and> merge_extra inputs a acc2 = Inl i)))"
    using assms(1) Some
    by (simp add: merge_step_def res_bind_eq_Inl split: if_splits)
  then consider
      "\<not> provider_present c" "i = missing_provider_issue c"
    | "merge_aws c acc = Inl i"
    | acc1 where "merge_aws c acc = Inr acc1" "merge_provenance inputs a acc1 = Inl i"
    | acc1 acc2 where "merge_aws c acc = Inr acc1" "merge_provenance inputs a acc1 = Inr acc2"
        "merge_extra inputs a acc2 = Inl i"
    by blast
  then show ?thesis
  proof cases
    case 2
    then show ?thesis
      by (auto simp: merge_aws_def crb_aws_def split: option.splits if_splits)
  next
    case 3
    then show ?thesis
      by (auto simp: merge_aws_Inr merge_provenance_def v split: option.splits if_splits)
  next
    case 4
    then have "acc_extra acc2 = acc_extra acc"
      by (auto simp: merge_aws_Inr merge_provenance_Inr)
    with merge_extra_Inl [OF 4(3)] assms(2) show ?thesis by (simp add: v)
  qed simp
qed

text \<open>An issue is explained by the bindings when it names a defect they have: the loop
  ran through the bindings \<open>pre\<close> and stopped at \<open>c\<close> for the reason reported, or it ran
  to its end without finding an AWS block.\<close>

definition issue_explained :: "CloudRoleBinding list \<Rightarrow> MergeIssue \<Rightarrow> bool" where
  "issue_explained inputs i \<longleftrightarrow>
     (\<exists>pre c post. inputs = pre @ c # post \<and> mergeable_from merge_init pre \<and>
       (\<not> provider_present c \<and> i = missing_provider_issue c \<or>
        (\<exists>d \<in> set pre. crb_aws d \<noteq> None \<and> crb_aws c \<noteq> None \<and>
           issue_condition_type i = Conflict \<and> issue_reason i = ProviderConflict \<and>
           issue_message i = ''conflict: multiple CloudRoleBindings set providers.aws'' \<and>
           affected_crb_names i = filter (\<lambda>n. n \<noteq> []) [crb_name d, crb_name c]) \<or>
        (\<exists>d \<in> set pre. \<exists>v. crb_prov d = Some (\<not> v) \<and> crb_prov c = Some v \<and>
           i = provenance_conflict_issue inputs) \<or>
        (\<exists>k. 2 \<le> count_list (map fst (extras (pre @ [c]))) k \<and> i = extra_conflict_issue inputs k))) \<or>
     list_all provider_present inputs \<and> awses inputs = [] \<and> i = no_providers_issue inputs"

lemma provs_hd_in: "provs pre = v # vs \<Longrightarrow> \<exists>d \<in> set pre. crb_prov d = Some v"
proof -
  assume "provs pre = v # vs"
  then have "v \<in> set (provs pre)" by simp
  then show ?thesis by (auto simp: provs_def map_filter_def)
qed

lemma extras_append: "extras (xs @ ys) = extras xs @ extras ys"
  by (simp add: extras_def)

lemma count_list_pos: "x \<in> set xs \<Longrightarrow> 0 < count_list xs x"
  using count_list_0_iff by (metis gr0I)

lemma step_issue_explained:
  assumes pre: "mergeable_from merge_init pre"
    and step: "merge_step inputs c (fold merge_upd pre merge_init) = Inl i"
    and inputs: "inputs = pre @ c # post"
  shows "issue_explained inputs i"
proof -
  let ?acc = "fold merge_upd pre merge_init"
  have ex: "acc_extra ?acc = fold (\<lambda>(k, v). bt_insert k v) (extras pre) []"
    by (simp add: fold_upd_extra)
  then have wf: "bt_wf (acc_extra ?acc)" by (simp add: btm.invar_fold)
  have dom: "dom (map_of (acc_extra ?acc)) = fst ` set (extras pre)"
    using pre by (simp add: ex btm.look_fold mergeable_from_init dom_map_of_conv_image_fst)
  from merge_step_Inl [OF step wf] consider
      (present) "\<not> provider_present c" "i = missing_provider_issue c"
    | (aws) "crb_aws c \<noteq> None" "acc_aws ?acc \<noteq> None" "i = aws_conflict_issue ?acc c"
    | (prov) v where "crb_prov c = Some v" "acc_include_prov ?acc = Some (\<not> v)"
        "i = provenance_conflict_issue inputs"
    | (extra) as k v bs where "crb_extra c = as @ (k, v) # bs"
        "k \<in> fst ` set as \<or> k \<in> dom (map_of (acc_extra ?acc))" "i = extra_conflict_issue inputs k"
    by blast
  then show ?thesis
  proof cases
    case present
    with pre inputs show ?thesis unfolding issue_explained_def by blast
  next
    case aws
    from fold_upd_set_by [OF aws(2)] obtain d where d: "d \<in> set pre" "crb_aws d \<noteq> None"
      "acc_aws_set_by ?acc = Some (crb_name d)" by blast
    with aws(3) have "issue_condition_type i = Conflict \<and> issue_reason i = ProviderConflict \<and>
        issue_message i = ''conflict: multiple CloudRoleBindings set providers.aws'' \<and>
        affected_crb_names i = filter (\<lambda>n. n \<noteq> []) [crb_name d, crb_name c]"
      by (simp add: aws_conflict_issue_def)
    with d aws(1) pre inputs show ?thesis unfolding issue_explained_def by blast
  next
    case (prov v)
    then obtain vs where "provs pre = (\<not> v) # vs"
      by (cases "provs pre") (auto simp: fold_upd_prov)
    from provs_hd_in [OF this] prov pre inputs show ?thesis unfolding issue_explained_def by blast
  next
    case (extra as k v bs)
    have "k \<in> set (map fst as) \<or> k \<in> set (map fst (extras pre))"
      using extra(2) by (simp add: dom)
    then have "0 < count_list (map fst as) k + count_list (map fst (extras pre)) k"
      using count_list_pos by fastforce
    then have "2 \<le> count_list (map fst (extras (pre @ [c]))) k"
      by (simp add: extras_append view_Cons extra(1)) linarith
    with extra(3) pre inputs show ?thesis unfolding issue_explained_def by blast
  qed
qed

lemma merge_inputs_Inl:
  assumes "merge_inputs sa inputs = Inl i"
  shows "issue_explained inputs i"
proof (cases "merge_loop inputs inputs merge_init")
  case (Inl j)
  with assms have "merge_loop inputs inputs merge_init = Inl i"
    by (simp add: merge_inputs_def)
  from merge_loop_Inl [OF this] obtain pre c post acc' where
    "inputs = pre @ c # post" "merge_loop inputs pre merge_init = Inr acc'"
    "merge_step inputs c acc' = Inl i" by blast
  then show ?thesis using step_issue_explained by (auto simp: merge_loop_Inr)
next
  case (Inr acc)
  then have acc: "acc = fold merge_upd inputs merge_init" "mergeable_from merge_init inputs"
    by (simp_all add: merge_loop_Inr)
  from assms Inr have "merge_finish sa inputs acc = Inl i"
    by (simp add: merge_inputs_def)
  then have "awses inputs = []" "i = no_providers_issue inputs"
    unfolding acc by (cases "awses inputs"; simp add: merge_finish_def fold_upd_aws)+
  with acc(2) show ?thesis by (simp add: issue_explained_def mergeable_from_init)
qed


section \<open>Only AWS blocks can conflict\<close>

text \<open>Two bindings look alike to the merge when they agree on everything but the contents
  of their Azure and GCP blocks (they may even set different ones, or both the same).\<close>

definition same_view :: "CloudRoleBinding \<Rightarrow> CloudRoleBinding \<Rightarrow> bool" where
  "same_view c d \<longleftrightarrow> meta_name (crb_metadata c) = meta_name (crb_metadata d) \<and> crb_aws c = crb_aws d \<and>
     crb_attributes (crb_spec c) = crb_attributes (crb_spec d) \<and>
     provider_present c = provider_present d"

lemma merge_step_same_view:
  assumes "same_view c d" "input_names inputs = input_names inputs'"
  shows "merge_step inputs c acc = merge_step inputs' d acc"
proof -
  have "crb_name c = crb_name d" "prov_aws (crb_providers (crb_spec c)) = prov_aws (crb_providers (crb_spec d))"
    using assms(1) by (simp_all add: same_view_def crb_name_def crb_aws_def)
  moreover from assms(2) have "merge_provenance inputs = merge_provenance inputs'"
    "merge_extra inputs = merge_extra inputs'"
    by (intro ext; simp add: merge_provenance_def merge_extra_def provenance_conflict_issue_def
        extra_conflict_issue_def split: option.split sum.split)+
  moreover from calculation(1,2) have "merge_aws c = merge_aws d"
    by (intro ext) (simp add: merge_aws_def aws_conflict_issue_def split: option.split)
  ultimately show ?thesis using assms(1)
    by (cases "crb_attributes (crb_spec d)")
      (simp_all add: merge_step_def missing_provider_issue_def same_view_def)
qed

lemma merge_loop_same_view:
  "list_all2 same_view xs ys \<Longrightarrow> input_names inputs = input_names inputs' \<Longrightarrow>
     merge_loop inputs xs acc = merge_loop inputs' ys acc"
proof (induction arbitrary: acc rule: list_all2_induct)
  case Nil
  then show ?case by simp
next
  case (Cons c cs d ds)
  then show ?case
    by (cases "merge_step inputs' d acc") (simp_all add: merge_step_same_view [of c d inputs inputs'])
qed

lemma input_names_same_view:
  "list_all2 same_view xs ys \<Longrightarrow> input_names xs = input_names ys"
  by (induction rule: list_all2_induct)
    (simp_all add: input_names_def same_view_def map_filter_simps split: option.split)

lemma merge_ignores_azure_gcp:
  assumes "list_all2 same_view xs ys"
  shows "merge_inputs sa xs = merge_inputs sa ys"
proof -
  have names: "input_names xs = input_names ys"
    using assms by (rule input_names_same_view)
  have "merge_finish sa xs = merge_finish sa ys"
    by (intro ext) (simp add: merge_finish_def no_providers_issue_def names split: option.split)
  then show ?thesis
    by (simp add: merge_inputs_def merge_loop_same_view [OF assms names])
qed

end
