(* ===== verification/Merge_Status.thy ===== *)
theory Merge_Status
  imports Merge
begin

text \<open>
  The second half of \<open>kif-webhook/src/merge.rs\<close>: the objects that report the outcome of
  a merge. \<open>to_vec\<close> stands for \<open>serde_json::to_vec\<close> on the merged spec and
  \<open>sha256_hex\<close> for the hexadecimal SHA-256 digest (crates \<open>serde_json\<close>, \<open>sha2\<close> and
  \<open>hex\<close>); \<open>now\<close> is the reading of \<open>Timestamp::now()\<close>.
\<close>

section \<open>The objects\<close>

definition max_generation :: "CloudRoleBindingRef list \<Rightarrow> i64" where
  "max_generation refs =
     (case List.map_filter ref_generation refs of [] \<Rightarrow> 0 | g # gs \<Rightarrow> fold max gs g)"

definition rcrb_meta :: "string \<Rightarrow> string \<Rightarrow> ObjectMeta" where
  "rcrb_meta namespace sa_name =
     default_ObjectMeta\<lparr>meta_name := Some sa_name, meta_namespace := Some namespace\<rparr>"

definition build_resolved_from_spec ::
  "(ResolvedCloudRoleBindingSpec \<Rightarrow> string res) \<Rightarrow> (string \<Rightarrow> string) \<Rightarrow> Time \<Rightarrow>
     string \<Rightarrow> string \<Rightarrow> CloudRoleBindingRef list \<Rightarrow> ResolvedCloudRoleBindingSpec \<Rightarrow>
     ResolvedCloudRoleBinding res" where
  "build_resolved_from_spec to_vec sha256_hex now namespace sa_name refs merged =
     res_bind (to_vec merged) (\<lambda>spec_bytes.
       Inr \<lparr>rcrb_metadata = rcrb_meta namespace sa_name,
            rcrb_spec = merged,
            rcrb_status = Some
              \<lparr>rcrb_status_providers = providers_summary (rcrb_providers merged),
               rcrb_conditions =
                 [\<lparr>cond_type = Ready, cond_status = StatusTrue,
                   observed_generation = max_generation refs, cond_reason = Validated,
                   cond_message = ''resolved and validated'', last_transition_time = now\<rparr>],
               sources = refs,
               config_hash = Some (sha256_hex spec_bytes),
               rcrb_last_error = None\<rparr>\<rparr>)"

definition build_failed_resolved ::
  "Time \<Rightarrow> string \<Rightarrow> string \<Rightarrow> CloudRoleBindingRef list \<Rightarrow> MergeIssue \<Rightarrow>
     ResolvedCloudRoleBinding" where
  "build_failed_resolved now namespace sa_name refs issue =
     \<lparr>rcrb_metadata = rcrb_meta namespace sa_name,
      rcrb_spec =
        \<lparr>rcrb_subject = \<lparr>service_account_name = sa_name\<rparr>,
         rcrb_attributes = None,
         rcrb_providers = default_ProvidersSpec\<rparr>,
      rcrb_status = Some
        \<lparr>rcrb_status_providers = [],
         rcrb_conditions =
           [\<lparr>cond_type = Ready, cond_status = StatusFalse,
             observed_generation = max_generation refs, cond_reason = issue_reason issue,
             cond_message = issue_message issue, last_transition_time = now\<rparr>],
         sources = refs,
         config_hash = None,
         rcrb_last_error = Some (issue_message issue)\<rparr>\<rparr>"

definition ready_condition ::
  "Time \<Rightarrow> i64 \<Rightarrow> bool \<Rightarrow> MergeIssue option \<Rightarrow> Condition" where
  "ready_condition now gen ready issue =
     \<lparr>cond_type = Ready,
      cond_status = (if ready then StatusTrue else StatusFalse),
      observed_generation = gen,
      cond_reason =
        (if ready then Validated else unwrap_or (map_option issue_reason issue) ReasonError),
      cond_message =
        (if ready then ''validated'' else unwrap_or (map_option issue_message issue) ''not ready''),
      last_transition_time = now\<rparr>"

definition issue_conditions ::
  "Time \<Rightarrow> i64 \<Rightarrow> MergeIssue option \<Rightarrow> Condition list" where
  "issue_conditions now gen issue =
     (case issue of
        Some i \<Rightarrow>
          (case issue_condition_type i of
             InvalidSpec \<Rightarrow>
               [\<lparr>cond_type = InvalidSpec, cond_status = StatusTrue, observed_generation = gen,
                 cond_reason = issue_reason i, cond_message = issue_message i,
                 last_transition_time = now\<rparr>]
           | Conflict \<Rightarrow>
               [\<lparr>cond_type = Conflict, cond_status = StatusTrue, observed_generation = gen,
                 cond_reason = issue_reason i, cond_message = issue_message i,
                 last_transition_time = now\<rparr>]
           | Ready \<Rightarrow> [])
      | None \<Rightarrow>
          [\<lparr>cond_type = Conflict, cond_status = StatusFalse, observed_generation = gen,
            cond_reason = Validated, cond_message = ''no conflicts'', last_transition_time = now\<rparr>,
           \<lparr>cond_type = InvalidSpec, cond_status = StatusFalse, observed_generation = gen,
            cond_reason = Validated, cond_message = ''spec is valid'', last_transition_time = now\<rparr>])"

definition build_crb_status ::
  "Time \<Rightarrow> CloudRoleBinding \<Rightarrow> bool \<Rightarrow> MergeIssue option \<Rightarrow> CloudRoleBindingStatus" where
  "build_crb_status now crb ready issue =
     (let gen = unwrap_or (meta_generation (crb_metadata crb)) 0
      in \<lparr>crb_status_providers = providers_summary (crb_providers (crb_spec crb)),
          crb_conditions = ready_condition now gen ready issue # issue_conditions now gen issue,
          crb_last_error = (if ready then None else map_option issue_message issue)\<rparr>)"

section \<open>Reading a status\<close>

text \<open>\<open>is_ready\<close> of \<open>kif-webhook/src/admission.rs\<close>.\<close>

definition is_ready :: "ResolvedCloudRoleBinding \<Rightarrow> bool" where
  "is_ready resolved =
     (case rcrb_status resolved of
        None \<Rightarrow> False
      | Some status \<Rightarrow>
          list_ex (\<lambda>c. cond_type c = Ready \<and> cond_status c = StatusTrue) (rcrb_conditions status))"

definition status_hash :: "ResolvedCloudRoleBinding \<Rightarrow> string option" where
  "status_hash r = Option.bind (rcrb_status r) config_hash"

definition rcrb_aws :: "ResolvedCloudRoleBinding \<Rightarrow> AwsProviderSpec option" where
  "rcrb_aws r = prov_aws (rcrb_providers (rcrb_spec r))"

lemma failed_resolved_simps [simp]:
  "\<not> is_ready (build_failed_resolved now ns sa refs i)"
  "status_hash (build_failed_resolved now ns sa refs i) = None"
  "rcrb_aws (build_failed_resolved now ns sa refs i) = None"
  "rcrb_metadata (build_failed_resolved now ns sa refs i) = rcrb_meta ns sa"
  by (simp_all add: build_failed_resolved_def is_ready_def status_hash_def rcrb_aws_def
      default_ProvidersSpec_def)

lemma resolved_from_spec_Inr:
  "build_resolved_from_spec to_vec sha now ns sa refs merged = Inr r \<Longrightarrow>
     is_ready r \<and> rcrb_spec r = merged \<and> rcrb_metadata r = rcrb_meta ns sa \<and>
     (\<exists>b. to_vec merged = Inr b \<and> status_hash r = Some (sha b))"
  by (auto simp: build_resolved_from_spec_def res_bind_eq_Inr is_ready_def status_hash_def)

lemma rcrb_meta_simps [simp]:
  "meta_name (rcrb_meta ns sa) = Some sa" "meta_namespace (rcrb_meta ns sa) = Some ns"
  by (simp_all add: rcrb_meta_def)

section \<open>Well-formed statuses\<close>

text \<open>The CRD schema wants a message of at least one character in every condition
  (\<open>length(min = 1)\<close>), and readers look conditions up by type, so a status has at most
  one condition of a type.\<close>

definition status_wf :: "CloudRoleBindingStatus \<Rightarrow> bool" where
  "status_wf st \<longleftrightarrow> distinct (map cond_type (crb_conditions st)) \<and>
     list_all (\<lambda>c. cond_message c \<noteq> []) (crb_conditions st)"

lemma explained_issue_shape:
  assumes "issue_explained inputs i"
  shows "issue_condition_type i \<noteq> Ready"
    "issue_condition_type i = InvalidSpec \<longleftrightarrow> issue_reason i = ValidationFailed"
    "issue_message i \<noteq> []"
    "set (affected_crb_names i) \<subseteq> crb_name ` set inputs"
proof -
  have "meta_name (crb_metadata c) = Some n \<Longrightarrow> c \<in> set inputs \<Longrightarrow> n \<in> crb_name ` set inputs" for c n
    by (auto simp: crb_name_def image_iff intro!: bexI [of _ c])
  then have names: "set (input_names inputs) \<subseteq> crb_name ` set inputs"
    by (auto simp: input_names_def map_filter_def)
  from assms show "issue_condition_type i \<noteq> Ready"
    by (auto simp: issue_explained_def missing_provider_issue_def provenance_conflict_issue_def
        extra_conflict_issue_def no_providers_issue_def)
  from assms show "issue_condition_type i = InvalidSpec \<longleftrightarrow> issue_reason i = ValidationFailed"
    by (auto simp: issue_explained_def missing_provider_issue_def provenance_conflict_issue_def
        extra_conflict_issue_def no_providers_issue_def)
  from assms show "issue_message i \<noteq> []"
    by (auto simp: issue_explained_def missing_provider_issue_def provenance_conflict_issue_def
        extra_conflict_issue_def no_providers_issue_def)
  from assms names show "set (affected_crb_names i) \<subseteq> crb_name ` set inputs"
    by (auto simp: issue_explained_def missing_provider_issue_def provenance_conflict_issue_def
        extra_conflict_issue_def no_providers_issue_def split: if_splits)
qed

text \<open>The conditions a status holds, in each of the cases of \<open>build_crb_status\<close>.\<close>

lemma status_of_ready:
  "crb_conditions (build_crb_status now crb ready issue) =
     ready_condition now (unwrap_or (meta_generation (crb_metadata crb)) 0) ready issue #
     issue_conditions now (unwrap_or (meta_generation (crb_metadata crb)) 0) issue"
  "crb_last_error (build_crb_status now crb ready issue) =
     (if ready then None else map_option issue_message issue)"
  by (simp_all add: build_crb_status_def Let_def)

lemma issue_conditions_types:
  "map cond_type (issue_conditions now gen issue) =
     (case issue of
        None \<Rightarrow> [Conflict, InvalidSpec]
      | Some i \<Rightarrow> if issue_condition_type i = Ready then [] else [issue_condition_type i])"
  by (cases issue; simp add: issue_conditions_def split: ConditionType.split)

lemma issue_conditions_messages:
  "(\<And>i. issue = Some i \<Longrightarrow> issue_message i \<noteq> []) \<Longrightarrow>
     list_all (\<lambda>c. cond_message c \<noteq> []) (issue_conditions now gen issue)"
  by (cases issue; simp add: issue_conditions_def split: ConditionType.split)

lemma ready_condition_simps [simp]:
  "cond_type (ready_condition now gen ready issue) = Ready"
  "cond_status (ready_condition now gen ready issue) = (if ready then StatusTrue else StatusFalse)"
  by (simp_all add: ready_condition_def)

lemma ready_condition_message:
  "(\<And>i. issue = Some i \<Longrightarrow> issue_message i \<noteq> []) \<Longrightarrow>
     cond_message (ready_condition now gen ready issue) \<noteq> []"
  by (cases issue) (simp_all add: ready_condition_def)

lemma issue_conditions_not_ready:
  "c \<in> set (issue_conditions now gen issue) \<Longrightarrow> cond_type c \<noteq> Ready"
  "distinct (map cond_type (issue_conditions now gen issue))"
proof -
  have "Ready \<notin> set (map cond_type (issue_conditions now gen issue))"
    by (simp only: issue_conditions_types) (simp split: option.split)
  then show "c \<in> set (issue_conditions now gen issue) \<Longrightarrow> cond_type c \<noteq> Ready"
    by (metis image_eqI list.set_map)
  show "distinct (map cond_type (issue_conditions now gen issue))"
    by (simp add: issue_conditions_types split: option.split)
qed

lemma build_crb_status_wf:
  assumes "\<And>i. issue = Some i \<Longrightarrow> issue_message i \<noteq> []"
  shows "status_wf (build_crb_status now crb ready issue)"
  using assms ready_condition_message [of issue] issue_conditions_messages [of issue]
    issue_conditions_not_ready
  by (fastforce simp: status_wf_def status_of_ready)

lemma build_crb_status_Ready:
  assumes "c \<in> set (crb_conditions (build_crb_status now crb ready issue))" "cond_type c = Ready"
  shows "cond_status c = (if ready then StatusTrue else StatusFalse)"
  using assms issue_conditions_not_ready by (auto simp: status_of_ready)

end
