(* ===== verification/Kube.thy ===== *)
theory Kube
  imports Merge_Status
begin

text \<open>
  The boundary to the Kubernetes API server. The server is not code of the repository,
  so its answers are a parameter of the model: a \<open>kube_api\<close> gives, for every request the
  program makes, the answer as a function of the requests made before it, so that the
  server may fail, change its mind and depend on earlier writes in any way. An operation
  of the program maps the log of earlier requests to its result and the extended log; a
  failed request ends the operation the way \<open>?\<close> does.
\<close>

section \<open>Objects and requests\<close>

text \<open>\<open>Secret\<close> of \<open>k8s-openapi\<close>: the fields the program reads or writes.\<close>

record Secret =
  secret_name :: "string option"
  secret_type :: "string option"
  secret_data :: "(string, string) btree option"

text \<open>\<open>Event\<close>, with the \<open>ObjectReference\<close> and the \<open>EventSource\<close> it carries.\<close>

record ObjectReference =
  or_api_version :: "string option"
  or_kind :: "string option"
  or_name :: "string option"
  or_namespace :: "string option"

record KubeEvent =
  ev_metadata :: ObjectMeta
  ev_involved_object :: ObjectReference
  ev_reason :: "string option"
  ev_message :: "string option"
  ev_type :: "string option"
  ev_source_component :: "string option"

text \<open>\<open>TokenReview\<close>: the token sent, and the status the server fills in.\<close>

record UserInfo =
  user_username :: "string option"

record TokenReviewStatus =
  tr_authenticated :: "bool option"
  tr_user :: "UserInfo option"

datatype kube_call =
    ListCrbs string
  | ReplaceCrbStatus string string CloudRoleBinding
  | GetRcrbOpt string string
  | GetRcrb string string
  | ApplyRcrb string string ResolvedCloudRoleBinding
  | ApplyRcrbStatus string string ResolvedCloudRoleBinding
  | CreateEvent string KubeEvent
  | CreateTokenReview string
  | GetSecretOpt string string
  | ApplySecret string string Secret

text \<open>A run threads a log of what the program has done so far; an operation on the API
  server logs its requests.\<close>

type_synonym ('c, 'a) run = "'c list \<Rightarrow> 'a res \<times> 'c list"

type_synonym call_log = "kube_call list"
type_synonym 'a eff = "(kube_call, 'a) run"

record kube_api =
  api_list_crbs :: "call_log \<Rightarrow> string \<Rightarrow> CloudRoleBinding list res"
  api_replace_crb_status :: "call_log \<Rightarrow> string \<Rightarrow> string \<Rightarrow> CloudRoleBinding \<Rightarrow> unit res"
  api_get_rcrb_opt :: "call_log \<Rightarrow> string \<Rightarrow> string \<Rightarrow> ResolvedCloudRoleBinding option res"
  api_get_rcrb :: "call_log \<Rightarrow> string \<Rightarrow> string \<Rightarrow> ResolvedCloudRoleBinding res"
  api_apply_rcrb :: "call_log \<Rightarrow> string \<Rightarrow> string \<Rightarrow> ResolvedCloudRoleBinding \<Rightarrow> unit res"
  api_apply_rcrb_status :: "call_log \<Rightarrow> string \<Rightarrow> string \<Rightarrow> ResolvedCloudRoleBinding \<Rightarrow> unit res"
  api_create_event :: "call_log \<Rightarrow> string \<Rightarrow> KubeEvent \<Rightarrow> unit res"
  api_token_review :: "call_log \<Rightarrow> string \<Rightarrow> TokenReviewStatus option res"
  api_get_secret_opt :: "call_log \<Rightarrow> string \<Rightarrow> string \<Rightarrow> Secret option res"
  api_apply_secret :: "call_log \<Rightarrow> string \<Rightarrow> string \<Rightarrow> Secret \<Rightarrow> unit res"

section \<open>Sequencing requests\<close>

definition eff_return :: "'a \<Rightarrow> ('c, 'a) run" where
  "eff_return v log = (Inr v, log)"

definition eff_lift :: "'a res \<Rightarrow> ('c, 'a) run" where
  "eff_lift r log = (r, log)"

definition eff_bind :: "('c, 'a) run \<Rightarrow> ('a \<Rightarrow> ('c, 'b) run) \<Rightarrow> ('c, 'b) run" where
  "eff_bind m f log = (case m log of (Inl e, log') \<Rightarrow> (Inl e, log') | (Inr v, log') \<Rightarrow> f v log')"

text \<open>One request: the server's answer, and the request at the end of the log.\<close>

definition request :: "'c \<Rightarrow> ('c list \<Rightarrow> 'a res) \<Rightarrow> ('c, 'a) run" where
  "request c answer log = (answer log, log @ [c])"

lemma eff_simps [simp]:
  "eff_return v log = (Inr v, log)" "eff_lift r log = (r, log)"
  "request c answer log = (answer log, log @ [c])"
  by (simp_all add: eff_return_def eff_lift_def request_def)

lemma eff_bind_Inr: "m log = (Inr v, log') \<Longrightarrow> eff_bind m f log = f v log'"
  and eff_bind_Inl: "m log = (Inl e, log') \<Longrightarrow> eff_bind m f log = (Inl e, log')"
  by (simp_all add: eff_bind_def)

lemma eff_bind_eq_Inr:
  "eff_bind m f log = (Inr w, log'') \<longleftrightarrow>
     (\<exists>v log'. m log = (Inr v, log') \<and> f v log' = (Inr w, log''))"
  by (auto simp: eff_bind_def split: prod.splits sum.splits)

lemma eff_bind_eq_Inl:
  "eff_bind m f log = (Inl e, log'') \<longleftrightarrow>
     m log = (Inl e, log'') \<or> (\<exists>v log'. m log = (Inr v, log') \<and> f v log' = (Inl e, log''))"
  by (auto simp: eff_bind_def split: prod.splits sum.splits)

text \<open>An operation only appends to the log; what it appends is its trace.\<close>

definition extends :: "(kube_call \<Rightarrow> bool) \<Rightarrow> 'a eff \<Rightarrow> bool" where
  "extends P m \<longleftrightarrow> (\<forall>log r log'. m log = (r, log') \<longrightarrow> (\<exists>cs. log' = log @ cs \<and> list_all P cs))"

lemma extends_return [intro, simp]: "extends P (eff_return v)"
  and extends_lift [intro, simp]: "extends P (eff_lift r)"
  by (auto simp: extends_def)

lemma extends_request [intro]: "P c \<Longrightarrow> extends P (request c answer)"
  by (auto simp: extends_def)

lemma extends_bind [intro]:
  assumes "extends P m" "\<And>log v log'. m log = (Inr v, log') \<Longrightarrow> extends P (f v)"
  shows "extends P (eff_bind m f)"
  unfolding extends_def
proof (intro allI impI)
  fix log r log'
  assume run: "eff_bind m f log = (r, log')"
  obtain r1 log1 where m: "m log = (r1, log1)" by (cases "m log")
  with assms(1) obtain cs1 where cs1: "log1 = log @ cs1" "list_all P cs1"
    unfolding extends_def by blast
  show "\<exists>cs. log' = log @ cs \<and> list_all P cs"
  proof (cases r1)
    case (Inl e)
    with run m cs1 show ?thesis by (auto simp: eff_bind_Inl)
  next
    case (Inr v)
    with run m have "f v log1 = (r, log')" by (simp add: eff_bind_Inr)
    with assms(2) m Inr obtain cs2 where "log' = log1 @ cs2" "list_all P cs2"
      unfolding extends_def by blast
    with cs1 show ?thesis by auto
  qed
qed

text \<open>An operation that first reads something off the log, such as the clock.\<close>

lemma extends_read: "(\<And>x. extends P (g x)) \<Longrightarrow> extends P (\<lambda>log. g (h log) log)"
  unfolding extends_def by blast

lemma extends_weaken: "extends P m \<Longrightarrow> (\<And>c. P c \<Longrightarrow> Q c) \<Longrightarrow> extends Q m"
  unfolding extends_def by (metis (no_types, lifting) list_all_iff)

text \<open>A failed operation has failed in its last step: the error is the answer to the last
  request of its trace, or it is a local error.\<close>

definition fails_at_end :: "(error \<Rightarrow> bool) \<Rightarrow> (kube_call \<Rightarrow> call_log \<Rightarrow> error \<Rightarrow> bool) \<Rightarrow> 'a eff \<Rightarrow> bool" where
  "fails_at_end local answered m \<longleftrightarrow>
     (\<forall>log e log'. m log = (Inl e, log') \<longrightarrow>
        local e \<or> (\<exists>before c. log' = before @ [c] \<and> answered c before e))"

lemma fails_at_end_return [intro, simp]: "fails_at_end L A (eff_return v)"
  by (simp add: fails_at_end_def)

lemma fails_at_end_lift: "(\<And>e. r = Inl e \<Longrightarrow> L e) \<Longrightarrow> fails_at_end L A (eff_lift r)"
  by (auto simp: fails_at_end_def)

lemma fails_at_end_request:
  "(\<And>log e. answer log = Inl e \<Longrightarrow> A c log e) \<Longrightarrow> fails_at_end L A (request c answer)"
  by (auto simp: fails_at_end_def)

lemma fails_at_end_bind [intro]:
  "fails_at_end L A m \<Longrightarrow> (\<And>v. fails_at_end L A (f v)) \<Longrightarrow> fails_at_end L A (eff_bind m f)"
  unfolding fails_at_end_def eff_bind_eq_Inl by blast

end
