(* ===== verification/Reconcile.thy ===== *)
theory Reconcile
  imports Kube
begin

text \<open>
  \<open>kif-webhook/src/reconcile.rs\<close>: the reconciliation of one ServiceAccount, and
  \<open>upsert_resolved\<close> of \<open>merge.rs\<close>. The clock is read at points of the request log; the
  serialiser and the digest of \<open>Merge_Status\<close> are passed through.
\<close>

record Key =
  key_namespace :: string
  key_service_account_name :: string

record reconcile_env =
  env_api :: kube_api
  env_clock :: "call_log \<Rightarrow> Time"
  env_to_vec :: "ResolvedCloudRoleBindingSpec \<Rightarrow> string res"
  env_sha256_hex :: "string \<Rightarrow> string"

section \<open>Writing the outcome\<close>

definition upsert_resolved ::
  "kube_api \<Rightarrow> string \<Rightarrow> ResolvedCloudRoleBinding \<Rightarrow> unit eff" where
  "upsert_resolved api ns resolved =
     (let name = unwrap_or (meta_name (rcrb_metadata resolved)) [] in
      if name = [] then eff_lift (Inl ''ResolvedCloudRoleBinding.metadata.name is required'')
      else eff_bind (request (ApplyRcrb ns name resolved)
                       (\<lambda>log. api_apply_rcrb api log ns name resolved)) (\<lambda>_.
           eff_bind (request (ApplyRcrbStatus ns name resolved)
                       (\<lambda>log. api_apply_rcrb_status api log ns name resolved)) (\<lambda>_.
           eff_return ())))"

text \<open>\<open>crb_api.replace_status\<close> with the status built at that moment.\<close>

definition replace_status ::
  "reconcile_env \<Rightarrow> string \<Rightarrow> CloudRoleBinding \<Rightarrow> bool \<Rightarrow> MergeIssue option \<Rightarrow> unit eff" where
  "replace_status env ns crb ready issue log =
     (let updated = crb\<lparr>crb_status := Some (build_crb_status (env_clock env log) crb ready issue)\<rparr>
      in request (ReplaceCrbStatus ns (crb_name crb) updated)
           (\<lambda>log. api_replace_crb_status (env_api env) log ns (crb_name crb) updated) log)"

text \<open>The loop of the success branch.\<close>

fun mark_ready :: "reconcile_env \<Rightarrow> string \<Rightarrow> CloudRoleBinding list \<Rightarrow> unit eff" where
  "mark_ready env ns [] = eff_return ()"
| "mark_ready env ns (crb # crbs) =
     (if crb_name crb = [] then mark_ready env ns crbs
      else eff_bind (replace_status env ns crb True None) (\<lambda>_. mark_ready env ns crbs))"

text \<open>The loop of the failure branch: only the bindings the issue names.\<close>

fun mark_affected ::
  "reconcile_env \<Rightarrow> string \<Rightarrow> MergeIssue \<Rightarrow> CloudRoleBinding list \<Rightarrow> unit eff" where
  "mark_affected env ns issue [] = eff_return ()"
| "mark_affected env ns issue (crb # crbs) =
     (if crb_name crb = [] then mark_affected env ns issue crbs
      else if list_ex (\<lambda>n. n = crb_name crb) (affected_crb_names issue)
      then eff_bind (replace_status env ns crb False (Some issue))
             (\<lambda>_. mark_affected env ns issue crbs)
      else mark_affected env ns issue crbs)"

definition crb_ref :: "CloudRoleBinding \<Rightarrow> CloudRoleBindingRef" where
  "crb_ref crb =
     \<lparr>ref_name = crb_name crb, ref_generation = meta_generation (crb_metadata crb)\<rparr>"

section \<open>The reconciliation\<close>

text \<open>The values \<open>resolved\<close> takes in the two branches of the match.\<close>

definition resolve_merged ::
  "reconcile_env \<Rightarrow> Key \<Rightarrow> CloudRoleBindingRef list \<Rightarrow> ResolvedCloudRoleBindingSpec \<Rightarrow>
     ResolvedCloudRoleBinding eff" where
  "resolve_merged env key refs merged log =
     (build_resolved_from_spec (env_to_vec env) (env_sha256_hex env) (env_clock env log)
        (key_namespace key) (key_service_account_name key) refs merged, log)"

definition resolve_failed ::
  "reconcile_env \<Rightarrow> Key \<Rightarrow> CloudRoleBindingRef list \<Rightarrow> MergeIssue \<Rightarrow>
     ResolvedCloudRoleBinding eff" where
  "resolve_failed env key refs issue log =
     (Inr (build_failed_resolved (env_clock env log) (key_namespace key)
        (key_service_account_name key) refs issue), log)"

definition publish :: "reconcile_env \<Rightarrow> Key \<Rightarrow> CloudRoleBinding list \<Rightarrow> unit eff" where
  "publish env key relevant_crbs =
     (let ns = key_namespace key; refs = map crb_ref relevant_crbs
      in eff_bind
           (case merge_inputs (key_service_account_name key) relevant_crbs of
              Inr merged \<Rightarrow>
                eff_bind (mark_ready env ns relevant_crbs) (\<lambda>_. resolve_merged env key refs merged)
            | Inl issue \<Rightarrow>
                eff_bind (mark_affected env ns issue relevant_crbs)
                  (\<lambda>_. resolve_failed env key refs issue))
           (upsert_resolved (env_api env) ns))"

definition reconcile :: "reconcile_env \<Rightarrow> Key \<Rightarrow> unit eff" where
  "reconcile env key =
     eff_bind (request (ListCrbs (key_namespace key))
                 (\<lambda>log. api_list_crbs (env_api env) log (key_namespace key))) (\<lambda>all.
       publish env key (filter (\<lambda>crb. crb_sa crb = key_service_account_name key) all))"

section \<open>What a reconciliation writes\<close>

text \<open>The resolved binding that reports the merge of \<open>crbs\<close>.\<close>

definition reports ::
  "reconcile_env \<Rightarrow> Key \<Rightarrow> CloudRoleBinding list \<Rightarrow> ResolvedCloudRoleBinding \<Rightarrow> bool" where
  "reports env key crbs r \<longleftrightarrow>
     rcrb_metadata r = rcrb_meta (key_namespace key) (key_service_account_name key) \<and>
     (case merge_inputs (key_service_account_name key) crbs of
        Inr merged \<Rightarrow> is_ready r \<and> rcrb_spec r = merged \<and>
          (\<exists>b. env_to_vec env merged = Inr b \<and> status_hash r = Some (env_sha256_hex env b))
      | Inl _ \<Rightarrow> \<not> is_ready r \<and> status_hash r = None \<and> rcrb_aws r = None)"

text \<open>A binding with a new status, and nothing else changed.\<close>

definition restatused :: "CloudRoleBinding \<Rightarrow> bool \<Rightarrow> CloudRoleBinding \<Rightarrow> bool" where
  "restatused crb ready crb' \<longleftrightarrow>
     (\<exists>st. crb' = crb\<lparr>crb_status := Some st\<rparr> \<and> status_wf st \<and>
       (\<forall>c \<in> set (crb_conditions st). cond_type c = Ready \<longrightarrow>
          cond_status c = (if ready then StatusTrue else StatusFalse)))"

definition own_write ::
  "reconcile_env \<Rightarrow> Key \<Rightarrow> CloudRoleBinding list \<Rightarrow> kube_call \<Rightarrow> bool" where
  "own_write env key crbs call =
     (case call of
        ReplaceCrbStatus ns name crb' \<Rightarrow>
          ns = key_namespace key \<and> name \<noteq> [] \<and>
          (\<exists>crb \<in> set crbs. name = crb_name crb \<and>
             restatused crb (is_ok (merge_inputs (key_service_account_name key) crbs)) crb')
      | ApplyRcrb ns name r \<Rightarrow>
          ns = key_namespace key \<and> name = key_service_account_name key \<and> reports env key crbs r
      | ApplyRcrbStatus ns name r \<Rightarrow>
          ns = key_namespace key \<and> name = key_service_account_name key \<and> reports env key crbs r
      | _ \<Rightarrow> False)"

text \<open>The bindings of the key's ServiceAccount, as the server lists them.\<close>

definition listed :: "reconcile_env \<Rightarrow> Key \<Rightarrow> call_log \<Rightarrow> CloudRoleBinding list" where
  "listed env key log =
     (case api_list_crbs (env_api env) log (key_namespace key) of
        Inl _ \<Rightarrow> []
      | Inr all \<Rightarrow> filter (\<lambda>crb. crb_sa crb = key_service_account_name key) all)"

lemma restatusedI:
  assumes "\<And>i. issue = Some i \<Longrightarrow> issue_message i \<noteq> []"
  shows "restatused crb ready (crb\<lparr>crb_status := Some (build_crb_status now crb ready issue)\<rparr>)"
  unfolding restatused_def using build_crb_status_wf [OF assms] build_crb_status_Ready by blast

lemma reports_ok:
  assumes "merge_inputs (key_service_account_name key) crbs = Inr merged"
    and "build_resolved_from_spec (env_to_vec env) (env_sha256_hex env) now (key_namespace key)
           (key_service_account_name key) refs merged = Inr r"
  shows "reports env key crbs r"
  using resolved_from_spec_Inr [OF assms(2)] assms(1) by (simp add: reports_def)

lemma reports_failed:
  assumes "merge_inputs (key_service_account_name key) crbs = Inl i"
  shows "reports env key crbs
    (build_failed_resolved now (key_namespace key) (key_service_account_name key) refs i)"
  using assms by (simp add: reports_def)

lemma extends_replace_status:
  assumes "\<And>st. P (ReplaceCrbStatus ns (crb_name crb) (crb\<lparr>crb_status := Some (build_crb_status st crb ready issue)\<rparr>))"
  shows "extends P (replace_status env ns crb ready issue)"
  using assms by (auto simp: extends_def replace_status_def Let_def)

lemma extends_mark_ready:
  assumes "\<And>crb st. crb \<in> set crbs \<Longrightarrow> crb_name crb \<noteq> [] \<Longrightarrow>
    P (ReplaceCrbStatus ns (crb_name crb) (crb\<lparr>crb_status := Some (build_crb_status st crb True None)\<rparr>))"
  shows "extends P (mark_ready env ns crbs)"
  using assms by (induction crbs) (auto intro!: extends_bind extends_replace_status)

lemma extends_mark_affected:
  assumes "\<And>crb st. crb \<in> set crbs \<Longrightarrow> crb_name crb \<noteq> [] \<Longrightarrow>
    P (ReplaceCrbStatus ns (crb_name crb)
        (crb\<lparr>crb_status := Some (build_crb_status st crb False (Some issue))\<rparr>))"
  shows "extends P (mark_affected env ns issue crbs)"
  using assms by (induction crbs) (auto intro!: extends_bind extends_replace_status)

lemma extends_upsert_resolved:
  assumes "\<And>name. meta_name (rcrb_metadata r) = Some name \<Longrightarrow> P (ApplyRcrb ns name r) \<and> P (ApplyRcrbStatus ns name r)"
  shows "extends P (upsert_resolved api ns r)"
  using assms
  by (cases "meta_name (rcrb_metadata r)") (auto simp: upsert_resolved_def Let_def intro!: extends_bind)

lemma extends_resolve:
  "extends P (resolve_merged env key refs merged)" "extends P (resolve_failed env key refs issue)"
  by (simp_all add: extends_def resolve_merged_def resolve_failed_def)

text \<open>The first part of \<open>publish\<close> ends in a resolved binding that reports the merge.\<close>

lemma publish_reports:
  assumes "(case merge_inputs (key_service_account_name key) crbs of
      Inr merged \<Rightarrow> eff_bind (mark_ready env ns crbs) (\<lambda>_. resolve_merged env key refs merged)
    | Inl issue \<Rightarrow> eff_bind (mark_affected env ns issue crbs)
        (\<lambda>_. resolve_failed env key refs issue)) log = (Inr r, log')"
  shows "reports env key crbs r"
proof (cases "merge_inputs (key_service_account_name key) crbs")
  case (Inl issue)
  with assms obtain now where
    "r = build_failed_resolved now (key_namespace key) (key_service_account_name key) refs issue"
    by (auto simp: eff_bind_eq_Inr resolve_failed_def)
  with reports_failed [OF Inl] show ?thesis by simp
next
  case (Inr merged)
  with assms obtain now where
    "build_resolved_from_spec (env_to_vec env) (env_sha256_hex env) now (key_namespace key)
       (key_service_account_name key) refs merged = Inr r"
    by (auto simp: eff_bind_eq_Inr resolve_merged_def)
  with reports_ok [OF Inr] show ?thesis by simp
qed

lemma extends_upsert_reports:
  "reports env key crbs r \<Longrightarrow>
     extends (own_write env key crbs) (upsert_resolved (env_api env) (key_namespace key) r)"
  by (rule extends_upsert_resolved) (auto simp: own_write_def reports_def)

lemma extends_publish: "extends (own_write env key crbs) (publish env key crbs)"
proof -
  let ?sa = "key_service_account_name key"
  have "extends (own_write env key crbs) (mark_ready env (key_namespace key) crbs)"
    if "merge_inputs ?sa crbs = Inr merged" for merged
    by (rule extends_mark_ready) (auto simp: own_write_def that intro: restatusedI)
  moreover have "extends (own_write env key crbs) (mark_affected env (key_namespace key) issue crbs)"
    if "merge_inputs ?sa crbs = Inl issue" for issue
    using explained_issue_shape(3) [OF merge_inputs_Inl [OF that]]
    by (intro extends_mark_affected) (auto simp: own_write_def that intro: restatusedI)
  ultimately show ?thesis
    unfolding publish_def Let_def
    by (intro extends_bind extends_upsert_reports)
      (auto split: sum.split intro!: extends_bind extends_resolve intro: publish_reports)
qed

lemma reconcile_unfold:
  "reconcile env key log =
     (case api_list_crbs (env_api env) log (key_namespace key) of
        Inl e \<Rightarrow> (Inl e, log @ [ListCrbs (key_namespace key)])
      | Inr _ \<Rightarrow> publish env key (listed env key log) (log @ [ListCrbs (key_namespace key)]))"
  by (simp add: reconcile_def eff_bind_def listed_def split: sum.split)

lemma reconcile_own_writes:
  "\<exists>cs. snd (reconcile env key log) = log @ ListCrbs (key_namespace key) # cs \<and>
     list_all (own_write env key (listed env key log)) cs"
proof (cases "api_list_crbs (env_api env) log (key_namespace key)")
  case (Inl e)
  then show ?thesis by (simp add: reconcile_unfold)
next
  case (Inr all)
  obtain r log' where run:
    "publish env key (listed env key log) (log @ [ListCrbs (key_namespace key)]) = (r, log')"
    by fastforce
  with extends_publish obtain cs where "log' = (log @ [ListCrbs (key_namespace key)]) @ cs"
    "list_all (own_write env key (listed env key log)) cs"
    unfolding extends_def by blast
  with Inr run show ?thesis by (simp add: reconcile_unfold)
qed

text \<open>
  C24: Whether or not it succeeds, a reconciliation of a key lists the bindings of its
  namespace once and then writes only to that namespace: statuses of bindings that reference
  this ServiceAccount (specs untouched) and the resolved binding named after it.
\<close>

theorem reconcile_confined:
  "\<exists>cs. snd (reconcile env key log) = log @ ListCrbs (key_namespace key) # cs \<and>
     list_all (own_write env key (listed env key log)) cs"
  by (rule reconcile_own_writes)

lemma upsert_resolved_Inr:
  "upsert_resolved api ns r log = (Inr (), log') \<Longrightarrow>
     \<exists>name. meta_name (rcrb_metadata r) = Some name \<and>
       log' = log @ [ApplyRcrb ns name r, ApplyRcrbStatus ns name r]"
  by (cases "meta_name (rcrb_metadata r)")
    (auto simp: upsert_resolved_def Let_def eff_bind_eq_Inr split: if_splits)

text \<open>
  C22: A reconciliation that returns successfully ends by applying, to the resource and to
  its status, one resolved binding named after the ServiceAccount that reports the merge of
  the listed bindings: ready with the merged spec and the hash of its serialisation, or not
  ready without hash and provider.
\<close>

theorem reconcile_publishes:
  assumes "fst (reconcile env key log) = Inr ()"
  shows "\<exists>before r. reports env key (listed env key log) r \<and>
     snd (reconcile env key log) = before @
       [ApplyRcrb (key_namespace key) (key_service_account_name key) r,
        ApplyRcrbStatus (key_namespace key) (key_service_account_name key) r]"
proof -
  obtain log' where "reconcile env key log = (Inr (), log')"
    using assms by (metis prod.collapse)
  then have "publish env key (listed env key log) (log @ [ListCrbs (key_namespace key)]) = (Inr (), log')"
    by (auto simp: reconcile_unfold split: sum.splits)
  then obtain r log1 where r: "reports env key (listed env key log) r"
    and up: "upsert_resolved (env_api env) (key_namespace key) r log1 = (Inr (), log')"
    unfolding publish_def Let_def eff_bind_eq_Inr [where m = "case_sum _ _ _"]
    using publish_reports by blast
  from upsert_resolved_Inr [OF up] r have
    "log' = log1 @ [ApplyRcrb (key_namespace key) (key_service_account_name key) r,
       ApplyRcrbStatus (key_namespace key) (key_service_account_name key) r]"
    by (auto simp: reports_def)
  with r \<open>reconcile env key log = (Inr (), log')\<close> show ?thesis by auto
qed

section \<open>Failure and success of a reconciliation\<close>

text \<open>The error a request of a reconciliation was answered with.\<close>

definition answered :: "kube_api \<Rightarrow> kube_call \<Rightarrow> call_log \<Rightarrow> error \<Rightarrow> bool" where
  "answered api c log e =
     (case c of
        ListCrbs ns \<Rightarrow> api_list_crbs api log ns = Inl e
      | ReplaceCrbStatus ns n crb \<Rightarrow> api_replace_crb_status api log ns n crb = Inl e
      | ApplyRcrb ns n r \<Rightarrow> api_apply_rcrb api log ns n r = Inl e
      | ApplyRcrbStatus ns n r \<Rightarrow> api_apply_rcrb_status api log ns n r = Inl e
      | GetSecretOpt ns n \<Rightarrow> api_get_secret_opt api log ns n = Inl e
      | ApplySecret ns n s \<Rightarrow> api_apply_secret api log ns n s = Inl e
      | _ \<Rightarrow> False)"

text \<open>The two errors a reconciliation makes itself.\<close>

definition local_error :: "reconcile_env \<Rightarrow> error \<Rightarrow> bool" where
  "local_error env e \<longleftrightarrow>
     e = ''ResolvedCloudRoleBinding.metadata.name is required'' \<or> (\<exists>s. env_to_vec env s = Inl e)"

lemma fails_replace_status:
  "fails_at_end L (answered (env_api env)) (replace_status env ns crb ready issue)"
  by (auto simp: fails_at_end_def replace_status_def Let_def answered_def)

lemma fails_marks:
  "fails_at_end L (answered (env_api env)) (mark_ready env ns crbs)"
  "fails_at_end L (answered (env_api env)) (mark_affected env ns issue crbs)"
  by (induction crbs) (auto intro: fails_replace_status)

lemma fails_resolve:
  "fails_at_end (local_error env) A (resolve_merged env key refs merged)"
  "fails_at_end L A (resolve_failed env key refs issue)"
  by (auto simp: fails_at_end_def resolve_merged_def resolve_failed_def local_error_def
      build_resolved_from_spec_def res_bind_eq_Inl)

lemma fails_upsert:
  "fails_at_end (local_error env) (answered (env_api env)) (upsert_resolved (env_api env) ns r)"
  unfolding upsert_resolved_def Let_def
  by (auto intro!: fails_at_end_bind fails_at_end_lift fails_at_end_request
      simp: local_error_def answered_def)

lemma fails_reconcile:
  "fails_at_end (local_error env) (answered (env_api env)) (reconcile env key)"
  unfolding reconcile_def publish_def Let_def
  by (intro fails_at_end_bind fails_upsert fails_at_end_request)
    (auto simp: answered_def split: sum.split intro: fails_marks fails_resolve)

lemma reconcile_stops_at_error:
  assumes "fst (reconcile env key log) = Inl e"
  shows "local_error env e \<or>
     (\<exists>before c. snd (reconcile env key log) = before @ [c] \<and> answered (env_api env) c before e)"
  using assms fails_reconcile [of env key]
  unfolding fails_at_end_def by (metis prod.collapse)

text \<open>A server that accepts every request a reconciliation makes.\<close>

definition accepting :: "kube_api \<Rightarrow> bool" where
  "accepting api \<longleftrightarrow>
     (\<forall>log ns. is_ok (api_list_crbs api log ns)) \<and>
     (\<forall>log ns n c. is_ok (api_replace_crb_status api log ns n c)) \<and>
     (\<forall>log ns n r. is_ok (api_apply_rcrb api log ns n r)) \<and>
     (\<forall>log ns n r. is_ok (api_apply_rcrb_status api log ns n r))"

definition marked :: "string \<Rightarrow> CloudRoleBinding list \<Rightarrow> CloudRoleBinding list" where
  "marked sa crbs =
     filter (\<lambda>crb. crb_name crb \<noteq> [] \<and>
       (case merge_inputs sa crbs of
          Inr _ \<Rightarrow> True
        | Inl issue \<Rightarrow> crb_name crb \<in> set (affected_crb_names issue))) crbs"

lemma is_ok_unit: "is_ok (r :: unit res) \<longleftrightarrow> r = Inr ()"
  by (cases r) simp_all

lemma is_okE: "is_ok r \<Longrightarrow> (\<And>v. r = Inr v \<Longrightarrow> thesis) \<Longrightarrow> thesis"
  by (cases r) simp_all

lemma accepting_replace:
  "accepting (env_api env) \<Longrightarrow>
     \<exists>c. replace_status env ns crb ready issue log = (Inr (), log @ [c])"
  by (simp add: replace_status_def Let_def accepting_def is_ok_unit)

lemma mark_ready_succeeds:
  "accepting (env_api env) \<Longrightarrow>
     \<exists>cs. mark_ready env ns crbs log = (Inr (), log @ cs) \<and>
       length cs = length (filter (\<lambda>crb. crb_name crb \<noteq> []) crbs)"
proof (induction crbs arbitrary: log)
  case (Cons crb crbs)
  obtain c where c: "replace_status env ns crb True None log = (Inr (), log @ [c])"
    using accepting_replace [OF Cons.prems] by blast
  obtain cs where "mark_ready env ns crbs (log @ [c]) = (Inr (), (log @ [c]) @ cs)"
    "length cs = length (filter (\<lambda>crb. crb_name crb \<noteq> []) crbs)"
    using Cons.IH [OF Cons.prems] by blast
  then show ?case using c Cons.IH [OF Cons.prems, of log] by (simp add: eff_bind_def)
qed simp

lemma mark_affected_succeeds:
  "accepting (env_api env) \<Longrightarrow>
     \<exists>cs. mark_affected env ns issue crbs log = (Inr (), log @ cs) \<and>
       length cs = length (filter (\<lambda>crb. crb_name crb \<noteq> [] \<and>
         crb_name crb \<in> set (affected_crb_names issue)) crbs)"
proof (induction crbs arbitrary: log)
  case (Cons crb crbs)
  obtain c where c: "replace_status env ns crb False (Some issue) log = (Inr (), log @ [c])"
    using accepting_replace [OF Cons.prems] by blast
  obtain cs where "mark_affected env ns issue crbs (log @ [c]) = (Inr (), (log @ [c]) @ cs)"
    "length cs = length (filter (\<lambda>crb. crb_name crb \<noteq> [] \<and>
       crb_name crb \<in> set (affected_crb_names issue)) crbs)"
    using Cons.IH [OF Cons.prems] by blast
  then show ?case using c Cons.IH [OF Cons.prems, of log]
    by (auto simp: eff_bind_def list_ex_iff)
qed simp

lemma upsert_succeeds:
  "accepting api \<Longrightarrow> meta_name (rcrb_metadata r) = Some n \<Longrightarrow> n \<noteq> [] \<Longrightarrow>
     upsert_resolved api ns r log = (Inr (), log @ [ApplyRcrb ns n r, ApplyRcrbStatus ns n r])"
  by (simp add: upsert_resolved_def eff_bind_def accepting_def is_ok_unit)

lemma publish_succeeds:
  assumes "accepting (env_api env)" "\<And>spec. is_ok (env_to_vec env spec)"
    and "key_service_account_name key \<noteq> []"
  shows "\<exists>cs. publish env key crbs log = (Inr (), log @ cs) \<and>
     length cs = length (marked (key_service_account_name key) crbs) + 2"
proof (cases "merge_inputs (key_service_account_name key) crbs")
  case (Inl issue)
  obtain cs where "mark_affected env (key_namespace key) issue crbs log = (Inr (), log @ cs)"
    "length cs = length (marked (key_service_account_name key) crbs)"
    using mark_affected_succeeds [OF assms(1)] by (force simp: marked_def Inl)
  then show ?thesis
    using upsert_succeeds [OF assms(1) _ assms(3)]
    by (simp add: publish_def Let_def Inl eff_bind_def resolve_failed_def)
next
  case (Inr merged)
  obtain cs where cs: "mark_ready env (key_namespace key) crbs log = (Inr (), log @ cs)"
    "length cs = length (marked (key_service_account_name key) crbs)"
    using mark_ready_succeeds [OF assms(1)] by (force simp: marked_def Inr)
  obtain b where "env_to_vec env merged = Inr b" using assms(2) by (rule is_okE)
  then obtain r where r: "resolve_merged env key (map crb_ref crbs) merged (log @ cs) = (Inr r, log @ cs)"
    "meta_name (rcrb_metadata r) = Some (key_service_account_name key)"
    by (simp add: resolve_merged_def build_resolved_from_spec_def)
  with cs show ?thesis
    using upsert_succeeds [OF assms(1) r(2) assms(3)]
    by (simp add: publish_def Let_def Inr eff_bind_def)
qed

lemma reconcile_succeeds:
  assumes "accepting (env_api env)" "\<And>spec. is_ok (env_to_vec env spec)"
    and "key_service_account_name key \<noteq> []"
  shows "fst (reconcile env key log) = Inr () \<and>
     length (snd (reconcile env key log)) =
       length log + 3 + length (marked (key_service_account_name key) (listed env key log))"
proof -
  obtain all where "api_list_crbs (env_api env) log (key_namespace key) = Inr all"
    using assms(1) unfolding accepting_def by (metis is_okE)
  with publish_succeeds [OF assms, of "listed env key log" "log @ [ListCrbs (key_namespace key)]"]
  show ?thesis by (auto simp: reconcile_unfold)
qed

end
