(* ===== verification/Reconcile_Plan.thy ===== *)
theory Reconcile_Plan
  imports Reconcile "HOL-Library.Sublist"
begin

text \<open>
  What a reconciliation has to write, as a list that is fixed once the bindings are listed: which
  bindings get which status, and which resolution is published. \<open>reconcile\<close> makes the requests of
  this \<open>plan\<close> in their order, and a server that refuses one cuts it off there. The workers of
  the control loop (theory Control_Loop) are such plans, served write by write and given up
  at any point.
\<close>

section \<open>Runs cut off by an error\<close>

definition follows :: "'a eff \<Rightarrow> 'a eff \<Rightarrow> bool" where
  "follows m m' \<longleftrightarrow>
     (\<forall>log. m log = m' log \<or> (\<exists>e cut. m log = (Inl e, cut) \<and> prefix cut (snd (m' log))))"

lemma followsE:
  assumes "follows m m'"
  obtains "m log = m' log" | e cut where "m log = (Inl e, cut)" "prefix cut (snd (m' log))"
  using assms unfolding follows_def by blast

lemma follows_refl [intro, simp]: "follows m m"
  by (simp add: follows_def)

lemma follows_request: "(\<And>log. is_ok (answer' log)) \<Longrightarrow> (\<And>log v. answer log = Inr v \<Longrightarrow> answer' log = Inr v) \<Longrightarrow>
    follows (request c answer) (request c answer')"
  unfolding follows_def by (metis eff_simps(3) old.sum.exhaust prefix_order.refl snd_conv)

lemma follows_bind [intro]:
  assumes "follows m m'" "\<And>v. follows (f v) (f' v)" "\<And>v. extends (\<lambda>_. True) (f' v)"
  shows "follows (eff_bind m f) (eff_bind m' f')"
  unfolding follows_def
proof
  fix log
  have longer: "prefix log1 (snd (f' v log1))" for v log1
    using assms(3) [of v] unfolding extends_def prefix_def by (metis prod.collapse)
  show "eff_bind m f log = eff_bind m' f' log \<or>
      (\<exists>e cut. eff_bind m f log = (Inl e, cut) \<and> prefix cut (snd (eff_bind m' f' log)))"
  proof (cases rule: followsE [OF assms(1), of log])
    case 1
    obtain r log1 where m: "m log = (r, log1)" by fastforce
    show ?thesis
    proof (cases r)
      case (Inl e)
      with m 1 show ?thesis by (simp add: eff_bind_def)
    next
      case (Inr v)
      with m 1 followsE [OF assms(2) [of v], of log1] show ?thesis
        by (simp add: eff_bind_def) metis
    qed
  next
    case (2 e cut)
    obtain r log1 where m': "m' log = (r, log1)" by fastforce
    have "prefix log1 (snd (eff_bind m' f' log))"
      using longer by (cases r) (simp_all add: eff_bind_def m')
    with 2 m' show ?thesis by (auto simp: eff_bind_def intro: prefix_order.trans)
  qed
qed

section \<open>The plan\<close>

text \<open>The statuses that are written for these bindings, one after the other; the clock is
  read before each of them.\<close>

fun status_writes ::
  "reconcile_env \<Rightarrow> string \<Rightarrow> bool \<Rightarrow> MergeIssue option \<Rightarrow> CloudRoleBinding list \<Rightarrow> call_log \<Rightarrow> kube_call list" where
  "status_writes env ns ready issue [] log = []"
| "status_writes env ns ready issue (crb # crbs) log =
     (let c = ReplaceCrbStatus ns (crb_name crb)
                (crb\<lparr>crb_status := Some (build_crb_status (env_clock env log) crb ready issue)\<rparr>)
      in c # status_writes env ns ready issue crbs (log @ [c]))"

text \<open>The two requests that publish a resolution, if it can be named.\<close>

definition apply_both :: "Key \<Rightarrow> ResolvedCloudRoleBinding \<Rightarrow> kube_call list" where
  "apply_both key r =
     (if key_service_account_name key = [] then []
      else [ApplyRcrb (key_namespace key) (key_service_account_name key) r,
            ApplyRcrbStatus (key_namespace key) (key_service_account_name key) r])"

text \<open>What a reconciliation has to write once it has listed the bindings \<open>all\<close>: when those of
  the ServiceAccount merge, every one that has a name becomes ready, and the merged spec is
  published; when they do not, just the ones the issue names become not ready, and the
  failure is published.\<close>

definition plan :: "reconcile_env \<Rightarrow> Key \<Rightarrow> CloudRoleBinding list \<Rightarrow> kube_call list" where
  "plan env key all =
     (let ns = key_namespace key; sa = key_service_account_name key;
          crbs = filter (\<lambda>crb. crb_sa crb = sa) all;
          refs = map (\<lambda>crb. \<lparr>ref_name = crb_name crb, ref_generation = meta_generation (crb_metadata crb)\<rparr>) crbs;
          log = [ListCrbs ns]
      in case merge_inputs sa crbs of
           Inr merged \<Rightarrow>
             let marks = status_writes env ns True None (filter (\<lambda>crb. crb_name crb \<noteq> []) crbs) log
             in marks @
                (case build_resolved_from_spec (env_to_vec env) (env_sha256_hex env)
                        (env_clock env (log @ marks)) ns sa refs merged of
                   Inl _ \<Rightarrow> []
                 | Inr r \<Rightarrow> apply_both key r)
         | Inl issue \<Rightarrow>
             let marks = status_writes env ns False (Some issue)
                   (filter (\<lambda>crb. crb_name crb \<noteq> [] \<and> crb_name crb \<in> set (affected_crb_names issue)) crbs) log
             in marks @ apply_both key (build_failed_resolved (env_clock env (log @ marks)) ns sa refs issue))"

text \<open>A server that lists these bindings and grants every write.\<close>

definition granting :: "kube_api \<Rightarrow> CloudRoleBinding list \<Rightarrow> kube_api" where
  "granting api all =
     api\<lparr>api_list_crbs := \<lambda>_ _. Inr all, api_replace_crb_status := \<lambda>_ _ _ _. Inr (),
         api_apply_rcrb := \<lambda>_ _ _ _. Inr (), api_apply_rcrb_status := \<lambda>_ _ _ _. Inr ()\<rparr>"

definition granted :: "reconcile_env \<Rightarrow> CloudRoleBinding list \<Rightarrow> reconcile_env" where
  "granted env all = env\<lparr>env_api := granting (env_api env) all\<rparr>"

lemma granted_simps [simp]:
  "env_to_vec (granted env all) = env_to_vec env"
  "env_sha256_hex (granted env all) = env_sha256_hex env"
  "env_clock (granted env all) = env_clock env"
  "api_list_crbs (env_api (granted env all)) log ns = Inr all"
  "api_replace_crb_status (env_api (granted env all)) log ns n crb = Inr ()"
  "api_apply_rcrb (env_api (granted env all)) log ns n r = Inr ()"
  "api_apply_rcrb_status (env_api (granted env all)) log ns n r = Inr ()"
  by (simp_all add: granted_def granting_def)

lemma accepting_granted: "accepting (env_api (granted env all))"
  by (simp add: accepting_def)

lemma reports_granted [simp]: "reports (granted env all) key crbs r = reports env key crbs r"
  by (simp add: reports_def split: sum.split)

lemma listed_granted [simp]:
  "listed (granted env all) key log = filter (\<lambda>crb. crb_sa crb = key_service_account_name key) all"
  by (simp add: listed_def)

lemma extends_any:
  "extends (\<lambda>_. True) (replace_status env ns crb ready i)"
  "extends (\<lambda>_. True) (mark_ready env ns crbs)"
  "extends (\<lambda>_. True) (mark_affected env ns issue crbs)"
  "extends (\<lambda>_. True) (upsert_resolved api ns r)"
  by (simp_all add: extends_replace_status extends_mark_ready extends_mark_affected extends_upsert_resolved)

lemma extends_publish_any: "extends (\<lambda>_. True) (publish env key crbs)"
  by (rule extends_weaken [OF extends_publish]) simp

lemma replace_status_log:
  "snd (replace_status (granted env all) ns crb ready i log) = snd (replace_status env ns crb ready i log)"
  "fst (replace_status (granted env all) ns crb ready i log) = Inr ()"
  by (simp_all add: replace_status_def Let_def)

lemma follows_replace_status:
  "follows (replace_status env ns crb ready i) (replace_status (granted env all) ns crb ready i)"
  unfolding follows_def
proof
  fix log
  let ?m = "replace_status env ns crb ready i log"
  show "?m = replace_status (granted env all) ns crb ready i log \<or>
      (\<exists>e cut. ?m = (Inl e, cut) \<and> prefix cut (snd (replace_status (granted env all) ns crb ready i log)))"
  proof (cases "fst ?m")
    case (Inl e)
    then have "?m = (Inl e, snd ?m)" by (simp add: prod_eq_iff)
    moreover have "prefix (snd ?m) (snd (replace_status (granted env all) ns crb ready i log))"
      by (simp add: replace_status_log(1))
    ultimately show ?thesis by blast
  next
    case (Inr u)
    then have "?m = replace_status (granted env all) ns crb ready i log"
      by (simp add: prod_eq_iff replace_status_log)
    then show ?thesis ..
  qed
qed

lemma follows_marks:
  "follows (mark_ready env ns crbs) (mark_ready (granted env all) ns crbs)"
  "follows (mark_affected env ns issue crbs) (mark_affected (granted env all) ns issue crbs)"
  by (induction crbs) (auto intro: follows_replace_status extends_any)

lemma follows_resolve:
  "follows (resolve_merged env key refs merged) (resolve_merged (granted env all) key refs merged)"
  "follows (resolve_failed env key refs issue) (resolve_failed (granted env all) key refs issue)"
  by (simp_all add: follows_def resolve_merged_def resolve_failed_def)

lemma follows_upsert:
  "follows (upsert_resolved (env_api env) ns r) (upsert_resolved (env_api (granted env all)) ns r)"
  unfolding upsert_resolved_def Let_def
  by (auto intro!: follows_bind follows_request extends_bind)

lemma follows_publish: "follows (publish env key crbs) (publish (granted env all) key crbs)"
  unfolding publish_def Let_def
  by (intro follows_bind follows_upsert extends_any)
    (auto split: sum.split intro!: follows_marks follows_resolve extends_resolve)

text \<open>On such a server the code writes just the plan.\<close>

lemma mark_ready_granted:
  "mark_ready (granted env all) ns crbs log =
     (Inr (), log @ status_writes env ns True None (filter (\<lambda>crb. crb_name crb \<noteq> []) crbs) log)"
  by (induction crbs arbitrary: log) (simp_all add: eff_bind_def replace_status_def Let_def)

lemma mark_affected_granted:
  "mark_affected (granted env all) ns issue crbs log =
     (Inr (), log @ status_writes env ns False (Some issue)
        (filter (\<lambda>crb. crb_name crb \<noteq> [] \<and> crb_name crb \<in> set (affected_crb_names issue)) crbs) log)"
  by (induction crbs arbitrary: log)
    (auto simp: eff_bind_def replace_status_def Let_def list_ex_iff)

lemma upsert_granted:
  "rcrb_metadata r = rcrb_meta (key_namespace key) (key_service_account_name key) \<Longrightarrow>
     snd (upsert_resolved (env_api (granted env all)) (key_namespace key) r log) = log @ apply_both key r"
  by (simp add: upsert_resolved_def apply_both_def eff_bind_def Let_def)

lemma plan_Cons: "snd (reconcile (granted env all) key []) = ListCrbs (key_namespace key) # plan env key all"
proof -
  let ?crbs = "filter (\<lambda>crb. crb_sa crb = key_service_account_name key) all"
  have refs: "map crb_ref crbs = map (\<lambda>crb. \<lparr>ref_name = crb_name crb,
      ref_generation = meta_generation (crb_metadata crb)\<rparr>) crbs" for crbs
    by (simp add: crb_ref_def)
  show ?thesis
  proof (cases "merge_inputs (key_service_account_name key) ?crbs")
    case (Inl issue)
    then show ?thesis
      by (simp add: reconcile_unfold publish_def Let_def eff_bind_def mark_affected_granted
          resolve_failed_def upsert_granted plan_def refs)
  next
    case (Inr merged)
    then show ?thesis
      by (simp add: reconcile_unfold publish_def Let_def eff_bind_def mark_ready_granted
          resolve_merged_def plan_def refs split: sum.split)
        (simp add: upsert_granted resolved_from_spec_Inr)
  qed
qed

lemma plan_tl: "plan env key all = tl (snd (reconcile (granted env all) key []))"
  by (simp add: plan_Cons)

text \<open>
  C23: Once the bindings are listed, what a reconciliation has to write is a fixed list:
  when those of the ServiceAccount merge, a ready status for each that has a name and then
  the merged resolution and its status; when they do not, a failure status for just those
  the issue names and then the failed resolution. Whatever the server answers, the code
  makes the requests of this list in their order: all of them if it returns successfully, an
  initial part of them otherwise.
\<close>

theorem reconcile_follows_plan:
  assumes "api_list_crbs (env_api env) [] (key_namespace key) = Inr all"
  shows "prefix (snd (reconcile env key [])) (ListCrbs (key_namespace key) # plan env key all) \<and>
     (fst (reconcile env key []) = Inr () \<longrightarrow>
        snd (reconcile env key []) = ListCrbs (key_namespace key) # plan env key all)"
proof -
  let ?crbs = "filter (\<lambda>crb. crb_sa crb = key_service_account_name key) all"
  let ?log = "[ListCrbs (key_namespace key)]"
  have run: "reconcile env key [] = publish env key ?crbs ?log"
    using assms by (simp add: reconcile_unfold listed_def)
  have full: "snd (publish (granted env all) key ?crbs ?log) = ListCrbs (key_namespace key) # plan env key all"
    unfolding plan_Cons [symmetric] by (simp add: reconcile_unfold)
  show ?thesis
    by (cases rule: followsE [OF follows_publish, of env key ?crbs ?log all])
      (use run full in auto)
qed

section \<open>What a plan writes\<close>

definition marks_one :: "Key \<Rightarrow> CloudRoleBinding list \<Rightarrow> kube_call \<Rightarrow> bool" where
  "marks_one key crbs c \<longleftrightarrow>
     (\<exists>crb \<in> set crbs. \<exists>st. c = ReplaceCrbStatus (key_namespace key) (crb_name crb) (crb\<lparr>crb_status := Some st\<rparr>))"

lemma extends_marks_one:
  "extends (marks_one key crbs) (mark_ready env (key_namespace key) crbs)"
  "extends (marks_one key crbs) (mark_affected env (key_namespace key) issue crbs)"
  by (rule extends_mark_ready extends_mark_affected; unfold marks_one_def; blast)+

lemma publish_shape:
  assumes "publish env key crbs log = (Inr (), log')"
  shows "\<exists>ms r. log' = log @ ms @ [ApplyRcrb (key_namespace key) (key_service_account_name key) r,
         ApplyRcrbStatus (key_namespace key) (key_service_account_name key) r] \<and>
     list_all (marks_one key crbs) ms \<and> reports env key crbs r"
proof -
  obtain r log1 where first: "(case merge_inputs (key_service_account_name key) crbs of
      Inr merged \<Rightarrow> eff_bind (mark_ready env (key_namespace key) crbs)
        (\<lambda>_. resolve_merged env key (map crb_ref crbs) merged)
    | Inl issue \<Rightarrow> eff_bind (mark_affected env (key_namespace key) issue crbs)
        (\<lambda>_. resolve_failed env key (map crb_ref crbs) issue)) log = (Inr r, log1)"
    and up: "upsert_resolved (env_api env) (key_namespace key) r log1 = (Inr (), log')"
    using assms unfolding publish_def Let_def eff_bind_eq_Inr [where m = "case_sum _ _ _"] by blast
  from first have r: "reports env key crbs r" by (rule publish_reports)
  have "extends (marks_one key crbs) (case merge_inputs (key_service_account_name key) crbs of
      Inr merged \<Rightarrow> eff_bind (mark_ready env (key_namespace key) crbs)
        (\<lambda>_. resolve_merged env key (map crb_ref crbs) merged)
    | Inl issue \<Rightarrow> eff_bind (mark_affected env (key_namespace key) issue crbs)
        (\<lambda>_. resolve_failed env key (map crb_ref crbs) issue))"
    by (auto split: sum.split intro!: extends_bind extends_marks_one extends_resolve)
  with first obtain ms where "log1 = log @ ms" "list_all (marks_one key crbs) ms"
    unfolding extends_def by blast
  moreover from r upsert_resolved_Inr [OF up] have
    "log' = log1 @ [ApplyRcrb (key_namespace key) (key_service_account_name key) r,
       ApplyRcrbStatus (key_namespace key) (key_service_account_name key) r]"
    by (auto simp: reports_def)
  ultimately show ?thesis using r by auto
qed

lemma own_write_granted [simp]: "own_write (granted env all) key crbs c = own_write env key crbs c"
  by (cases c) (simp_all add: own_write_def)

lemma plan_own: "list_all (own_write env key (filter (\<lambda>crb. crb_sa crb = key_service_account_name key) all)) (plan env key all)"
  using reconcile_own_writes [of "granted env all" key "[]"] by (auto simp: plan_tl list_all_iff)

lemma plan_shape:
  assumes "\<And>spec. is_ok (env_to_vec env spec)" "key_service_account_name key \<noteq> []"
  shows "\<exists>ms r. plan env key all = ms @ [ApplyRcrb (key_namespace key) (key_service_account_name key) r,
         ApplyRcrbStatus (key_namespace key) (key_service_account_name key) r] \<and>
     list_all (marks_one key (filter (\<lambda>crb. crb_sa crb = key_service_account_name key) all)) ms \<and>
     reports env key (filter (\<lambda>crb. crb_sa crb = key_service_account_name key) all) r"
proof -
  let ?crbs = "filter (\<lambda>crb. crb_sa crb = key_service_account_name key) all"
  let ?log = "[ListCrbs (key_namespace key)]"
  have run: "reconcile (granted env all) key [] = publish (granted env all) key ?crbs ?log"
    by (simp add: reconcile_unfold)
  obtain cs where "publish (granted env all) key ?crbs ?log = (Inr (), ?log @ cs)"
    using publish_succeeds [OF accepting_granted _ assms(2), of env all ?crbs ?log] assms(1) by auto
  from publish_shape [OF this] plan_Cons [of env all key] run \<open>_ = (Inr (), ?log @ cs)\<close>
  show ?thesis by auto
qed

end
