(* ===== verification/Controller.thy ===== *)
theory Controller
  imports Reconcile_Plan
begin

text \<open>
  The watcher of \<open>kif-webhook/src/reconcile.rs\<close> (\<open>watch_cloud_role_bindings\<close>), which turns
  watch events into keys, and what the control loop relies on of the API server.
\<close>

section \<open>The watcher\<close>

text \<open>\<open>kube_runtime::watcher::Event\<close>.\<close>

datatype watch_event =
    EvInit
  | EvInitApply CloudRoleBinding
  | EvInitDone
  | EvApply CloudRoleBinding
  | EvDelete CloudRoleBinding

definition crb_key :: "CloudRoleBinding \<Rightarrow> Key option" where
  "crb_key crb =
     (case meta_namespace (crb_metadata crb) of
        None \<Rightarrow> None
      | Some namespace \<Rightarrow>
          Some \<lparr>key_namespace = namespace, key_service_account_name = crb_sa crb\<rparr>)"

definition event_key :: "watch_event \<Rightarrow> Key option" where
  "event_key ev =
     (case ev of
        EvApply crb \<Rightarrow> crb_key crb
      | EvDelete crb \<Rightarrow> crb_key crb
      | EvInitApply crb \<Rightarrow> crb_key crb
      | EvInit \<Rightarrow> None
      | EvInitDone \<Rightarrow> None)"

text \<open>The watcher's loop over the items of the stream: the result it returns, the readiness
  flag, and the keys it has handed to \<open>enqueue\<close>, in order.\<close>

fun watch_loop ::
  "watch_event res list \<Rightarrow> bool \<Rightarrow> Key list \<Rightarrow> unit res \<times> bool \<times> Key list" where
  "watch_loop [] ready keys = (Inr (), ready, keys)"
| "watch_loop (Inl e # evs) ready keys = (Inl e, ready, keys)"
| "watch_loop (Inr ev # evs) ready keys =
     watch_loop evs (ready \<or> ev = EvInitDone)
       (case event_key ev of None \<Rightarrow> keys | Some k \<Rightarrow> keys @ [k])"

definition until_error :: "watch_event res list \<Rightarrow> watch_event list" where
  "until_error evs = List.map_filter res_ok (takeWhile is_ok evs)"

lemma until_error_simps [simp]:
  "until_error [] = []" "until_error (Inl e # evs) = []"
  "until_error (Inr ev # evs) = ev # until_error evs"
  by (simp_all add: until_error_def map_filter_simps)

lemma watch_loop_keys:
  "watch_loop evs ready keys =
     (if list_all is_ok evs then Inr () else Inl (hd [e. Inl e \<leftarrow> evs]),
      ready \<or> EvInitDone \<in> set (until_error evs),
      keys @ List.map_filter event_key (until_error evs))"
  by (induction evs ready keys rule: watch_loop.induct)
    (auto simp: map_filter_simps split: option.splits)

lemma retargeted_binding_keeps_old_resolution:
  assumes "event_key (EvApply crb) = Some key" "crb_sa crb \<noteq> old_sa"
  shows "\<exists>cs. snd (reconcile env key log) = log @ cs \<and>
     (\<forall>ns r. ApplyRcrb ns old_sa r \<notin> set cs \<and> ApplyRcrbStatus ns old_sa r \<notin> set cs)"
proof -
  have sa: "key_service_account_name key \<noteq> old_sa"
    using assms by (auto simp: event_key_def crb_key_def split: option.splits)
  obtain cs where cs: "snd (reconcile env key log) = log @ ListCrbs (key_namespace key) # cs"
    "list_all (own_write env key (listed env key log)) cs"
    using reconcile_own_writes by blast
  have "own_write env key crbs c \<Longrightarrow> c \<noteq> ApplyRcrb ns old_sa r \<and> c \<noteq> ApplyRcrbStatus ns old_sa r"
    for c crbs ns r
    using sa by (auto simp: own_write_def)
  with cs show ?thesis by (fastforce simp: list_all_iff)
qed

section \<open>The API server\<close>

text \<open>
  The server is a parameter over a type of its states: the bindings it lists in a
  namespace, the resolved binding it holds for a key, and the effect of a write, with the watch
  events it sends (\<open>None\<close> when it refuses the write). \<open>server_laws\<close> is what its API documents:
  a list is confined to the namespace, a status write changes nothing but the status and is
  accepted only for the version of the object it carries, an apply to an object leaves the
  status alone and an apply to its status the object.
\<close>

record 's server =
  sv_list :: "'s \<Rightarrow> string \<Rightarrow> CloudRoleBinding list"
  sv_rcrb :: "'s \<Rightarrow> Key \<Rightarrow> ResolvedCloudRoleBinding option"
  sv_write :: "kube_call \<Rightarrow> 's \<Rightarrow> ('s \<times> watch_event list) option"

text \<open>One object before and after a status write.\<close>

definition same_object :: "CloudRoleBinding \<Rightarrow> CloudRoleBinding \<Rightarrow> bool" where
  "same_object c d \<longleftrightarrow>
     meta_name (crb_metadata c) = meta_name (crb_metadata d) \<and>
     meta_namespace (crb_metadata c) = meta_namespace (crb_metadata d) \<and>
     meta_generation (crb_metadata c) = meta_generation (crb_metadata d) \<and> crb_spec c = crb_spec d"

definition same_bindings :: "'s server \<Rightarrow> 's \<Rightarrow> 's \<Rightarrow> bool" where
  "same_bindings sv st st' \<longleftrightarrow> (\<forall>ns. list_all2 same_object (sv_list sv st ns) (sv_list sv st' ns))"

definition server_laws :: "'s server \<Rightarrow> bool" where
  "server_laws sv \<longleftrightarrow>
     (\<forall>st ns c. c \<in> set (sv_list sv st ns) \<longrightarrow> meta_namespace (crb_metadata c) = Some ns) \<and>
     (\<forall>st st' evs ns n c. sv_write sv (ReplaceCrbStatus ns n c) st = Some (st', evs) \<longrightarrow>
        same_bindings sv st st' \<and> sv_rcrb sv st' = sv_rcrb sv st \<and>
        (\<forall>ev \<in> set evs. \<exists>d. ev = EvApply d \<and> same_object c d)) \<and>
     (\<forall>st st' evs ns n r. sv_write sv (ApplyRcrb ns n r) st = Some (st', evs) \<longrightarrow>
        same_bindings sv st st' \<and> evs = [] \<and>
        (let k = \<lparr>key_namespace = ns, key_service_account_name = n\<rparr> in
         \<exists>obj. sv_rcrb sv st' = (sv_rcrb sv st)(k \<mapsto> obj) \<and> rcrb_spec obj = rcrb_spec r \<and>
           rcrb_status obj = Option.bind (sv_rcrb sv st k) rcrb_status)) \<and>
     (\<forall>st st' evs ns n r. sv_write sv (ApplyRcrbStatus ns n r) st = Some (st', evs) \<longrightarrow>
        same_bindings sv st st' \<and> evs = [] \<and>
        (let k = \<lparr>key_namespace = ns, key_service_account_name = n\<rparr> in
         \<exists>old obj. sv_rcrb sv st k = Some old \<and> sv_rcrb sv st' = (sv_rcrb sv st)(k \<mapsto> obj) \<and>
           rcrb_spec obj = rcrb_spec old \<and> rcrb_status obj = rcrb_status r))"

lemma server_list: "server_laws sv \<Longrightarrow> c \<in> set (sv_list sv st ns) \<Longrightarrow> meta_namespace (crb_metadata c) = Some ns"
  by (simp add: server_laws_def)

lemma server_status:
  assumes "server_laws sv" "sv_write sv (ReplaceCrbStatus ns n c) st = Some (st', evs)"
  shows "same_bindings sv st st'" "sv_rcrb sv st' = sv_rcrb sv st"
    "ev \<in> set evs \<Longrightarrow> \<exists>d. ev = EvApply d \<and> same_object c d"
  using assms unfolding server_laws_def by blast+

lemma server_apply:
  assumes "server_laws sv" "sv_write sv (ApplyRcrb (key_namespace k) (key_service_account_name k) r) st = Some (st', evs)"
  shows "same_bindings sv st st'" "evs = []"
    "\<exists>obj. sv_rcrb sv st' = (sv_rcrb sv st)(k \<mapsto> obj) \<and> rcrb_spec obj = rcrb_spec r \<and>
       rcrb_status obj = Option.bind (sv_rcrb sv st k) rcrb_status"
proof -
  have "\<lparr>key_namespace = key_namespace k, key_service_account_name = key_service_account_name k\<rparr> = k" by simp
  with assms show "same_bindings sv st st'" "evs = []"
    "\<exists>obj. sv_rcrb sv st' = (sv_rcrb sv st)(k \<mapsto> obj) \<and> rcrb_spec obj = rcrb_spec r \<and>
       rcrb_status obj = Option.bind (sv_rcrb sv st k) rcrb_status"
    unfolding server_laws_def Let_def by metis+
qed

lemma server_apply_status:
  assumes "server_laws sv" "sv_write sv (ApplyRcrbStatus (key_namespace k) (key_service_account_name k) r) st = Some (st', evs)"
  shows "same_bindings sv st st'" "evs = []"
    "\<exists>old obj. sv_rcrb sv st k = Some old \<and> sv_rcrb sv st' = (sv_rcrb sv st)(k \<mapsto> obj) \<and>
       rcrb_spec obj = rcrb_spec old \<and> rcrb_status obj = rcrb_status r"
proof -
  have "\<lparr>key_namespace = key_namespace k, key_service_account_name = key_service_account_name k\<rparr> = k" by simp
  with assms show "same_bindings sv st st'" "evs = []"
    "\<exists>old obj. sv_rcrb sv st k = Some old \<and> sv_rcrb sv st' = (sv_rcrb sv st)(k \<mapsto> obj) \<and>
       rcrb_spec obj = rcrb_spec old \<and> rcrb_status obj = rcrb_status r"
    unfolding server_laws_def Let_def by metis+
qed

text \<open>The bindings of a key, and whether the server's resolution of it is that of its bindings.\<close>

definition bindings :: "'s server \<Rightarrow> 's \<Rightarrow> Key \<Rightarrow> CloudRoleBinding list" where
  "bindings sv st k =
     filter (\<lambda>crb. crb_sa crb = key_service_account_name k) (sv_list sv st (key_namespace k))"

definition published ::
  "reconcile_env \<Rightarrow> Key \<Rightarrow> CloudRoleBinding list \<Rightarrow> ResolvedCloudRoleBinding \<Rightarrow> bool" where
  "published env k crbs obj \<longleftrightarrow>
     (\<exists>r. reports env k crbs r \<and> rcrb_spec obj = rcrb_spec r \<and> rcrb_status obj = rcrb_status r)"

definition settled :: "'s server \<Rightarrow> reconcile_env \<Rightarrow> 's \<Rightarrow> Key \<Rightarrow> bool" where
  "settled sv env st k =
     (case sv_rcrb sv st k of
        None \<Rightarrow> bindings sv st k = []
      | Some obj \<Rightarrow> published env k (bindings sv st k) obj)"

lemma same_object_refl [simp]: "same_object c c"
  by (simp add: same_object_def)

lemma same_object_trans: "same_object c d \<Longrightarrow> same_object d e \<Longrightarrow> same_object c e"
  by (simp add: same_object_def)

lemma same_object_sa: "same_object c d \<Longrightarrow> crb_sa c = crb_sa d"
  by (simp add: same_object_def crb_sa_def)

lemma same_object_key: "same_object c d \<Longrightarrow> crb_key c = crb_key d"
  using same_object_sa [of c d] by (simp add: same_object_def crb_key_def split: option.split)

lemma same_object_view: "same_object c d \<Longrightarrow> same_view c d"
  by (simp add: same_object_def same_view_def crb_aws_def provider_present_def)

lemma filter_same_object:
  "list_all2 same_object xs ys \<Longrightarrow>
     list_all2 same_object (filter (\<lambda>c. crb_sa c = sa) xs) (filter (\<lambda>c. crb_sa c = sa) ys)"
  by (induction rule: list_all2_induct) (simp_all add: same_object_sa)

lemma bindings_same: "same_bindings sv st st' \<Longrightarrow> list_all2 same_object (bindings sv st k) (bindings sv st' k)"
  by (simp add: same_bindings_def bindings_def filter_same_object)

lemma merge_same:
  "list_all2 same_object crbs crbs' \<Longrightarrow> merge_inputs sa crbs = merge_inputs sa crbs'"
  by (rule merge_ignores_azure_gcp) (auto elim: list_all2_mono simp: same_object_view)

lemma reports_same: "list_all2 same_object crbs crbs' \<Longrightarrow> reports env k crbs = reports env k crbs'"
  by (intro ext) (simp add: reports_def merge_same)

lemma settled_same:
  assumes "list_all2 same_object (bindings sv st k) (bindings sv st' k)" "sv_rcrb sv st' k = sv_rcrb sv st k"
  shows "settled sv env st' k = settled sv env st k"
  using assms reports_same [OF assms(1)]
  by (auto simp: settled_def published_def split: option.split)

lemma reports_clock [simp]: "reports (env\<lparr>env_clock := clock\<rparr>) k crbs r = reports env k crbs r"
  by (simp add: reports_def split: sum.split)

end
