(* ===== verification/Pods.thy ===== *)
theory Pods
  imports Crds
begin

text \<open>
  The parts of a Kubernetes Pod (crate \<open>k8s-openapi\<close>) that the webhook reads or writes.
  Fields the program never names are kept in one list of (field, JSON text) pairs per
  struct, which is empty for \<open>Default\<close>; the webhook carries it through unchanged.
\<close>

type_synonym other_fields = "(string \<times> string) list"

record ObjectFieldSelector =
  ofs_api_version :: "string option"
  ofs_field_path :: string

record EnvVarSource =
  evs_field_ref :: "ObjectFieldSelector option"
  evs_other :: other_fields

record EnvVar =
  env_name :: string
  env_value :: "string option"
  env_value_from :: "EnvVarSource option"

record VolumeMount =
  vm_name :: string
  vm_mount_path :: string
  vm_read_only :: "bool option"
  vm_other :: other_fields

datatype IntOrString = PortInt int | PortString string

record HTTPGetAction =
  hg_path :: "string option"
  hg_port :: IntOrString
  hg_other :: other_fields

record Probe =
  pr_http_get :: "HTTPGetAction option"
  pr_failure_threshold :: "int option"
  pr_period_seconds :: "int option"
  pr_other :: other_fields

record Container =
  c_name :: string
  c_image :: "string option"
  c_image_pull_policy :: "string option"
  c_restart_policy :: "string option"
  c_startup_probe :: "Probe option"
  c_env :: "EnvVar list option"
  c_volume_mounts :: "VolumeMount list option"
  c_other :: other_fields

record ServiceAccountTokenProjection =
  sat_path :: string
  sat_audience :: "string option"
  sat_expiration_seconds :: "int option"

record DownwardAPIVolumeFile =
  daf_path :: string
  daf_field_ref :: "ObjectFieldSelector option"
  daf_other :: other_fields

record KeyToPath =
  kp_key :: string
  kp_path :: string
  kp_other :: other_fields

record ConfigMapProjection =
  cmp_name :: string
  cmp_items :: "KeyToPath list option"
  cmp_optional :: "bool option"

record VolumeProjection =
  vp_service_account_token :: "ServiceAccountTokenProjection option"
  vp_downward_api :: "DownwardAPIVolumeFile list option option"
  vp_config_map :: "ConfigMapProjection option"
  vp_other :: other_fields

record ProjectedVolumeSource =
  pvs_sources :: "VolumeProjection list option"
  pvs_other :: other_fields

record Volume =
  v_name :: string
  v_projected :: "ProjectedVolumeSource option"
  v_empty_dir :: "other_fields option"
  v_other :: other_fields

record PodSpec =
  ps_service_account_name :: "string option"
  ps_automount_service_account_token :: "bool option"
  ps_volumes :: "Volume list option"
  ps_init_containers :: "Container list option"
  ps_containers :: "Container list"
  ps_other :: other_fields

record Pod =
  pod_metadata :: ObjectMeta
  pod_spec :: "PodSpec option"
  pod_other :: other_fields

section \<open>Values every struct starts from\<close>

definition default_Container :: "string \<Rightarrow> Container" where
  "default_Container n =
     \<lparr>c_name = n, c_image = None, c_image_pull_policy = None, c_restart_policy = None,
      c_startup_probe = None, c_env = None, c_volume_mounts = None, c_other = []\<rparr>"

definition default_VolumeProjection :: VolumeProjection where
  "default_VolumeProjection =
     \<lparr>vp_service_account_token = None, vp_downward_api = None, vp_config_map = None, vp_other = []\<rparr>"

definition default_Volume :: "string \<Rightarrow> Volume" where
  "default_Volume n = \<lparr>v_name = n, v_projected = None, v_empty_dir = None, v_other = []\<rparr>"

definition env_literal :: "string \<Rightarrow> string \<Rightarrow> EnvVar" where
  "env_literal n v = \<lparr>env_name = n, env_value = Some v, env_value_from = None\<rparr>"

definition mount :: "string \<Rightarrow> string \<Rightarrow> bool \<Rightarrow> VolumeMount" where
  "mount n path ro =
     \<lparr>vm_name = n, vm_mount_path = path, vm_read_only = Some ro, vm_other = []\<rparr>"

section \<open>Reading a Pod\<close>

definition init_containers :: "PodSpec \<Rightarrow> Container list" where
  "init_containers spec = unwrap_or (ps_init_containers spec) []"

definition volumes :: "PodSpec \<Rightarrow> Volume list" where
  "volumes spec = unwrap_or (ps_volumes spec) []"

definition env_of :: "Container \<Rightarrow> EnvVar list" where
  "env_of c = unwrap_or (c_env c) []"

definition mounts_of :: "Container \<Rightarrow> VolumeMount list" where
  "mounts_of c = unwrap_or (c_volume_mounts c) []"

text \<open>The value a process of the container sees for a variable: where a name occurs more
  than once the kubelet lets the last occurrence win. \<open>None\<close> for a variable that is not
  set, or that is not set to a literal.\<close>

definition effective_env :: "EnvVar list \<Rightarrow> string \<Rightarrow> string option" where
  "effective_env env n =
     Option.bind (find (\<lambda>e. env_name e = n) (rev env)) env_value"

text \<open>A Pod is well formed when its volumes and containers have distinct names and every
  mount names a volume of the Pod, as the API server demands.\<close>

definition mounts_declared :: "Volume list \<Rightarrow> Container \<Rightarrow> bool" where
  "mounts_declared vs c \<longleftrightarrow> (\<forall>m \<in> set (mounts_of c). vm_name m \<in> v_name ` set vs)"

definition spec_wf :: "PodSpec \<Rightarrow> bool" where
  "spec_wf spec \<longleftrightarrow>
     distinct (map v_name (volumes spec)) \<and>
     distinct (map c_name (init_containers spec @ ps_containers spec)) \<and>
     list_all (mounts_declared (volumes spec)) (init_containers spec @ ps_containers spec)"

end
