(* ===== verification/Mutate.thy ===== *)
theory Mutate
  imports Pods
begin

text \<open>
  \<open>kif-webhook/src/mutate.rs\<close>: what the webhook does to a Pod. \<open>mutate_pod\<close> is the part
  of \<open>build_pod_patch\<close> between the two serialisations; the serialiser
  (\<open>serde_json::to_value\<close>) and \<open>json_patch::diff\<close> are parameters of \<open>build_pod_patch\<close>.
  Adding a volume or a mount under a name that may be taken, and setting an environment
  variable, are interfaces (\<open>ensure_named\<close>, \<open>env_store\<close>) with the laws their clients use.
\<close>

section \<open>Adding under a name\<close>

locale ensure_named =
  fixes name :: "'a \<Rightarrow> string"
    and item :: "'a"
    and ensure :: "'a list \<Rightarrow> 'a list"
  assumes ensure_present: "list_ex (\<lambda>x. name x = name item) xs \<Longrightarrow> ensure xs = xs"
    and ensure_absent: "\<not> list_ex (\<lambda>x. name x = name item) xs \<Longrightarrow> ensure xs = xs @ [item]"
begin

lemma ensure_names: "name ` set (ensure xs) = insert (name item) (name ` set xs)"
proof (cases "list_ex (\<lambda>x. name x = name item) xs")
  case True
  then obtain x where "x \<in> set xs" "name x = name item" by (auto simp: list_ex_iff)
  then have "name item \<in> name ` set xs" by (metis image_eqI)
  with True show ?thesis by (auto simp: ensure_present)
next
  case False
  then show ?thesis by (simp add: ensure_absent)
qed

lemma ensure_has: "list_ex (\<lambda>x. name x = name item) (ensure xs)"
  by (cases "list_ex (\<lambda>x. name x = name item) xs") (simp_all add: ensure_present ensure_absent)

lemma ensure_idem: "ensure (ensure xs) = ensure xs"
  by (rule ensure_present) (rule ensure_has)

lemma ensure_distinct: "distinct (map name (ensure xs)) \<longleftrightarrow> distinct (map name xs)"
  by (cases "list_ex (\<lambda>x. name x = name item) xs")
    (auto simp: ensure_present ensure_absent list_ex_iff image_iff)

lemma ensure_keeps: "set xs \<subseteq> set (ensure xs)"
  by (cases "list_ex (\<lambda>x. name x = name item) xs") (auto simp: ensure_present ensure_absent)

end

section \<open>Volumes\<close>

definition sa_token_volume :: Volume where
  "sa_token_volume =
     (default_Volume ''kif-sa-token'')\<lparr>v_projected := Some
       \<lparr>pvs_sources = Some
          [default_VolumeProjection\<lparr>vp_service_account_token := Some
             \<lparr>sat_path = ''token'', sat_audience = None, sat_expiration_seconds = None\<rparr>\<rparr>,
           default_VolumeProjection\<lparr>vp_downward_api := Some (Some
             [\<lparr>daf_path = ''namespace'',
               daf_field_ref = Some
                 \<lparr>ofs_api_version = Some ''v1'', ofs_field_path = ''metadata.namespace''\<rparr>,
               daf_other = []\<rparr>])\<rparr>,
           default_VolumeProjection\<lparr>vp_config_map := Some
             \<lparr>cmp_name = ''kube-root-ca.crt'',
              cmp_items = Some [\<lparr>kp_key = ''ca.crt'', kp_path = ''ca.crt'', kp_other = []\<rparr>],
              cmp_optional = Some False\<rparr>\<rparr>],
        pvs_other = []\<rparr>\<rparr>"

definition ensure_sa_projected_token_volume :: "Volume list \<Rightarrow> Volume list" where
  "ensure_sa_projected_token_volume vs =
     (if list_ex (\<lambda>v. v_name v = ''kif-sa-token'') vs then vs else vs @ [sa_token_volume])"

definition aws_volume :: Volume where
  "aws_volume = (default_Volume ''kif-aws'')\<lparr>v_empty_dir := Some []\<rparr>"

definition ensure_aws_emptydir_volume :: "Volume list \<Rightarrow> Volume list" where
  "ensure_aws_emptydir_volume vs =
     (if list_ex (\<lambda>v. v_name v = ''kif-aws'') vs then vs else vs @ [aws_volume])"

lemma volume_names [simp]:
  "v_name sa_token_volume = ''kif-sa-token''" "v_name aws_volume = ''kif-aws''"
  by (simp_all add: sa_token_volume_def aws_volume_def default_Volume_def)

interpretation sav: ensure_named v_name sa_token_volume ensure_sa_projected_token_volume
  by unfold_locales (simp_all add: ensure_sa_projected_token_volume_def)

interpretation awsv: ensure_named v_name aws_volume ensure_aws_emptydir_volume
  by unfold_locales (simp_all add: ensure_aws_emptydir_volume_def)

section \<open>Environment variables\<close>

text \<open>A store of variables that lists the entries of a name in their order: setting a
  variable replaces its first entry, or adds one, and leaves all others alone.\<close>

locale env_store =
  fixes upsert :: "'e \<Rightarrow> 'n \<Rightarrow> 'v \<Rightarrow> 'e"
    and entries :: "'e \<Rightarrow> 'n \<Rightarrow> 'x list"
    and literal :: "'n \<Rightarrow> 'v \<Rightarrow> 'x"
  assumes entries_upsert: "entries (upsert e n v) = (entries e)(n := literal n v # tl (entries e n))"
begin

lemma entries_upsert_all:
  "distinct (map fst nvs) \<Longrightarrow>
     entries (fold (\<lambda>(n, v) e. upsert e n v) nvs e) n =
       (case map_of nvs n of None \<Rightarrow> entries e n | Some v \<Rightarrow> literal n v # tl (entries e n))"
proof (induction nvs arbitrary: e)
  case (Cons nv nvs)
  obtain m v where nv: "nv = (m, v)" by (cases nv)
  with Cons.prems have "map_of nvs m = None" by (simp add: map_of_eq_None_iff)
  with Cons show ?case by (auto simp: nv entries_upsert split: option.split)
qed simp

end

fun upsert_env :: "EnvVar list \<Rightarrow> string \<Rightarrow> string \<Rightarrow> EnvVar list" where
  "upsert_env [] name value = [env_literal name value]"
| "upsert_env (e # es) name value =
     (if env_name e = name then e\<lparr>env_value := Some value, env_value_from := None\<rparr> # es
      else e # upsert_env es name value)"

lemma effective_env_simps:
  "effective_env [] n = None"
  "effective_env (e # es) n =
     (if n \<in> env_name ` set es then effective_env es n
      else if env_name e = n then env_value e else None)"
proof -
  show "effective_env [] n = None" by (simp add: effective_env_def)
  have find_app: "find P (xs @ [x]) = (case find P xs of None \<Rightarrow> if P x then Some x else None | Some y \<Rightarrow> Some y)"
    for P :: "EnvVar \<Rightarrow> bool" and xs x
    by (induction xs) auto
  have "find (\<lambda>e. env_name e = n) (rev es) = None \<longleftrightarrow> n \<notin> env_name ` set es"
    by (auto simp: find_None_iff)
  then show "effective_env (e # es) n =
     (if n \<in> env_name ` set es then effective_env es n
      else if env_name e = n then env_value e else None)"
    by (auto simp: effective_env_def find_app split: option.split)
qed

definition entries_of :: "EnvVar list \<Rightarrow> string \<Rightarrow> EnvVar list" where
  "entries_of env n = filter (\<lambda>e. env_name e = n) env"

interpretation env: env_store upsert_env entries_of env_literal
proof unfold_locales
  have "entries_of (upsert_env e n v) m =
      (if m = n then env_literal n v # tl (entries_of e n) else entries_of e m)" for e n v m
    by (induction e) (auto simp: entries_of_def env_literal_def)
  then show "entries_of (upsert_env e n v) = (entries_of e)(n := env_literal n v # tl (entries_of e n))" for e n v
    by (simp add: fun_eq_iff)
qed

text \<open>The variables of other names keep their order too.\<close>

lemma upsert_env_others:
  "\<not> P n \<Longrightarrow> filter (\<lambda>e. P (env_name e)) (upsert_env env n v) = filter (\<lambda>e. P (env_name e)) env"
  by (induction env) (auto simp: env_literal_def)

lemma upsert_env_all_others:
  "\<forall>n \<in> fst ` set nvs. \<not> P n \<Longrightarrow>
     filter (\<lambda>e. P (env_name e)) (fold (\<lambda>(n, v) e. upsert_env e n v) nvs env) = filter (\<lambda>e. P (env_name e)) env"
  by (induction nvs arbitrary: env) (auto simp: upsert_env_others)

text \<open>The last entry is the one a process sees.\<close>

lemma effective_env_entries:
  "effective_env env n = (if entries_of env n = [] then None else env_value (last (entries_of env n)))"
proof -
  have "find P (rev xs) = (if filter P xs = [] then None else Some (last (filter P xs)))"
    for P :: "EnvVar \<Rightarrow> bool" and xs
    by (induction xs rule: rev_induct) auto
  then show ?thesis by (simp add: effective_env_def entries_of_def)
qed

section \<open>Injection into a container\<close>

definition aws_mount :: VolumeMount where
  "aws_mount = mount ''kif-aws'' ''/var/run/kif/aws'' True"

definition ensure_aws_mount :: "VolumeMount list \<Rightarrow> VolumeMount list" where
  "ensure_aws_mount vms =
     (if list_ex (\<lambda>m. vm_name m = ''kif-aws'') vms then vms else vms @ [aws_mount])"

definition inject_aws_into_app_container ::
  "AwsProviderSpec \<Rightarrow> Container \<Rightarrow> Container res" where
  "inject_aws_into_app_container aws c =
     (if trim (role_arn aws) = [] then Inl ''aws.role_arn is empty in resolved binding''
      else
        let env = unwrap_or (c_env c) [];
            vms = ensure_aws_mount (unwrap_or (c_volume_mounts c) []);
            env = upsert_env env ''AWS_ROLE_ARN'' (role_arn aws);
            env = upsert_env env ''AWS_WEB_IDENTITY_TOKEN_FILE'' ''/var/run/kif/aws/token'';
            env = (case aws_region aws of
                     None \<Rightarrow> env
                   | Some region \<Rightarrow>
                       upsert_env (upsert_env env ''AWS_REGION'' region)
                         ''AWS_DEFAULT_REGION'' region);
            env = (if sts_regional_endpoints aws
                   then upsert_env env ''AWS_STS_REGIONAL_ENDPOINTS'' ''regional'' else env)
        in Inr (c\<lparr>c_env := Some env, c_volume_mounts := Some vms\<rparr>))"

text \<open>The two loops over containers; the one over init containers skips the agent.\<close>

fun inject_init_containers :: "AwsProviderSpec \<Rightarrow> Container list \<Rightarrow> Container list res" where
  "inject_init_containers aws [] = Inr []"
| "inject_init_containers aws (c # cs) =
     (if c_name c = ''kif-agent''
      then res_bind (inject_init_containers aws cs) (\<lambda>cs'. Inr (c # cs'))
      else res_bind (inject_aws_into_app_container aws c) (\<lambda>c'.
           res_bind (inject_init_containers aws cs) (\<lambda>cs'. Inr (c' # cs'))))"

fun inject_containers :: "AwsProviderSpec \<Rightarrow> Container list \<Rightarrow> Container list res" where
  "inject_containers aws [] = Inr []"
| "inject_containers aws (c # cs) =
     res_bind (inject_aws_into_app_container aws c) (\<lambda>c'.
     res_bind (inject_containers aws cs) (\<lambda>cs'. Inr (c' # cs')))"

section \<open>The agent sidecar\<close>

definition build_agent_container ::
  "string \<Rightarrow> string \<Rightarrow> u16 \<Rightarrow> string \<Rightarrow> string \<Rightarrow> string \<Rightarrow> Container" where
  "build_agent_container agent_image pull_policy agent_port federation_url sa_name hash =
     (default_Container ''kif-agent'')
       \<lparr>c_image := Some agent_image,
        c_image_pull_policy := Some pull_policy,
        c_restart_policy := Some ''Always'',
        c_startup_probe := Some
          \<lparr>pr_http_get = Some
             \<lparr>hg_path = Some ''/startupz'', hg_port = PortInt (uint agent_port), hg_other = []\<rparr>,
           pr_failure_threshold = Some 30, pr_period_seconds = Some 10, pr_other = []\<rparr>,
        c_env := Some
          [env_literal ''SERVICE_ACCOUNT_NAME'' sa_name,
           env_literal ''CONFIG_HASH'' hash,
           env_literal ''FEDERATION_URL'' federation_url,
           env_literal ''PORT'' (show_word agent_port),
           \<lparr>env_name = ''POD_NAME'', env_value = None,
            env_value_from = Some
              \<lparr>evs_field_ref = Some
                 \<lparr>ofs_api_version = Some ''v1'', ofs_field_path = ''metadata.name''\<rparr>,
               evs_other = []\<rparr>\<rparr>],
        c_volume_mounts := Some
          [mount ''kif-sa-token'' ''/var/run/secrets/kubernetes.io/serviceaccount'' True,
           mount ''kif-aws'' ''/var/run/kif/aws'' False]\<rparr>"

section \<open>The Pod\<close>

definition pod_has_container :: "Pod \<Rightarrow> string \<Rightarrow> bool" where
  "pod_has_container pod name =
     (case pod_spec pod of
        None \<Rightarrow> False
      | Some spec \<Rightarrow>
          list_ex (\<lambda>c. c_name c = name) (ps_containers spec) \<or>
          list_ex (\<lambda>c. c_name c = name) (unwrap_or (ps_init_containers spec) []))"

definition mutate_spec :: "Container \<Rightarrow> AwsProviderSpec \<Rightarrow> PodSpec \<Rightarrow> PodSpec res" where
  "mutate_spec agent aws spec =
     (let vs = unwrap_or (ps_volumes spec) [];
          vs = ensure_aws_emptydir_volume (ensure_sa_projected_token_volume vs);
          inits = agent # unwrap_or (ps_init_containers spec) []
      in res_bind (inject_init_containers aws inits) (\<lambda>inits.
         res_bind (inject_containers aws (ps_containers spec)) (\<lambda>containers.
           Inr (spec\<lparr>ps_automount_service_account_token := Some False,
                     ps_volumes := Some vs,
                     ps_init_containers := Some inits,
                     ps_containers := containers\<rparr>))))"

definition mutate_pod :: "Container \<Rightarrow> AwsProviderSpec \<Rightarrow> Pod \<Rightarrow> Pod res" where
  "mutate_pod agent aws pod =
     res_bind (ok_or (pod_spec pod) ''pod.spec missing'') (\<lambda>spec.
     res_bind (mutate_spec agent aws spec) (\<lambda>spec'. Inr (pod\<lparr>pod_spec := Some spec'\<rparr>)))"

definition build_pod_patch ::
  "(Pod \<Rightarrow> 'json res) \<Rightarrow> ('json \<Rightarrow> 'json \<Rightarrow> 'patch) \<Rightarrow> Pod \<Rightarrow>
     string \<Rightarrow> string \<Rightarrow> u16 \<Rightarrow> string \<Rightarrow> string \<Rightarrow> string \<Rightarrow> AwsProviderSpec \<Rightarrow> 'patch res" where
  "build_pod_patch to_value diff pod agent_image pull_policy agent_port federation_url sa_name
     hash aws =
     res_bind (to_value pod) (\<lambda>original.
     res_bind (mutate_pod
         (build_agent_container agent_image pull_policy agent_port federation_url sa_name hash)
         aws pod) (\<lambda>pod'.
     res_bind (to_value pod') (\<lambda>modified. Inr (diff original modified))))"

section \<open>What injection does to a container\<close>

lemma aws_mount_name [simp]: "vm_name aws_mount = ''kif-aws''"
  by (simp add: aws_mount_def mount_def)

interpretation awsm: ensure_named vm_name aws_mount ensure_aws_mount
  by unfold_locales (simp_all add: ensure_aws_mount_def)

text \<open>The variables the AWS SDKs are to see, in the order they are set.\<close>

definition aws_settings :: "AwsProviderSpec \<Rightarrow> (string \<times> string) list" where
  "aws_settings aws =
     [(''AWS_ROLE_ARN'', role_arn aws), (''AWS_WEB_IDENTITY_TOKEN_FILE'', ''/var/run/kif/aws/token'')] @
     (case aws_region aws of
        None \<Rightarrow> []
      | Some region \<Rightarrow> [(''AWS_REGION'', region), (''AWS_DEFAULT_REGION'', region)]) @
     (if sts_regional_endpoints aws then [(''AWS_STS_REGIONAL_ENDPOINTS'', ''regional'')] else [])"

definition credentialed :: "AwsProviderSpec \<Rightarrow> Container \<Rightarrow> Container" where
  "credentialed aws c =
     c\<lparr>c_env := Some (fold (\<lambda>(n, v) e. upsert_env e n v) (aws_settings aws) (env_of c)),
       c_volume_mounts := Some (ensure_aws_mount (mounts_of c))\<rparr>"

definition usable_role :: "AwsProviderSpec \<Rightarrow> bool" where
  "usable_role aws \<longleftrightarrow> trim (role_arn aws) \<noteq> []"

lemma inject_eq:
  "inject_aws_into_app_container aws c =
     (if usable_role aws then Inr (credentialed aws c)
      else Inl ''aws.role_arn is empty in resolved binding'')"
  by (simp add: inject_aws_into_app_container_def usable_role_def credentialed_def aws_settings_def
      env_of_def mounts_of_def Let_def split: option.split)

lemma inject_containers_eq:
  "inject_containers aws cs =
     (if usable_role aws \<or> cs = [] then Inr (map (credentialed aws) cs)
      else Inl ''aws.role_arn is empty in resolved binding'')"
  by (induction cs) (auto simp: inject_eq)

definition credentialed_init :: "AwsProviderSpec \<Rightarrow> Container \<Rightarrow> Container" where
  "credentialed_init aws c = (if c_name c = ''kif-agent'' then c else credentialed aws c)"

lemma inject_init_containers_eq:
  "inject_init_containers aws cs =
     (if usable_role aws \<or> list_all (\<lambda>c. c_name c = ''kif-agent'') cs
      then Inr (map (credentialed_init aws) cs)
      else Inl ''aws.role_arn is empty in resolved binding'')"
  by (induction cs) (auto simp: inject_eq credentialed_init_def)

lemma aws_settings_distinct: "distinct (map fst (aws_settings aws))"
  by (auto simp: aws_settings_def split: option.split)

lemma credentialed_env:
  "env_of (credentialed aws c) = fold (\<lambda>(n, v) e. upsert_env e n v) (aws_settings aws) (env_of c)"
  by (simp add: credentialed_def) (simp add: env_of_def)

lemma credentialed_entries:
  "entries_of (env_of (credentialed aws c)) n =
     (case map_of (aws_settings aws) n of
        None \<Rightarrow> entries_of (env_of c) n
      | Some v \<Rightarrow> env_literal n v # tl (entries_of (env_of c) n))"
  by (simp add: credentialed_env env.entries_upsert_all [OF aws_settings_distinct])

lemma credentialed_fields [simp]:
  "c_name (credentialed aws c) = c_name c" "c_image (credentialed aws c) = c_image c"
  "mounts_of (credentialed aws c) = ensure_aws_mount (mounts_of c)"
  by (simp_all add: credentialed_def mounts_of_def)

lemma credentialed_init_fields [simp]:
  "c_name (credentialed_init aws c) = c_name c"
  by (simp add: credentialed_init_def)

section \<open>What mutation does to a Pod\<close>

definition mutated_spec :: "Container \<Rightarrow> AwsProviderSpec \<Rightarrow> PodSpec \<Rightarrow> PodSpec" where
  "mutated_spec agent aws spec =
     spec\<lparr>ps_automount_service_account_token := Some False,
          ps_volumes := Some
            (ensure_aws_emptydir_volume (ensure_sa_projected_token_volume (volumes spec))),
          ps_init_containers := Some (agent # map (credentialed_init aws) (init_containers spec)),
          ps_containers := map (credentialed aws) (ps_containers spec)\<rparr>"

text \<open>The containers of a Pod that receive credentials.\<close>

definition app_containers :: "PodSpec \<Rightarrow> Container list" where
  "app_containers spec =
     filter (\<lambda>c. c_name c \<noteq> ''kif-agent'') (init_containers spec) @ ps_containers spec"

lemma agent_name [simp]: "c_name (build_agent_container img pp port url sa h) = ''kif-agent''"
  by (simp add: build_agent_container_def default_Container_def)

lemma no_app_containers:
  "app_containers spec = [] \<longleftrightarrow>
     list_all (\<lambda>c. c_name c = ''kif-agent'') (init_containers spec) \<and> ps_containers spec = []"
  by (auto simp: app_containers_def filter_empty_conv list_all_iff)

lemma mutate_spec_eq:
  assumes "c_name agent = ''kif-agent''"
  shows "mutate_spec agent aws spec =
     (if usable_role aws \<or> app_containers spec = [] then Inr (mutated_spec agent aws spec)
      else Inl ''aws.role_arn is empty in resolved binding'')"
  using assms
  unfolding mutate_spec_def Let_def inject_init_containers_eq inject_containers_eq
    no_app_containers init_containers_def [symmetric] volumes_def [symmetric] mutated_spec_def
  by (simp add: credentialed_init_def)

lemma mutate_pod_eq:
  assumes "c_name agent = ''kif-agent''"
  shows "mutate_pod agent aws pod =
     (case pod_spec pod of
        None \<Rightarrow> Inl ''pod.spec missing''
      | Some spec \<Rightarrow>
          if usable_role aws \<or> app_containers spec = []
          then Inr (pod\<lparr>pod_spec := Some (mutated_spec agent aws spec)\<rparr>)
          else Inl ''aws.role_arn is empty in resolved binding'')"
  by (simp add: mutate_pod_def mutate_spec_eq [OF assms] split: option.split)

lemma mutate_pod_Inr:
  assumes "mutate_pod agent aws pod = Inr pod'" "c_name agent = ''kif-agent''"
  obtains spec where "pod_spec pod = Some spec" "usable_role aws \<or> app_containers spec = []"
    "pod' = pod\<lparr>pod_spec := Some (mutated_spec agent aws spec)\<rparr>"
  using assms(1) unfolding mutate_pod_eq [OF assms(2)]
  by (auto split: option.splits if_splits)

text \<open>What an application needs to obtain credentials, \<open>c'\<close> being the mutated container \<open>c\<close>:
  every AWS variable is set, which replaces the first entry of its name, and is what a process sees
  unless the container sets it twice or more; all other variables stay as they are, in
  their order, the references included; the directory of the token file is mounted
  for reading, unless the container has a mount of that name; and there is no other change.\<close>

definition receives :: "AwsProviderSpec \<Rightarrow> Container \<Rightarrow> Container \<Rightarrow> bool" where
  "receives aws c c' \<longleftrightarrow>
     (\<exists>env. c' = c\<lparr>c_env := Some env,
          c_volume_mounts := Some (mounts_of c @
            (if ''kif-aws'' \<in> vm_name ` set (mounts_of c) then []
             else [\<lparr>vm_name = ''kif-aws'', vm_mount_path = ''/var/run/kif/aws'', vm_read_only = Some True,
                    vm_other = []\<rparr>]))\<rparr> \<and>
        (\<forall>(n, v) \<in> set (aws_settings aws).
           filter (\<lambda>e. env_name e = n) env =
             \<lparr>env_name = n, env_value = Some v, env_value_from = None\<rparr> #
             tl (filter (\<lambda>e. env_name e = n) (env_of c)) \<and>
           (count_list (map env_name (env_of c)) n \<le> 1 \<longrightarrow> effective_env env n = Some v)) \<and>
        filter (\<lambda>e. env_name e \<notin> fst ` set (aws_settings aws)) env =
          filter (\<lambda>e. env_name e \<notin> fst ` set (aws_settings aws)) (env_of c))"

lemma entries_count: "length (entries_of env n) = count_list (map env_name env) n"
  by (induction env) (simp_all add: entries_of_def)

lemma list_ex_name: "list_ex (\<lambda>x. f x = n) xs \<longleftrightarrow> n \<in> f ` set xs"
  by (induction xs) auto

lemma credentialed_receives: "receives aws c (credentialed aws c)"
proof -
  let ?env = "env_of (credentialed aws c)"
  have "entries_of ?env n = env_literal n v # tl (entries_of (env_of c) n) \<and>
      (count_list (map env_name (env_of c)) n \<le> 1 \<longrightarrow> effective_env ?env n = Some v)"
    if "(n, v) \<in> set (aws_settings aws)" for n v
  proof -
    have e: "entries_of ?env n = env_literal n v # tl (entries_of (env_of c) n)"
      using that aws_settings_distinct by (simp add: credentialed_entries)
    have "tl (entries_of (env_of c) n) = []" if "count_list (map env_name (env_of c)) n \<le> 1"
      using that by (cases "entries_of (env_of c) n") (auto simp: entries_count [symmetric])
    with e show ?thesis by (simp add: effective_env_entries env_literal_def)
  qed
  moreover have "filter (\<lambda>e. env_name e \<notin> fst ` set (aws_settings aws)) ?env =
      filter (\<lambda>e. env_name e \<notin> fst ` set (aws_settings aws)) (env_of c)"
    by (simp add: credentialed_env upsert_env_all_others [where P = "\<lambda>n. n \<notin> fst ` set (aws_settings aws)"])
  moreover have "ensure_aws_mount (mounts_of c) = mounts_of c @
      (if ''kif-aws'' \<in> vm_name ` set (mounts_of c) then [] else [mount ''kif-aws'' ''/var/run/kif/aws'' True])"
    by (simp add: ensure_aws_mount_def aws_mount_def list_ex_name)
  then have "credentialed aws c = c\<lparr>c_env := Some ?env, c_volume_mounts := Some (mounts_of c @
      (if ''kif-aws'' \<in> vm_name ` set (mounts_of c) then [] else [mount ''kif-aws'' ''/var/run/kif/aws'' True]))\<rparr>"
    by (simp only: credentialed_env) (simp only: credentialed_def)
  ultimately show ?thesis
    unfolding receives_def entries_of_def [symmetric] env_literal_def [symmetric] mount_def [symmetric] by blast
qed

lemma app_containers_mutated:
  assumes "c_name agent = ''kif-agent''"
  shows "app_containers (mutated_spec agent aws spec) = map (credentialed aws) (app_containers spec)"
proof -
  have "filter (\<lambda>c. c_name c \<noteq> ''kif-agent'') (map (credentialed_init aws) cs) =
      map (credentialed aws) (filter (\<lambda>c. c_name c \<noteq> ''kif-agent'') cs)" for cs
    by (induction cs) (simp_all add: credentialed_init_def)
  with assms show ?thesis
    by (simp add: app_containers_def mutated_spec_def init_containers_def)
qed

text \<open>
  C17: Mutation gives every application container, init containers included, the AWS
  variables, each a literal in the place of the first entry of its name, which is what a
  process sees unless the container sets the variable twice, and the read-only mount of the
  token directory at its path unless it has a mount of that name; all other variables keep
  their values, references and order, and all other fields of the containers stay as they
  are, and of the Pod only the volumes change besides. The agent becomes the first init
  container, and the ServiceAccount token is no longer mounted automatically.
\<close>

theorem mutated_pod_receives_credentials:
  assumes "mutate_pod (build_agent_container img pull_policy port url sa hash) aws pod = Inr pod'"
    and "pod_spec pod = Some spec"
  shows "\<exists>spec' inits. pod' = pod\<lparr>pod_spec := Some spec'\<rparr> \<and>
     list_all2 (receives aws) (app_containers spec) (app_containers spec') \<and>
     ps_init_containers spec' = Some (build_agent_container img pull_policy port url sa hash # inits) \<and>
     ps_automount_service_account_token spec' = Some False \<and>
     ps_service_account_name spec' = ps_service_account_name spec \<and> ps_other spec' = ps_other spec"
proof -
  let ?agent = "build_agent_container img pull_policy port url sa hash"
  have "pod' = pod\<lparr>pod_spec := Some (mutated_spec ?agent aws spec)\<rparr>"
    by (rule mutate_pod_Inr [OF assms(1) agent_name]) (simp add: assms(2))
  moreover have "list_all2 (receives aws) (app_containers spec) (app_containers (mutated_spec ?agent aws spec))"
    by (simp add: app_containers_mutated list_all2_map2 list_all2_refl credentialed_receives)
  ultimately show ?thesis by (intro exI [of _ "mutated_spec ?agent aws spec"]) (simp add: mutated_spec_def)
qed

lemma mounts_agent [simp]:
  "mounts_of (build_agent_container img pp port url sa h) =
     [mount ''kif-sa-token'' ''/var/run/secrets/kubernetes.io/serviceaccount'' True,
      mount ''kif-aws'' ''/var/run/kif/aws'' False]"
  by (simp add: mounts_of_def build_agent_container_def default_Container_def)

lemma volume_names_mutated:
  "v_name ` set (volumes (mutated_spec agent aws spec)) =
     {''kif-sa-token'', ''kif-aws''} \<union> v_name ` set (volumes spec)"
  by (auto simp: mutated_spec_def volumes_def sav.ensure_names awsv.ensure_names)

lemma mounts_declared_mono:
  "mounts_declared vs c \<Longrightarrow> v_name ` set vs \<subseteq> v_name ` set vs' \<Longrightarrow> mounts_declared vs' c"
  by (auto simp: mounts_declared_def)

lemma mounts_declared_credentialed:
  assumes "mounts_declared vs c" "v_name ` set vs \<subseteq> v_name ` set vs'" "''kif-aws'' \<in> v_name ` set vs'"
  shows "mounts_declared vs' (credentialed aws c)"
proof -
  have "vm_name ` set (mounts_of (credentialed aws c)) = insert ''kif-aws'' (vm_name ` set (mounts_of c))"
    by (simp add: awsm.ensure_names)
  moreover have "mounts_declared ws d \<longleftrightarrow> vm_name ` set (mounts_of d) \<subseteq> v_name ` set ws" for ws d
    by (auto simp: mounts_declared_def)
  ultimately show ?thesis using assms by auto
qed

lemma mutated_spec_containers:
  "init_containers (mutated_spec agent aws spec) = agent # map (credentialed_init aws) (init_containers spec)"
  "ps_containers (mutated_spec agent aws spec) = map (credentialed aws) (ps_containers spec)"
  by (simp_all add: mutated_spec_def init_containers_def)

lemma mutated_spec_wf:
  assumes "spec_wf spec" "\<not> pod_has_container pod ''kif-agent''" "pod_spec pod = Some spec"
    and agent: "c_name agent = ''kif-agent''"
      "vm_name ` set (mounts_of agent) \<subseteq> {''kif-sa-token'', ''kif-aws''}"
  shows "spec_wf (mutated_spec agent aws spec)"
proof -
  let ?vs = "volumes (mutated_spec agent aws spec)"
  have fresh: "''kif-agent'' \<notin> c_name ` set (init_containers spec @ ps_containers spec)"
    using assms(2,3) by (auto simp: pod_has_container_def init_containers_def list_ex_iff)
  have cred: "map (credentialed_init aws) (init_containers spec) = map (credentialed aws) (init_containers spec)"
  proof (rule map_cong [OF refl])
    fix c assume "c \<in> set (init_containers spec)"
    then have "c_name c \<noteq> ''kif-agent''" using fresh by (metis UnI1 image_eqI set_append)
    then show "credentialed_init aws c = credentialed aws c" by (simp add: credentialed_init_def)
  qed
  have sub: "v_name ` set (volumes spec) \<subseteq> v_name ` set ?vs" "''kif-aws'' \<in> v_name ` set ?vs"
    by (auto simp: volume_names_mutated)
  have "distinct (map v_name ?vs)"
    using assms(1) by (simp add: spec_wf_def mutated_spec_def volumes_def sav.ensure_distinct awsv.ensure_distinct)
  moreover have "distinct (map c_name (init_containers (mutated_spec agent aws spec) @
      ps_containers (mutated_spec agent aws spec)))"
    using assms(1) fresh agent(1)
    by (simp add: mutated_spec_containers spec_wf_def cred comp_def image_Un)
  moreover have "mounts_declared ?vs agent"
    using agent(2) by (auto simp: mounts_declared_def volume_names_mutated)
  moreover have "mounts_declared ?vs (credentialed aws c)"
    if "c \<in> set (init_containers spec @ ps_containers spec)" for c
    using assms(1) that sub
    by (intro mounts_declared_credentialed [of "volumes spec"]) (auto simp: spec_wf_def list_all_iff)
  ultimately show ?thesis
    by (auto simp: spec_wf_def mutated_spec_containers cred list_all_iff)
qed

text \<open>
  C18: Mutating a well-formed Pod that has no agent gives a well-formed Pod that has one:
  container and volume names stay distinct and every mount refers to a declared volume.
\<close>

theorem mutated_pod_well_formed:
  assumes "mutate_pod (build_agent_container img pull_policy port url sa hash) aws pod = Inr pod'"
    and "pod_spec pod = Some spec" "spec_wf spec" "\<not> pod_has_container pod ''kif-agent''"
  shows "\<exists>spec'. pod_spec pod' = Some spec' \<and> spec_wf spec' \<and> pod_has_container pod' ''kif-agent''"
proof -
  let ?agent = "build_agent_container img pull_policy port url sa hash"
  have spec': "pod_spec pod' = Some (mutated_spec ?agent aws spec)"
    by (rule mutate_pod_Inr [OF assms(1) agent_name]) (simp add: assms(2))
  moreover have "spec_wf (mutated_spec ?agent aws spec)"
    using assms(3,4,2) by (rule mutated_spec_wf) (simp_all add: mount_def)
  moreover have "pod_has_container pod' ''kif-agent''"
    using spec' by (simp add: pod_has_container_def mutated_spec_def)
  ultimately show ?thesis by blast
qed

text \<open>The patch the webhook answers with, applied by the API server to the Pod it sent, is
  the mutated Pod. \<open>json_patch::diff\<close> and the server's \<open>apply\<close> are parameters.\<close>

definition apply_inverts_diff :: "('patch \<Rightarrow> 'json \<Rightarrow> 'json option) \<Rightarrow> ('json \<Rightarrow> 'json \<Rightarrow> 'patch) \<Rightarrow> bool" where
  "apply_inverts_diff apply_patch diff \<longleftrightarrow> (\<forall>a b. apply_patch (diff a b) a = Some b)"

lemma build_pod_patch_Inr:
  assumes "build_pod_patch to_value diff pod img pull_policy port url sa hash aws = Inr patch"
  obtains original pod' modified where "to_value pod = Inr original"
    "mutate_pod (build_agent_container img pull_policy port url sa hash) aws pod = Inr pod'"
    "to_value pod' = Inr modified" "patch = diff original modified"
  using assms by (auto simp: build_pod_patch_def res_bind_eq_Inr)

lemma patch_yields_mutated_pod:
  assumes "apply_inverts_diff apply_patch diff"
    and "build_pod_patch to_value diff pod img pull_policy port url sa hash aws = Inr patch"
  shows "\<exists>original pod' modified. to_value pod = Inr original \<and>
     mutate_pod (build_agent_container img pull_policy port url sa hash) aws pod = Inr pod' \<and>
     to_value pod' = Inr modified \<and> apply_patch patch original = Some modified"
  using assms(1) build_pod_patch_Inr [OF assms(2)] unfolding apply_inverts_diff_def by metis

section \<open>A variable set twice escapes the injection\<close>

lemma duplicate_variable_escapes_injection:
  assumes "inject_aws_into_app_container aws c = Inr c'" "2 \<le> count_list (map env_name (env_of c)) n"
  shows "effective_env (env_of c') n = effective_env (env_of c) n"
proof -
  have "2 \<le> length (entries_of (env_of c) n)" using assms(2) by (simp add: entries_count)
  then obtain e f es where "entries_of (env_of c) n = e # f # es"
    by (metis One_nat_def Suc_1 Suc_le_length_iff)
  moreover have "c' = credentialed aws c" using assms(1) by (simp add: inject_eq split: if_splits)
  ultimately show ?thesis by (simp add: effective_env_entries credentialed_entries split: option.split)
qed

end
