(* ===== verification/Environment.thy ===== *)
theory Environment
  imports Rust_Strings
begin

text \<open>
  The process environment, which every component reads its configuration from, and
  \<open>kif-api/src/shared.rs\<close>. \<open>std::env::var\<close> is a partial map: a variable that is not set
  or is not UTF-8 is an error there and \<open>None\<close> here. Reading a file is a parameter that
  maps a path to its contents or to an I/O error.
\<close>

type_synonym environ = "string \<Rightarrow> string option"

text \<open>The idioms \<open>env::var(n).unwrap_or(d)\<close>,
  \<open>env::var(n).ok().and_then(|v| v.parse().ok()).unwrap_or(d)\<close> and
  \<open>env::var(n).context(msg)?\<close>.\<close>

definition env_or :: "environ \<Rightarrow> string \<Rightarrow> string \<Rightarrow> string" where
  "env_or vars n d = unwrap_or (vars n) d"

definition env_parse :: "(string \<Rightarrow> 'a option) \<Rightarrow> environ \<Rightarrow> string \<Rightarrow> 'a \<Rightarrow> 'a" where
  "env_parse parse vars n d = unwrap_or (Option.bind (vars n) parse) d"

definition env_required :: "environ \<Rightarrow> string \<Rightarrow> string \<Rightarrow> string res" where
  "env_required vars n msg = ok_or (vars n) msg"

lemma env_simps [simp]:
  "vars n = None \<Longrightarrow> env_or vars n d = d" "vars n = Some v \<Longrightarrow> env_or vars n d = v"
  "vars n = None \<Longrightarrow> env_parse parse vars n x = x"
  "vars n = Some v \<Longrightarrow> env_parse parse vars n x = unwrap_or (parse v) x"
  "vars n = None \<Longrightarrow> env_required vars n d = Inl d"
  "vars n = Some v \<Longrightarrow> env_required vars n d = Inr v"
  by (simp_all add: env_or_def env_parse_def env_required_def)

lemma env_required_iff: "env_required vars n msg = Inr v \<longleftrightarrow> vars n = Some v"
  by (simp add: env_required_def ok_or_eq_iff)

definition pod_namespace :: "(string \<Rightarrow> string res) \<Rightarrow> string res" where
  "pod_namespace read_file =
     (let path = ''/var/run/secrets/kubernetes.io/serviceaccount/namespace'' in
      case read_file path of
        Inl _ \<Rightarrow> Inl (''failed to read pod namespace file '' @ path)
      | Inr text \<Rightarrow>
          let ns = trim text in
          if ns = [] then Inl (''pod namespace file '' @ path @ '' was empty'') else Inr ns)"

lemma pod_namespace_Inr:
  "pod_namespace read_file = Inr ns \<longleftrightarrow>
     (\<exists>text. read_file ''/var/run/secrets/kubernetes.io/serviceaccount/namespace'' = Inr text \<and>
       ns = trim text \<and> ns \<noteq> [])"
  unfolding pod_namespace_def Let_def by (auto split: sum.splits if_splits)

end
