(* ===== verification/Webhook_Config.thy ===== *)
theory Webhook_Config
  imports Environment
begin

text \<open>
  \<open>kif-webhook/src/config.rs\<close>: the webhook's configuration. \<open>to_lowercase\<close> is compared
  with ASCII words only; no other letter's lower case is a letter of these words, so the
  ASCII version decides the same way. \<open>usize\<close> has 64 bits.
\<close>

datatype AdmissionFailureMode = FailMode | IgnoreMode

record WebhookConfig =
  https_port :: u16
  health_port :: u16
  tls_cert_path :: string
  tls_key_path :: string
  admission_failure_mode :: AdmissionFailureMode
  agent_image :: string
  agent_image_pull_policy :: string
  agent_port :: u16
  webhook_federation_url :: string
  reconcile_workers :: u64

definition parse_failure_mode :: "string \<Rightarrow> AdmissionFailureMode res" where
  "parse_failure_mode text =
     (let v = to_lowercase text in
      if v = ''fail'' then Inr FailMode
      else if v = ''ignore'' then Inr IgnoreMode
      else Inl (''invalid ADMISSION_FAILURE_MODE: '' @ v @ '' (expected Fail|Ignore)''))"

definition webhook_from_env :: "environ \<Rightarrow> WebhookConfig res" where
  "webhook_from_env vars =
     res_bind (parse_failure_mode (env_or vars ''ADMISSION_FAILURE_MODE'' ''fail'')) (\<lambda>mode. Inr
       \<lparr>https_port = env_parse parse_u16 vars ''HTTPS_PORT'' 9443,
        health_port = env_parse parse_u16 vars ''HEALTH_PORT'' 5003,
        tls_cert_path = env_or vars ''TLS_CERT_PATH'' ''/tls/tls.crt'',
        tls_key_path = env_or vars ''TLS_KEY_PATH'' ''/tls/tls.key'',
        admission_failure_mode = mode,
        agent_image =
          (case vars ''AGENT_IMAGE'' of
             Some v \<Rightarrow> v
           | None \<Rightarrow> ''kif-agent:'' @ env_or vars ''AGENT_IMAGE_TAG'' ''latest''),
        agent_image_pull_policy = env_or vars ''AGENT_IMAGE_PULL_POLICY'' ''IfNotPresent'',
        agent_port = env_parse parse_u16 vars ''AGENT_PORT'' 5004,
        webhook_federation_url =
          env_or vars ''FEDERATION_SERVICE_HOST'' ''http://kif-federation'' @ '':'' @
          env_or vars ''FEDERATION_SERVICE_PORT'' ''5001'',
        reconcile_workers = env_parse parse_u64 vars ''RECONCILE_WORKERS'' 4\<rparr>)"

text \<open>The environment is refused for one reason only; a number that does not parse or does
  not fit falls back to its default, and the default mode is the strict one.\<close>

lemma parse_failure_mode_Inr:
  "parse_failure_mode s = Inr mode \<longleftrightarrow>
     to_lowercase s = (case mode of FailMode \<Rightarrow> ''fail'' | IgnoreMode \<Rightarrow> ''ignore'')"
  by (cases mode) (auto simp: parse_failure_mode_def Let_def)

lemma webhook_from_env_Inr:
  "webhook_from_env vars = Inr cfg \<Longrightarrow>
     to_lowercase (env_or vars ''ADMISSION_FAILURE_MODE'' ''fail'') =
       (case admission_failure_mode cfg of FailMode \<Rightarrow> ''fail'' | IgnoreMode \<Rightarrow> ''ignore'')"
  by (auto simp: webhook_from_env_def res_bind_eq_Inr parse_failure_mode_Inr)

lemma to_lowercase_fail: "to_lowercase ''fail'' = ''fail''" "to_lowercase ''ignore'' = ''ignore''"
  by (simp_all add: to_lowercase_def lower_char_def)

lemma webhook_mode_strict_unless_ignore:
  "case webhook_from_env vars of
     Inr cfg \<Rightarrow> admission_failure_mode cfg =
       (if (case vars ''ADMISSION_FAILURE_MODE'' of None \<Rightarrow> False | Some v \<Rightarrow> to_lowercase v = ''ignore'')
        then IgnoreMode else FailMode)
   | Inl e \<Rightarrow> (case vars ''ADMISSION_FAILURE_MODE'' of
       None \<Rightarrow> False
     | Some v \<Rightarrow> to_lowercase v \<notin> {''fail'', ''ignore''} \<and>
         e = ''invalid ADMISSION_FAILURE_MODE: '' @ to_lowercase v @ '' (expected Fail|Ignore)'')"
  by (cases "vars ''ADMISSION_FAILURE_MODE''")
    (auto simp: webhook_from_env_def parse_failure_mode_def Let_def to_lowercase_fail)

end
