(* ===== verification/Admission.thy ===== *)
theory Admission
  imports Kube Mutate Webhook_Config
begin

text \<open>
  The admission webhook: \<open>kif-webhook/src/admission.rs\<close>, the event it emits
  (\<open>k8s.rs\<close>) and its HTTP endpoints (\<open>http.rs\<close>). What the crates \<open>kube\<close>,
  \<open>serde_json\<close> and \<open>json-patch\<close> do with requests, responses and patches is the record
  \<open>webhook_lib\<close> of parameters; \<open>response_laws\<close> states what their documentation promises.
\<close>

section \<open>Requests and responses\<close>

datatype Operation = OpCreate | OpUpdate | OpDelete | OpConnect

record AdmissionRequest =
  req_uid :: string
  req_operation :: Operation
  req_namespace :: "string option"
  req_object :: "Pod option"

record 'patch AdmissionResponse =
  resp_uid :: string
  resp_allowed :: bool
  resp_message :: string
  resp_patch :: "'patch option"

record ('review, 'json, 'patch) webhook_lib =
  lib_try_into :: "'review \<Rightarrow> AdmissionRequest res"
  lib_response_from :: "AdmissionRequest \<Rightarrow> 'patch AdmissionResponse"
  lib_deny :: "string \<Rightarrow> 'patch AdmissionResponse \<Rightarrow> 'patch AdmissionResponse"
  lib_with_patch :: "'patch \<Rightarrow> 'patch AdmissionResponse \<Rightarrow> 'patch AdmissionResponse res"
  lib_to_value :: "Pod \<Rightarrow> 'json res"
  lib_diff :: "'json \<Rightarrow> 'json \<Rightarrow> 'patch"

text \<open>The documented behaviour of \<open>AdmissionResponse\<close>: a response made from a request
  answers it and carries no patch, \<open>deny\<close> denies with a reason, and \<open>with_patch\<close> adds a
  patch.\<close>

definition response_laws :: "('review, 'json, 'patch) webhook_lib \<Rightarrow> bool" where
  "response_laws lib \<longleftrightarrow>
     (\<forall>req. resp_uid (lib_response_from lib req) = req_uid req \<and>
        resp_patch (lib_response_from lib req) = None) \<and>
     (\<forall>m r. \<not> resp_allowed (lib_deny lib m r) \<and> resp_message (lib_deny lib m r) = m \<and>
        resp_uid (lib_deny lib m r) = resp_uid r \<and> resp_patch (lib_deny lib m r) = resp_patch r) \<and>
     (\<forall>p r r'. lib_with_patch lib p r = Inr r' \<longrightarrow> r' = r\<lparr>resp_patch := Some p\<rparr>)"

text \<open>A webhook whose library calls do not fail.\<close>

definition lib_total :: "('review, 'json, 'patch) webhook_lib \<Rightarrow> bool" where
  "lib_total lib \<longleftrightarrow>
     (\<forall>pod. is_ok (lib_to_value lib pod)) \<and> (\<forall>p r. is_ok (lib_with_patch lib p r))"

section \<open>The event\<close>

definition pod_event :: "string \<Rightarrow> string \<Rightarrow> string \<Rightarrow> string \<Rightarrow> string \<Rightarrow> KubeEvent" where
  "pod_event namespace pod_name reason event_type message =
     \<lparr>ev_metadata = default_ObjectMeta
        \<lparr>meta_generate_name := Some (pod_name @ ''-''), meta_namespace := Some namespace\<rparr>,
      ev_involved_object =
        \<lparr>or_api_version = Some ''v1'', or_kind = Some ''Pod'', or_name = Some pod_name,
         or_namespace = Some namespace\<rparr>,
      ev_reason = Some reason, ev_message = Some message, ev_type = Some event_type,
      ev_source_component = Some ''kif-webhook''\<rparr>"

definition emit_pod_event ::
  "kube_api \<Rightarrow> string \<Rightarrow> string \<Rightarrow> string \<Rightarrow> string \<Rightarrow> string \<Rightarrow> unit eff" where
  "emit_pod_event api namespace pod_name reason event_type message =
     (let ev = pod_event namespace pod_name reason event_type message in
      eff_bind (request (CreateEvent namespace ev) (\<lambda>log. api_create_event api log namespace ev))
        (\<lambda>_. eff_return ()))"

section \<open>The handler\<close>

text \<open>\<open>let _ = \<dots>.await\<close>: run an operation and drop its result.\<close>

definition discard :: "'a eff \<Rightarrow> unit eff" where
  "discard m log = (Inr (), snd (m log))"

definition fail_or_skip ::
  "('review, 'json, 'patch) webhook_lib \<Rightarrow> kube_api \<Rightarrow> WebhookConfig \<Rightarrow> AdmissionRequest \<Rightarrow>
     string \<Rightarrow> string \<Rightarrow> 'patch AdmissionResponse eff" where
  "fail_or_skip lib api cfg req pod_name message =
     (let resp = lib_response_from lib req in
      case admission_failure_mode cfg of
        FailMode \<Rightarrow> eff_return (lib_deny lib message (resp\<lparr>resp_allowed := False\<rparr>))
      | IgnoreMode \<Rightarrow>
          let resp = resp\<lparr>resp_allowed := True\<rparr>;
              ns = unwrap_or (req_namespace req) ''default'';
              msg = ''Injection skipped (ADMISSION_FAILURE_MODE=Ignore): '' @ message
          in eff_bind (discard
               (emit_pod_event api ns pod_name ''InjectionSkipped'' ''Warning'' msg))
               (\<lambda>_. eff_return resp))"

text \<open>The end of the handler: the binding is ready.\<close>

definition inject ::
  "('review, 'json, 'patch) webhook_lib \<Rightarrow> WebhookConfig \<Rightarrow> AdmissionRequest \<Rightarrow> Pod \<Rightarrow> string \<Rightarrow>
     ResolvedCloudRoleBinding \<Rightarrow> 'patch AdmissionResponse res" where
  "inject lib cfg req pod sa_name resolved =
     res_bind (ok_or (status_hash resolved)
        ''ResolvedCloudRoleBinding.status.configHash is required'') (\<lambda>hash.
     res_bind (ok_or (rcrb_aws resolved)
        ''AWS provider is required (current support is AWS only)'') (\<lambda>aws.
     res_bind (build_pod_patch (lib_to_value lib) (lib_diff lib) pod (agent_image cfg)
        (agent_image_pull_policy cfg) (agent_port cfg) (webhook_federation_url cfg) sa_name hash aws)
        (\<lambda>patch. with_context ''failed to set patch''
           (lib_with_patch lib patch ((lib_response_from lib req)\<lparr>resp_allowed := True\<rparr>)))))"

definition pod_sa_name :: "Pod \<Rightarrow> string" where
  "pod_sa_name pod =
     unwrap_or (Option.bind (pod_spec pod) ps_service_account_name) ''default''"

definition handle_create ::
  "('review, 'json, 'patch) webhook_lib \<Rightarrow> kube_api \<Rightarrow> WebhookConfig \<Rightarrow> AdmissionRequest \<Rightarrow> Pod \<Rightarrow>
     'patch AdmissionResponse eff" where
  "handle_create lib api cfg req pod =
     (let ns = unwrap_or (req_namespace req) ''default'';
          pod_name = unwrap_or (meta_name (pod_metadata pod)) ''unknown'';
          allow = (lib_response_from lib req)\<lparr>resp_allowed := True\<rparr>
      in if pod_has_container pod ''kif-agent'' then eff_return allow
         else
           let sa_name = pod_sa_name pod in
           eff_bind (request (GetRcrbOpt ns sa_name) (\<lambda>log. api_get_rcrb_opt api log ns sa_name))
             (\<lambda>found.
               case found of
                 None \<Rightarrow> eff_return allow
               | Some resolved \<Rightarrow>
                   if \<not> is_ready resolved
                   then fail_or_skip lib api cfg req pod_name
                     (''ResolvedCloudRoleBinding not Ready for '' @ ns @ ''/'' @ sa_name)
                   else eff_lift (inject lib cfg req pod sa_name resolved)))"

definition handle ::
  "('review, 'json, 'patch) webhook_lib \<Rightarrow> kube_api \<Rightarrow> WebhookConfig \<Rightarrow> 'review \<Rightarrow>
     'patch AdmissionResponse eff" where
  "handle lib api cfg review =
     eff_bind (eff_lift (with_context ''invalid AdmissionReview payload'' (lib_try_into lib review)))
       (\<lambda>req.
         if req_operation req \<noteq> OpCreate
         then eff_return ((lib_response_from lib req)\<lparr>resp_allowed := True\<rparr>)
         else eff_bind (eff_lift (ok_or (req_object req) ''missing pod object''))
                (handle_create lib api cfg req))"

section \<open>The HTTP endpoints\<close>

definition mutate_endpoint ::
  "('review, 'json, 'patch) webhook_lib \<Rightarrow> kube_api \<Rightarrow> WebhookConfig \<Rightarrow> 'review \<Rightarrow> call_log \<Rightarrow>
     nat \<times> (error + 'patch AdmissionResponse)" where
  "mutate_endpoint lib api cfg review log =
     (case fst (handle lib api cfg review log) of
        Inr resp \<Rightarrow> (200, Inr resp)
      | Inl e \<Rightarrow> (500, Inl e))"

definition webhook_startupz :: "bool \<Rightarrow> nat" where
  "webhook_startupz ready = (if ready then 200 else 503)"

section \<open>What the webhook decides\<close>

lemma handle_unfold:
  "handle lib api cfg review log =
     (case lib_try_into lib review of
        Inl _ \<Rightarrow> (Inl ''invalid AdmissionReview payload'', log)
      | Inr req \<Rightarrow>
          if req_operation req \<noteq> OpCreate
          then (Inr ((lib_response_from lib req)\<lparr>resp_allowed := True\<rparr>), log)
          else (case req_object req of
              None \<Rightarrow> (Inl ''missing pod object'', log)
            | Some pod \<Rightarrow> handle_create lib api cfg req pod log))"
  by (simp add: handle_def eff_bind_def split: sum.split option.split)

lemma emit_pod_event_log:
  "snd (emit_pod_event api ns pod_name reason ty msg log) =
     log @ [CreateEvent ns (pod_event ns pod_name reason ty msg)]"
  by (simp add: emit_pod_event_def Let_def eff_bind_def split: sum.split)

definition skip_event :: "AdmissionRequest \<Rightarrow> string \<Rightarrow> string \<Rightarrow> kube_call" where
  "skip_event req pod_name message =
     (let ns = unwrap_or (req_namespace req) ''default'' in
      CreateEvent ns (pod_event ns pod_name ''InjectionSkipped'' ''Warning''
        (''Injection skipped (ADMISSION_FAILURE_MODE=Ignore): '' @ message)))"

lemma fail_or_skip_eq:
  "fail_or_skip lib api cfg req pod_name message log =
     (case admission_failure_mode cfg of
        FailMode \<Rightarrow> (Inr (lib_deny lib message ((lib_response_from lib req)\<lparr>resp_allowed := False\<rparr>)), log)
      | IgnoreMode \<Rightarrow>
          (Inr ((lib_response_from lib req)\<lparr>resp_allowed := True\<rparr>),
           log @ [skip_event req pod_name message]))"
  by (simp add: fail_or_skip_def Let_def eff_bind_def discard_def emit_pod_event_log skip_event_def
      split: AdmissionFailureMode.split)

definition pod_display_name :: "Pod \<Rightarrow> string" where
  "pod_display_name pod = unwrap_or (meta_name (pod_metadata pod)) ''unknown''"

definition not_ready_message :: "string \<Rightarrow> string \<Rightarrow> string" where
  "not_ready_message ns sa = ''ResolvedCloudRoleBinding not Ready for '' @ ns @ ''/'' @ sa"

lemma handle_create_unfold:
  "handle_create lib api cfg req pod log =
     (let ns = unwrap_or (req_namespace req) ''default''; sa = pod_sa_name pod;
          allow = (lib_response_from lib req)\<lparr>resp_allowed := True\<rparr>; log' = log @ [GetRcrbOpt ns sa]
      in if pod_has_container pod ''kif-agent'' then (Inr allow, log)
         else (case api_get_rcrb_opt api log ns sa of
            Inl e \<Rightarrow> (Inl e, log')
          | Inr None \<Rightarrow> (Inr allow, log')
          | Inr (Some r) \<Rightarrow>
              if is_ready r then (inject lib cfg req pod sa r, log')
              else fail_or_skip lib api cfg req (pod_display_name pod) (not_ready_message ns sa) log'))"
  by (simp add: handle_create_def Let_def eff_bind_def pod_display_name_def not_ready_message_def
      split: sum.split option.split)

lemma inject_Inr:
  assumes "inject lib cfg req pod sa r = Inr resp"
  obtains hash aws patch where "status_hash r = Some hash" "rcrb_aws r = Some aws"
    "build_pod_patch (lib_to_value lib) (lib_diff lib) pod (agent_image cfg)
       (agent_image_pull_policy cfg) (agent_port cfg) (webhook_federation_url cfg) sa hash aws = Inr patch"
    "lib_with_patch lib patch ((lib_response_from lib req)\<lparr>resp_allowed := True\<rparr>) = Inr resp"
  using assms by (auto simp: inject_def res_bind_eq_Inr ok_or_eq_iff with_context_eq_iff)

lemma inject_response:
  assumes "response_laws lib" "inject lib cfg req pod sa r = Inr resp"
  shows "resp_allowed resp" "resp_patch resp \<noteq> None"
proof -
  from inject_Inr [OF assms(2)] obtain patch where
    "lib_with_patch lib patch ((lib_response_from lib req)\<lparr>resp_allowed := True\<rparr>) = Inr resp" .
  with assms(1) have "resp = (lib_response_from lib req)\<lparr>resp_allowed := True, resp_patch := Some patch\<rparr>"
    unfolding response_laws_def by metis
  then show "resp_allowed resp" "resp_patch resp \<noteq> None" by simp_all
qed

text \<open>The binding a review is decided by: the review creates a Pod without an agent, and
  the server has a resolved binding for its ServiceAccount.\<close>

definition governing ::
  "('review, 'json, 'patch) webhook_lib \<Rightarrow> kube_api \<Rightarrow> call_log \<Rightarrow> 'review \<Rightarrow>
     (AdmissionRequest \<times> Pod \<times> ResolvedCloudRoleBinding) option" where
  "governing lib api log review =
     (case lib_try_into lib review of
        Inl _ \<Rightarrow> None
      | Inr req \<Rightarrow>
          (case req_object req of
             None \<Rightarrow> None
           | Some pod \<Rightarrow>
               if req_operation req = OpCreate \<and> \<not> pod_has_container pod ''kif-agent''
               then (case api_get_rcrb_opt api log (unwrap_or (req_namespace req) ''default'')
                       (pod_sa_name pod) of
                       Inr (Some r) \<Rightarrow> Some (req, pod, r)
                     | _ \<Rightarrow> None)
               else None))"

text \<open>Every run of the handler that ends in a response, by the binding that governs it.\<close>

lemma handle_Inr_cases:
  assumes "fst (handle lib api cfg review log) = Inr resp"
  obtains (free) req where "governing lib api log review = None" "lib_try_into lib review = Inr req"
      "resp = (lib_response_from lib req)\<lparr>resp_allowed := True\<rparr>"
  | (unready) req pod r where "governing lib api log review = Some (req, pod, r)" "\<not> is_ready r"
      "lib_try_into lib review = Inr req"
      "resp = (case admission_failure_mode cfg of
         FailMode \<Rightarrow> lib_deny lib
           (not_ready_message (unwrap_or (req_namespace req) ''default'') (pod_sa_name pod))
           ((lib_response_from lib req)\<lparr>resp_allowed := False\<rparr>)
       | IgnoreMode \<Rightarrow> (lib_response_from lib req)\<lparr>resp_allowed := True\<rparr>)"
  | (ready) req pod r where "governing lib api log review = Some (req, pod, r)" "is_ready r"
      "lib_try_into lib review = Inr req" "inject lib cfg req pod (pod_sa_name pod) r = Inr resp"
proof -
  obtain req where req: "lib_try_into lib review = Inr req"
    using assms by (auto simp: handle_unfold split: sum.splits)
  show thesis
  proof (cases "req_operation req = OpCreate")
    case False
    with assms req free show ?thesis
      by (simp add: handle_unfold governing_def split: option.split)
  next
    case create: True
    with assms req obtain pod where pod: "req_object req = Some pod"
      "fst (handle_create lib api cfg req pod log) = Inr resp"
      by (auto simp: handle_unfold split: option.splits)
    show ?thesis
    proof (cases "pod_has_container pod ''kif-agent''")
      case True
      with pod req create free show ?thesis
        by (simp add: handle_create_unfold Let_def governing_def)
    next
      case fresh: False
      let ?found = "api_get_rcrb_opt api log (unwrap_or (req_namespace req) ''default'') (pod_sa_name pod)"
      from fresh pod(2) obtain found where found: "?found = Inr found"
        by (auto simp: handle_create_unfold Let_def split: sum.splits)
      show ?thesis
      proof (cases found)
        case None
        with pod req create fresh found free show ?thesis
          by (simp add: handle_create_unfold Let_def governing_def)
      next
        case (Some r)
        then have g: "governing lib api log review = Some (req, pod, r)"
          using pod req create fresh found by (simp add: governing_def)
        show ?thesis
        proof (cases "is_ready r")
          case True
          with g req pod(2) fresh found Some ready show ?thesis
            by (simp add: handle_create_unfold Let_def)
        next
          case False
          with g req pod(2) fresh found Some unready show ?thesis
            by (cases "admission_failure_mode cfg")
              (simp_all add: handle_create_unfold Let_def fail_or_skip_eq)
        qed
      qed
    qed
  qed
qed

lemma denies_iff:
  assumes "response_laws lib" "fst (handle lib api cfg review log) = Inr resp"
  shows "\<not> resp_allowed resp \<longleftrightarrow> admission_failure_mode cfg = FailMode \<and>
     (\<exists>req pod r. governing lib api log review = Some (req, pod, r) \<and> \<not> is_ready r)"
  using assms(2)
proof (cases rule: handle_Inr_cases)
  case (unready req pod r)
  with assms(1) show ?thesis by (cases "admission_failure_mode cfg") (simp_all add: response_laws_def)
next
  case (ready req pod r)
  with inject_response [OF assms(1) ready(4)] show ?thesis by simp
qed simp

lemma patches_iff:
  assumes "response_laws lib" "fst (handle lib api cfg review log) = Inr resp"
  shows "resp_patch resp \<noteq> None \<longleftrightarrow>
     (\<exists>req pod r. governing lib api log review = Some (req, pod, r) \<and> is_ready r)"
  using assms(2)
proof (cases rule: handle_Inr_cases)
  case (free req)
  with assms(1) show ?thesis by (simp add: response_laws_def)
next
  case (unready req pod r)
  with assms(1) show ?thesis by (cases "admission_failure_mode cfg") (simp_all add: response_laws_def)
next
  case (ready req pod r)
  with inject_response [OF assms(1) ready(4)] show ?thesis by simp
qed

text \<open>
  C19: When the admission handler answers, it denies exactly when the mode is Fail and the
  resolved binding that governs the new Pod is not ready, and it patches exactly when that
  binding is ready.
\<close>

theorem admission_decision:
  assumes "response_laws lib" "fst (handle lib api cfg review log) = Inr resp"
  shows "(\<not> resp_allowed resp \<longleftrightarrow> admission_failure_mode cfg = FailMode \<and>
       (\<exists>req pod r. governing lib api log review = Some (req, pod, r) \<and> \<not> is_ready r)) \<and>
     (resp_patch resp \<noteq> None \<longleftrightarrow>
       (\<exists>req pod r. governing lib api log review = Some (req, pod, r) \<and> is_ready r))"
  using denies_iff [OF assms] patches_iff [OF assms] by blast

lemma unmanaged_pod_admitted_unchanged:
  assumes "response_laws lib" "lib_try_into lib review = Inr req" "req_operation req = OpCreate"
    and "req_object req = Some pod" "\<not> pod_has_container pod ''kif-agent''"
    and "api_get_rcrb_opt api log (unwrap_or (req_namespace req) ''default'') (pod_sa_name pod) = Inr None"
  shows "\<exists>resp. handle lib api cfg review log =
       (Inr resp, log @ [GetRcrbOpt (unwrap_or (req_namespace req) ''default'') (pod_sa_name pod)]) \<and>
     resp_allowed resp \<and> resp_patch resp = None \<and> resp_uid resp = req_uid req"
  using assms by (simp add: handle_unfold handle_create_unfold Let_def response_laws_def)

text \<open>
  C21: A Pod that has already been mutated is admitted as it is, without a request to the
  API server: the webhook applied twice equals the webhook applied once.
\<close>

theorem readmission_idempotent:
  assumes "response_laws lib" "lib_try_into lib review = Inr req" "req_object req = Some pod'"
    and "mutate_pod (build_agent_container img pull_policy port url sa hash) aws pod = Inr pod'"
  shows "\<exists>resp. handle lib api cfg review log = (Inr resp, log) \<and>
     resp_allowed resp \<and> resp_patch resp = None"
proof -
  obtain spec where spec: "pod' = pod\<lparr>pod_spec := Some
      (mutated_spec (build_agent_container img pull_policy port url sa hash) aws spec)\<rparr>"
    using mutate_pod_Inr [OF assms(4) agent_name] by metis
  have "pod_has_container pod' ''kif-agent''"
    by (simp add: spec pod_has_container_def mutated_spec_def)
  with assms(1-3) show ?thesis
    by (simp add: handle_unfold handle_create_unfold response_laws_def)
qed

text \<open>
  C20: A patch in an admission response, applied to the Pod of the request, gives the Pod
  mutated with an agent and AWS settings taken from the resolved binding of that Pod's own
  namespace and ServiceAccount, its configuration hash included, and the response answers
  that request's uid.
\<close>

theorem patch_carries_governing_binding:
  assumes "response_laws lib" "apply_inverts_diff apply_patch (lib_diff lib)"
    and "fst (handle lib api cfg review log) = Inr resp" "resp_patch resp = Some patch"
  shows "\<exists>req pod r hash aws pod' original modified.
     governing lib api log review = Some (req, pod, r) \<and> resp_uid resp = req_uid req \<and>
     status_hash r = Some hash \<and> rcrb_aws r = Some aws \<and>
     mutate_pod (build_agent_container (agent_image cfg) (agent_image_pull_policy cfg)
       (agent_port cfg) (webhook_federation_url cfg) (pod_sa_name pod) hash) aws pod = Inr pod' \<and>
     lib_to_value lib pod = Inr original \<and> lib_to_value lib pod' = Inr modified \<and>
     apply_patch patch original = Some modified"
  using assms(3)
proof (cases rule: handle_Inr_cases)
  case (free req)
  with assms(1,4) show ?thesis by (simp add: response_laws_def)
next
  case (unready req pod r)
  with assms(1,4) show ?thesis by (cases "admission_failure_mode cfg") (simp_all add: response_laws_def)
next
  case (ready req pod r)
  from inject_Inr [OF ready(4)] obtain hash aws p where
    p: "status_hash r = Some hash" "rcrb_aws r = Some aws"
      "build_pod_patch (lib_to_value lib) (lib_diff lib) pod (agent_image cfg)
         (agent_image_pull_policy cfg) (agent_port cfg) (webhook_federation_url cfg)
         (pod_sa_name pod) hash aws = Inr p"
      "lib_with_patch lib p ((lib_response_from lib req)\<lparr>resp_allowed := True\<rparr>) = Inr resp" .
  from assms(1) p(4) have resp: "resp = (lib_response_from lib req)\<lparr>resp_allowed := True, resp_patch := Some p\<rparr>"
    unfolding response_laws_def by metis
  with assms(1,4) have "patch = p" "resp_uid resp = req_uid req"
    by (simp_all add: response_laws_def)
  with ready(1) p(1,2) assms(2) build_pod_patch_Inr [OF p(3)] show ?thesis
    unfolding apply_inverts_diff_def by metis
qed

section \<open>What the webhook does to the cluster\<close>

lemma governing_Some:
  "governing lib api log review = Some (req, pod, r) \<longleftrightarrow>
     lib_try_into lib review = Inr req \<and> req_operation req = OpCreate \<and> req_object req = Some pod \<and>
     \<not> pod_has_container pod ''kif-agent'' \<and>
     api_get_rcrb_opt api log (unwrap_or (req_namespace req) ''default'') (pod_sa_name pod) = Inr (Some r)"
  by (auto simp: governing_def split: sum.splits option.splits if_splits)

text \<open>The requests of a run: a lookup for every new Pod without an agent, then an event
  where the binding is not ready and the mode is to ignore that.\<close>

definition admission_trace ::
  "('review, 'json, 'patch) webhook_lib \<Rightarrow> kube_api \<Rightarrow> WebhookConfig \<Rightarrow> call_log \<Rightarrow> 'review \<Rightarrow>
     kube_call list" where
  "admission_trace lib api cfg log review =
     (case lib_try_into lib review of
        Inl _ \<Rightarrow> []
      | Inr req \<Rightarrow>
          (case req_object req of
             None \<Rightarrow> []
           | Some pod \<Rightarrow>
               if req_operation req \<noteq> OpCreate \<or> pod_has_container pod ''kif-agent'' then []
               else [GetRcrbOpt (unwrap_or (req_namespace req) ''default'') (pod_sa_name pod)])) @
     (case governing lib api log review of
        None \<Rightarrow> []
      | Some (req, pod, r) \<Rightarrow>
          if is_ready r \<or> admission_failure_mode cfg = FailMode then []
          else [skip_event req (pod_display_name pod)
            (not_ready_message (unwrap_or (req_namespace req) ''default'') (pod_sa_name pod))])"

lemma admission_effects:
  "snd (handle lib api cfg review log) = log @ admission_trace lib api cfg log review"
  by (simp add: handle_unfold handle_create_unfold Let_def admission_trace_def governing_def
      fail_or_skip_eq split: sum.split option.split AdmissionFailureMode.split)

lemma event_failure_is_harmless:
  "mutate_endpoint lib (api\<lparr>api_create_event := answer\<rparr>) cfg review log =
     mutate_endpoint lib api cfg review log"
proof -
  have "handle lib (api\<lparr>api_create_event := answer\<rparr>) cfg review log = handle lib api cfg review log"
    by (simp add: handle_unfold handle_create_unfold Let_def fail_or_skip_eq
        split: sum.split option.split AdmissionFailureMode.split)
  then show ?thesis by (simp add: mutate_endpoint_def)
qed

end
