(* ===== verification/Utf8.thy ===== *)
theory Utf8
  imports Rust_Strings
begin

text \<open>
  \<open>str::from_utf8\<close> and \<open>String::from_utf8\<close> of Rust's standard library: which byte
  sequences are UTF-8, and the text of the error for one that is not.
\<close>

type_synonym byte_nat = nat

text \<open>The width a leading byte announces and the range of the second byte.\<close>

definition utf8_lead :: "byte_nat \<Rightarrow> (nat \<times> byte_nat \<times> byte_nat) option" where
  "utf8_lead b =
     (if 0xC2 \<le> b \<and> b \<le> 0xDF then Some (2, 0x80, 0xBF)
      else if b = 0xE0 then Some (3, 0xA0, 0xBF)
      else if b = 0xED then Some (3, 0x80, 0x9F)
      else if 0xE1 \<le> b \<and> b \<le> 0xEF then Some (3, 0x80, 0xBF)
      else if b = 0xF0 then Some (4, 0x90, 0xBF)
      else if 0xF1 \<le> b \<and> b \<le> 0xF3 then Some (4, 0x80, 0xBF)
      else if b = 0xF4 then Some (4, 0x80, 0x8F)
      else None)"

text \<open>An error is the length of the invalid sequence, or \<open>None\<close> when the input ends in the
  middle of a character.\<close>

fun utf8_conts :: "nat \<Rightarrow> nat \<Rightarrow> byte_nat list \<Rightarrow> nat option option" where
  "utf8_conts 0 seen bs = None"
| "utf8_conts (Suc k) seen [] = Some None"
| "utf8_conts (Suc k) seen (b # bs) =
     (if 0x80 \<le> b \<and> b \<le> 0xBF then utf8_conts k (seen + 1) bs else Some (Some seen))"

fun utf8_char :: "byte_nat list \<Rightarrow> nat option + nat" where
  "utf8_char [] = Inl None"
| "utf8_char (b # bs) =
     (if b < 0x80 then Inr 1
      else (case utf8_lead b of
          None \<Rightarrow> Inl (Some 1)
        | Some (width, lo, hi) \<Rightarrow>
            (case bs of
               [] \<Rightarrow> Inl None
             | c # cs \<Rightarrow>
                 if lo \<le> c \<and> c \<le> hi
                 then (case utf8_conts (width - 2) 2 cs of None \<Rightarrow> Inr width | Some e \<Rightarrow> Inl e)
                 else Inl (Some 1))))"

lemma utf8_char_pos: "utf8_char bs = Inr w \<Longrightarrow> 0 < w \<and> bs \<noteq> []"
  by (cases bs) (auto simp: utf8_lead_def split: if_splits option.splits list.splits)

function utf8_error :: "nat \<Rightarrow> byte_nat list \<Rightarrow> (nat \<times> nat option) option" where
  "utf8_error valid_up_to bs =
     (if bs = [] then None
      else (case utf8_char bs of
          Inl e \<Rightarrow> Some (valid_up_to, e)
        | Inr w \<Rightarrow> utf8_error (valid_up_to + w) (drop w bs)))"
  by pat_completeness auto
termination
  by (relation "measure (\<lambda>(i, bs). length bs)") (auto dest: utf8_char_pos)

declare utf8_error.simps [simp del]

definition bytes_of :: "string \<Rightarrow> byte_nat list" where
  "bytes_of s = map of_char s"

definition valid_utf8 :: "string \<Rightarrow> bool" where
  "valid_utf8 s \<longleftrightarrow> utf8_error 0 (bytes_of s) = None"

definition from_utf8 :: "string \<Rightarrow> string res" where
  "from_utf8 s =
     (case utf8_error 0 (bytes_of s) of
        None \<Rightarrow> Inr s
      | Some (i, None) \<Rightarrow> Inl (''incomplete utf-8 byte sequence from index '' @ show_nat i)
      | Some (i, Some n) \<Rightarrow>
          Inl (''invalid utf-8 sequence of '' @ show_nat n @ '' bytes from index '' @ show_nat i))"

lemma from_utf8_Inr: "from_utf8 s = Inr t \<longleftrightarrow> t = s \<and> valid_utf8 s"
  by (auto simp: from_utf8_def valid_utf8_def split: option.splits)

lemma utf8_error_ascii: "list_all (\<lambda>b. b < 0x80) bs \<Longrightarrow> utf8_error i bs = None"
proof (induction bs arbitrary: i)
  case Nil
  show ?case by (simp add: utf8_error.simps)
next
  case (Cons b bs)
  then show ?case by (subst utf8_error.simps) simp
qed

definition ascii :: "string \<Rightarrow> bool" where
  "ascii s \<longleftrightarrow> list_all (\<lambda>c. (of_char c :: nat) < 0x80) s"

lemma ascii_valid: "ascii s \<Longrightarrow> valid_utf8 s"
  by (simp add: ascii_def valid_utf8_def bytes_of_def utf8_error_ascii list_all_length)

lemma ascii_append [simp]: "ascii (s @ t) \<longleftrightarrow> ascii s \<and> ascii t"
  by (simp add: ascii_def)

lemma ascii_show_nat: "ascii (show_nat n)"
proof (induction n rule: show_nat.induct)
  case (1 n)
  have "n mod 10 < 80" using mod_less_divisor [of 10 n] by linarith
  with 1 show ?case by (simp add: show_nat.simps [of n] ascii_def digit_char_def)
qed

end
