(* ===== verification/Json.thy ===== *)
theory Json
  imports BTree_Map "HOL-Library.Countable"
begin

text \<open>
  JSON values and what serde derives for a struct: a value is the syntax tree of a JSON
  text, an object the list of its entries in their order, repetitions included. A derived
  \<open>Serialize\<close> writes the fields in the order of the declaration; a derived \<open>Deserialize\<close>
  accepts an object (unknown entries are ignored, a repeated known one is an error) or an
  array of the values of the fields. Reading and writing the text itself is the crate
  \<open>serde_json\<close>: the record \<open>json_text\<close> of parameters. A decoder
  only says that it fails; \<open>jt_error\<close> stands for the text of the error.
\<close>

datatype json =
    JNull
  | JBool bool
  | JNum int
  | JFloat string
  | JStr string
  | JArr "json list"
  | JObj "(string \<times> json) list"

instance json :: countable
  by countable_datatype

record json_text =
  jt_print :: "json \<Rightarrow> string"
  jt_parse :: "string \<Rightarrow> json option"
  jt_error :: "string \<Rightarrow> string"

text \<open>The reader refuses what is nested more than 127 deep.\<close>

fun json_depth :: "json \<Rightarrow> nat" where
  "json_depth (JArr js) = Suc (fold max (map json_depth js) 0)"
| "json_depth (JObj kvs) = Suc (fold max (map (\<lambda>kv. json_depth (snd kv)) kvs) 0)"
| "json_depth _ = 0"

definition reads_back :: "json_text \<Rightarrow> bool" where
  "reads_back jt \<longleftrightarrow> (\<forall>j. json_depth j \<le> 127 \<longrightarrow> jt_parse jt (jt_print jt j) = Some j)"

lemma depth_obj:
  assumes "\<And>k j. (k, j) \<in> set kvs \<Longrightarrow> json_depth j \<le> n"
  shows "json_depth (JObj kvs) \<le> Suc n"
proof -
  have "fold max ds d \<le> n" if "\<forall>e \<in> set ds. e \<le> n" "d \<le> n" for ds and d :: nat
    using that by (induction ds arbitrary: d) auto
  moreover from assms have "\<forall>d \<in> set (map (\<lambda>kv. json_depth (snd kv)) kvs). d \<le> n" by auto
  ultimately show ?thesis by simp
qed

lemma reads_backD: "reads_back jt \<Longrightarrow> json_depth j \<le> 127 \<Longrightarrow> jt_parse jt (jt_print jt j) = Some j"
  by (simp add: reads_back_def)

lemma print_inject:
  assumes "reads_back jt" "json_depth j \<le> 127" "json_depth k \<le> 127"
  shows "jt_print jt j = jt_print jt k \<longleftrightarrow> j = k"
  using reads_backD [OF assms(1,2)] reads_backD [OF assms(1,3)] by (metis option.inject)

section \<open>Fields\<close>

datatype fields = MapFields "(string \<times> json) list" | SeqFields "(string \<times> json) list"

fun entries :: "fields \<Rightarrow> (string \<times> json) list" where
  "entries (MapFields kvs) = kvs"
| "entries (SeqFields kvs) = kvs"

text \<open>The fields of a struct with these names.\<close>

fun as_fields :: "string list \<Rightarrow> json \<Rightarrow> fields option" where
  "as_fields names (JObj kvs) =
     (if distinct (filter (\<lambda>n. n \<in> set names) (map fst kvs)) then Some (MapFields kvs) else None)"
| "as_fields names (JArr js) =
     (if length js \<le> length names then Some (SeqFields (zip names js)) else None)"
| "as_fields names _ = None"

text \<open>\<open>Option\<close>, a plain field, an \<open>Option\<close> field, and a field with \<open>serde(default)\<close>.\<close>

definition opt_dec :: "(json \<Rightarrow> 'a option) \<Rightarrow> json \<Rightarrow> 'a option option" where
  "opt_dec dec j = (if j = JNull then Some None else map_option Some (dec j))"

definition required :: "(json \<Rightarrow> 'a option) \<Rightarrow> string \<Rightarrow> fields \<Rightarrow> 'a option" where
  "required dec n fs = Option.bind (map_of (entries fs) n) dec"

definition optional :: "(json \<Rightarrow> 'a option) \<Rightarrow> string \<Rightarrow> fields \<Rightarrow> 'a option option" where
  "optional dec n fs =
     (case map_of (entries fs) n of
        Some j \<Rightarrow> opt_dec dec j
      | None \<Rightarrow> (case fs of MapFields _ \<Rightarrow> Some None | SeqFields _ \<Rightarrow> None))"

definition defaulted :: "'a \<Rightarrow> (json \<Rightarrow> 'a option) \<Rightarrow> string \<Rightarrow> fields \<Rightarrow> 'a option" where
  "defaulted d dec n fs = (case map_of (entries fs) n of Some j \<Rightarrow> dec j | None \<Rightarrow> Some d)"

text \<open>An \<open>Option\<close> that is written as null, and one with \<open>skip_serializing_if\<close>.\<close>

definition opt_enc :: "('a \<Rightarrow> json) \<Rightarrow> 'a option \<Rightarrow> json" where
  "opt_enc enc x = (case x of None \<Rightarrow> JNull | Some v \<Rightarrow> enc v)"

definition skip_none :: "string \<Rightarrow> ('a \<Rightarrow> json) \<Rightarrow> 'a option \<Rightarrow> (string \<times> json) list" where
  "skip_none n enc x = (case x of None \<Rightarrow> [] | Some v \<Rightarrow> [(n, enc v)])"

lemma skip_none_simps [simp]:
  "skip_none n enc None = []" "skip_none n enc (Some v) = [(n, enc v)]"
  by (simp_all add: skip_none_def)

lemmas field_defs = required_def optional_def defaulted_def opt_dec_def

section \<open>The interface of an encoding\<close>

text \<open>What the two halves of a derived encoding promise each other.\<close>

locale codec =
  fixes enc :: "'a \<Rightarrow> json" and dec :: "json \<Rightarrow> 'a option" and wf :: "'a \<Rightarrow> bool"
  assumes dec_enc: "wf x \<Longrightarrow> dec (enc x) = Some x"
    and enc_not_null: "enc x \<noteq> JNull"
begin

lemma enc_inject: "wf x \<Longrightarrow> wf y \<Longrightarrow> enc x = enc y \<longleftrightarrow> x = y"
  using dec_enc by (metis option.inject)

lemma opt_dec_enc: "pred_option wf x \<Longrightarrow> opt_dec dec (opt_enc enc x) = Some x"
  by (cases x) (simp_all add: opt_dec_def opt_enc_def dec_enc enc_not_null)

lemma opt_dec_Some: "wf x \<Longrightarrow> opt_dec dec (enc x) = Some (Some x)"
  by (simp add: opt_dec_def dec_enc enc_not_null)

lemma defaulted_skip:
  assumes "pred_option wf x" "n \<notin> fst ` set pre" "n \<notin> fst ` set post"
  shows "defaulted None (opt_dec dec) n (MapFields (pre @ skip_none n enc x @ post)) = Some x"
proof -
  have "map_of pre n = None" "map_of post n = None"
    using assms(2,3) by (auto simp: map_of_eq_None_iff)
  then show ?thesis
    using assms(1) by (cases x) (simp_all add: defaulted_def opt_dec_Some map_add_def)
qed

end

section \<open>Strings, booleans, numbers and maps\<close>

fun dec_str :: "json \<Rightarrow> string option" where
  "dec_str (JStr s) = Some s" | "dec_str _ = None"

fun dec_bool :: "json \<Rightarrow> bool option" where
  "dec_bool (JBool b) = Some b" | "dec_bool _ = None"

definition enc_u64 :: "u64 \<Rightarrow> json" where
  "enc_u64 w = JNum (uint w)"

fun dec_u64 :: "json \<Rightarrow> u64 option" where
  "dec_u64 (JNum n) = (if 0 \<le> n \<and> n < 2 ^ 64 then Some (word_of_int n) else None)"
| "dec_u64 _ = None"

text \<open>\<open>BTreeMap<String, String>\<close>: a later entry replaces an earlier one.\<close>

definition enc_map :: "(string, string) btree \<Rightarrow> json" where
  "enc_map m = JObj (map (\<lambda>(k, v). (k, JStr v)) m)"

fun dec_entries :: "(string \<times> json) list \<Rightarrow> (string, string) btree \<Rightarrow> (string, string) btree option" where
  "dec_entries [] m = Some m"
| "dec_entries ((k, j) # kvs) m = Option.bind (dec_str j) (\<lambda>v. dec_entries kvs (bt_insert k v m))"

fun dec_map :: "json \<Rightarrow> (string, string) btree option" where
  "dec_map (JObj kvs) = dec_entries kvs []" | "dec_map _ = None"

interpretation str: codec JStr dec_str "\<lambda>_. True"
  by unfold_locales simp_all

interpretation boolean: codec JBool dec_bool "\<lambda>_. True"
  by unfold_locales simp_all

interpretation u64: codec enc_u64 dec_u64 "\<lambda>_. True"
proof unfold_locales
  fix w :: u64
  have "0 \<le> uint w" "uint w < 2 ^ 64" using uint_bounded [of w] by simp_all
  then show "dec_u64 (enc_u64 w) = Some w" by (simp add: enc_u64_def)
qed (simp add: enc_u64_def)

lemma dec_entries_enc:
  "dec_entries (map (\<lambda>(k, v). (k, JStr v)) kvs) m = Some (fold (\<lambda>(k, v). bt_insert k v) kvs m)"
  by (induction kvs arbitrary: m) auto

lemma dec_entries_wf: "dec_entries kvs m = Some m' \<Longrightarrow> bt_wf m \<Longrightarrow> bt_wf m'"
  by (induction kvs m rule: dec_entries.induct) (auto simp: bind_eq_Some_conv bt_wf_insert)

lemma dec_map_wf: "dec_map j = Some m \<Longrightarrow> bt_wf m"
  by (cases j) (auto dest: dec_entries_wf simp: btm.invar_empty)

lemma bt_rebuild:
  assumes "bt_wf m"
  shows "fold (\<lambda>(k, v). bt_insert k v) m [] = m"
proof (rule bt_canonical)
  have "distinct (map fst m)" using assms by (simp add: bt_wf_def)
  then show "map_of (fold (\<lambda>(k, v). bt_insert k v) m []) = map_of m"
    using btm.look_fold [OF btm.invar_empty, of m] by simp
qed (simp_all add: btm.invar_fold btm.invar_empty assms)

interpretation bmap: codec enc_map dec_map bt_wf
  by unfold_locales (simp_all add: enc_map_def dec_entries_enc bt_rebuild)

lemma enc_map_inject: "enc_map m = enc_map m' \<longleftrightarrow> m = m'"
proof -
  have "inj (\<lambda>(k, v). (k :: string, JStr v))" by (auto simp: inj_def)
  then show ?thesis by (simp add: enc_map_def inj_map_eq_map)
qed

lemma depth_simps [simp]: "json_depth (enc_u64 w) = 0" "json_depth (enc_map m) = 1"
proof -
  have "fold max (map (\<lambda>kv. json_depth (snd kv)) (map (\<lambda>(k, v). (k, JStr v)) kvs)) 0 = 0"
    for kvs :: "(string, string) btree"
    by (induction kvs) auto
  then show "json_depth (enc_map m) = 1" by (simp add: enc_map_def)
qed (simp add: enc_u64_def)

end
