(* ===== verification/Jwt.thy ===== *)
theory Jwt
  imports Utf8 Json
begin

text \<open>
  \<open>kif-federation/src/jwt.rs\<close>: the claims of a minted token, its signature, and the JWKS
  document of the signing key. A reading of \<open>SystemTime::now()\<close> is a number of
  nanoseconds since the epoch (negative before it). Cryptography, base64 and JSON are
  crates: the record \<open>jwt_lib\<close> of parameters. The addition of \<open>u64\<close> values wraps, as it
  does in the release profile the images are built with.
\<close>

type_synonym SystemTime = int

record SigningMaterial =
  kid :: string
  private_key_pem :: string

record KifK8s =
  k8s_namespace :: string
  k8s_service_account :: string
  k8s_pod :: "string option"

record KifClaims =
  kif_k8s :: "KifK8s option"
  kif_attributes :: "(string, string) btree option"

record AwsClaims =
  iss :: string
  sub :: string
  aud :: string
  iat :: u64
  nbf :: u64
  exp :: u64
  jti :: string
  kif :: "KifClaims option"

definition now_unix_seconds :: "SystemTime \<Rightarrow> u64" where
  "now_unix_seconds t = of_nat (nat t div 10 ^ 9)"

definition now_nanos :: "SystemTime \<Rightarrow> nat" where
  "now_nanos t = nat t"

text \<open>\<open>AwsClaims::new\<close>, which reads the clock twice.\<close>

definition new_claims ::
  "SystemTime \<Rightarrow> SystemTime \<Rightarrow> string \<Rightarrow> string \<Rightarrow> string \<Rightarrow> u64 \<Rightarrow> bool \<Rightarrow> string \<Rightarrow> string \<Rightarrow>
     string option \<Rightarrow> (string, string) btree option \<Rightarrow> AwsClaims" where
  "new_claims t1 t2 issuer subject audience ttl_seconds with_provenance namespace service_account
     pod_name extra_attributes =
     (let now = now_unix_seconds t1
      in \<lparr>iss = issuer, sub = subject, aud = audience, iat = now, nbf = now,
          exp = now + ttl_seconds,
          jti = ''kif-'' @ show_nat (now_nanos t2),
          kif =
            (if with_provenance \<or> extra_attributes \<noteq> None
             then Some
               \<lparr>kif_k8s =
                  (if with_provenance
                   then Some \<lparr>k8s_namespace = namespace, k8s_service_account = service_account,
                              k8s_pod = pod_name\<rparr>
                   else None),
                kif_attributes = extra_attributes\<rparr>
             else None)\<rparr>)"

section \<open>The payload\<close>

definition k8s_json :: "KifK8s \<Rightarrow> json" where
  "k8s_json k = JObj
     ([(''namespace'', JStr (k8s_namespace k)), (''service_account'', JStr (k8s_service_account k))] @
      skip_none ''pod'' JStr (k8s_pod k))"

definition kif_json :: "KifClaims \<Rightarrow> json" where
  "kif_json k = JObj
     (skip_none ''k8s'' k8s_json (kif_k8s k) @ skip_none ''attributes'' enc_map (kif_attributes k))"

definition claims_json :: "AwsClaims \<Rightarrow> json" where
  "claims_json c = JObj
     ([(''iss'', JStr (iss c)), (''sub'', JStr (sub c)), (''aud'', JStr (aud c)), (''iat'', enc_u64 (iat c)),
       (''nbf'', enc_u64 (nbf c)), (''exp'', enc_u64 (exp c)), (''jti'', JStr (jti c))] @
      skip_none ''kif'' kif_json (kif c))"

text \<open>The value a verifier finds under a path of names.\<close>

fun json_at :: "json \<Rightarrow> string list \<Rightarrow> json option" where
  "json_at j [] = Some j"
| "json_at (JObj kvs) (n # ns) = (case map_of kvs n of None \<Rightarrow> None | Some j \<Rightarrow> json_at j ns)"
| "json_at _ (n # ns) = None"

section \<open>Signatures and the JWKS document\<close>

record jwt_header =
  jwt_alg :: string
  jwt_kid :: "string option"

record ('key, 'jwk) jwt_lib =
  jl_key_from_rsa_pem :: "string \<Rightarrow> 'key res"
  jl_encode :: "jwt_header \<Rightarrow> json \<Rightarrow> 'key \<Rightarrow> string res"
  jl_public_parts :: "string \<Rightarrow> (string \<times> string) res"
  jl_base64_url :: "string \<Rightarrow> string"
  jl_jwk_from_value :: "(string \<times> string) list \<Rightarrow> 'jwk res"
  jl_jwks_to_string :: "'jwk list \<Rightarrow> string res"

definition sign_rs256 :: "('key, 'jwk, 'z) jwt_lib_scheme \<Rightarrow> SigningMaterial \<Rightarrow> AwsClaims \<Rightarrow> string res" where
  "sign_rs256 lib signing claims =
     res_bind (map_err (\<lambda>e. ''invalid rsa pem: '' @ e)
       (jl_key_from_rsa_pem lib (private_key_pem signing)))
       (jl_encode lib \<lparr>jwt_alg = ''RS256'', jwt_kid = Some (kid signing)\<rparr> (claims_json claims))"

definition jwks_json_from_private_pem ::
  "('key, 'jwk, 'z) jwt_lib_scheme \<Rightarrow> SigningMaterial \<Rightarrow> string res" where
  "jwks_json_from_private_pem lib signing =
     res_bind (map_err (\<lambda>e. ''parse pkcs8 pem: '' @ e) (jl_public_parts lib (private_key_pem signing)))
       (\<lambda>(n_bytes, e_bytes).
     res_bind (jl_jwk_from_value lib
         [(''kty'', ''RSA''), (''kid'', kid signing), (''use'', ''sig''), (''alg'', ''RS256''),
          (''n'', jl_base64_url lib n_bytes), (''e'', jl_base64_url lib e_bytes)])
       (\<lambda>jwk. jl_jwks_to_string lib [jwk]))"

section \<open>Lifetime and provenance of a token\<close>

lemma claims_fields [simp]:
  "iss (new_claims t1 t2 i s a ttl p n sa pod ex) = i"
  "sub (new_claims t1 t2 i s a ttl p n sa pod ex) = s"
  "aud (new_claims t1 t2 i s a ttl p n sa pod ex) = a"
  "iat (new_claims t1 t2 i s a ttl p n sa pod ex) = now_unix_seconds t1"
  "nbf (new_claims t1 t2 i s a ttl p n sa pod ex) = now_unix_seconds t1"
  "exp (new_claims t1 t2 i s a ttl p n sa pod ex) = now_unix_seconds t1 + ttl"
  "jti (new_claims t1 t2 i s a ttl p n sa pod ex) = ''kif-'' @ show_nat (now_nanos t2)"
  by (simp_all add: new_claims_def Let_def)

lemma word_add_lifetime:
  fixes a b :: u64
  shows "unat a + unat b < 2 ^ 64 \<Longrightarrow> unat (a + b) = unat a + unat b"
    and "2 ^ 64 \<le> unat a + unat b \<Longrightarrow> unat (a + b) = unat a + unat b - 2 ^ 64"
proof -
  have ab: "unat (a + b) = (unat a + unat b) mod 2 ^ 64" by (simp add: unat_word_ariths)
  then show "unat a + unat b < 2 ^ 64 \<Longrightarrow> unat (a + b) = unat a + unat b" by simp
  have "unat a < 2 ^ 64" "unat b < 2 ^ 64" using unsigned_less [of a] unsigned_less [of b] by simp_all
  with ab show "2 ^ 64 \<le> unat a + unat b \<Longrightarrow> unat (a + b) = unat a + unat b - 2 ^ 64"
    by (simp add: mod_if)
qed

text \<open>
  C34: The claims are valid from the moment of issue; they expire exactly the requested
  number of seconds later unless the 64-bit sum wraps around, in which case the token
  expires before it is issued.
\<close>

theorem token_lifetime:
  "let c = new_claims t1 t2 issuer subject audience ttl prov ns sa pod extra in
     iat c = nbf c \<and>
     (if unat (now_unix_seconds t1) + unat ttl < 2 ^ 64
      then unat (exp c) = unat (iat c) + unat ttl else exp c < iat c)"
proof (cases "unat (now_unix_seconds t1) + unat ttl < 2 ^ 64")
  case True
  then show ?thesis by (simp add: word_add_lifetime(1))
next
  case False
  then have "unat (now_unix_seconds t1 + ttl) = unat (now_unix_seconds t1) + unat ttl - 2 ^ 64"
    using word_add_lifetime(2) [of "now_unix_seconds t1" ttl] by simp
  moreover have "unat ttl < 2 ^ 64" using unsigned_less [of ttl] by simp
  ultimately have "now_unix_seconds t1 + ttl < now_unix_seconds t1"
    using False by (simp add: word_less_nat_alt)
  with False show ?thesis by simp
qed

lemma claims_kif:
  "kif (new_claims t1 t2 issuer subject audience ttl prov ns sa pod extra) =
     (if prov \<or> extra \<noteq> None
      then Some \<lparr>kif_k8s = (if prov then Some \<lparr>k8s_namespace = ns, k8s_service_account = sa, k8s_pod = pod\<rparr> else None),
                 kif_attributes = extra\<rparr>
      else None)"
  by (simp add: new_claims_def Let_def)

text \<open>
  C4: The JSON payload of a minted token has the issuer, subject, audience, identifier and
  times of the claims under their registered names: iat and nbf are the second of issue, exp
  this plus the lifetime; the provenance block kif.k8s with namespace, ServiceAccount and
  Pod is present exactly when provenance is wanted, kif.attributes exactly when there are
  extra attributes, and kif itself exactly when one of them is.
\<close>

theorem token_payload:
  "let v = claims_json (new_claims t1 t2 issuer subject audience ttl prov ns sa pod extra) in
     json_at v [''iss''] = Some (JStr issuer) \<and> json_at v [''sub''] = Some (JStr subject) \<and>
     json_at v [''aud''] = Some (JStr audience) \<and>
     json_at v [''iat''] = Some (enc_u64 (now_unix_seconds t1)) \<and>
     json_at v [''nbf''] = Some (enc_u64 (now_unix_seconds t1)) \<and>
     json_at v [''exp''] = Some (enc_u64 (now_unix_seconds t1 + ttl)) \<and>
     json_at v [''jti''] = Some (JStr (''kif-'' @ show_nat (now_nanos t2))) \<and>
     (json_at v [''kif''] = None \<longleftrightarrow> \<not> prov \<and> extra = None) \<and>
     json_at v [''kif'', ''k8s'', ''namespace''] = (if prov then Some (JStr ns) else None) \<and>
     json_at v [''kif'', ''k8s'', ''service_account''] = (if prov then Some (JStr sa) else None) \<and>
     json_at v [''kif'', ''k8s'', ''pod''] = (if prov then map_option JStr pod else None) \<and>
     json_at v [''kif'', ''attributes''] = map_option enc_map extra"
  unfolding Let_def claims_json_def
  by (cases prov; cases extra; cases pod) (simp_all add: claims_kif kif_json_def k8s_json_def)

text \<open>The key a JWKS document offers: what a verifier needs to check a token.\<close>

lemma sign_rs256_Inr:
  "sign_rs256 lib signing claims = Inr token \<longleftrightarrow>
     (\<exists>key. jl_key_from_rsa_pem lib (private_key_pem signing) = Inr key \<and>
        jl_encode lib \<lparr>jwt_alg = ''RS256'', jwt_kid = Some (kid signing)\<rparr> (claims_json claims) key =
          Inr token)"
  by (simp add: sign_rs256_def res_bind_eq_Inr map_err_eq_Inr)

end
