(* ===== verification/Federation_K8s.thy ===== *)
theory Federation_K8s
  imports Kube Jwt
begin

text \<open>
  \<open>kif-federation/src/k8s.rs\<close>: authenticating a caller with a \<open>TokenReview\<close>, reading the
  identity out of its user name, and the two Secrets of the federation service: the signing
  key, and the JWKS document the issuer serves. Generating an RSA key and encoding
  it are parameters (crate \<open>rsa\<close>).
\<close>

section \<open>Authentication\<close>

definition token_review :: "kube_api \<Rightarrow> string \<Rightarrow> string eff" where
  "token_review api token =
     eff_bind (request (CreateTokenReview token) (\<lambda>log. api_token_review api log token)) (\<lambda>created.
     eff_lift (res_bind (ok_or created ''TokenReview missing status'') (\<lambda>status.
       if tr_authenticated status \<noteq> Some True then Inl ''token not authenticated''
       else res_bind (ok_or (tr_user status) ''TokenReview missing user'') (\<lambda>user.
            ok_or (user_username user) ''TokenReview user missing username''))))"

definition sa_prefix :: string where
  "sa_prefix = ''system:serviceaccount:''"

definition parse_service_account_username :: "string \<Rightarrow> (string \<times> string) option" where
  "parse_service_account_username u =
     (if \<not> starts_with u sa_prefix then None
      else (case split_on CHR '':'' (drop (length sa_prefix) u) of
          ns # sa # _ \<Rightarrow> if ns = [] \<or> sa = [] then None else Some (ns, sa)
        | _ \<Rightarrow> None))"

definition get_resolved_binding ::
  "kube_api \<Rightarrow> string \<Rightarrow> string \<Rightarrow> ResolvedCloudRoleBinding eff" where
  "get_resolved_binding api namespace sa_name =
     request (GetRcrb namespace sa_name) (\<lambda>log. api_get_rcrb api log namespace sa_name)"

lemma token_review_run:
  "token_review api token log =
     (res_bind (api_token_review api log token) (\<lambda>created.
        res_bind (ok_or created ''TokenReview missing status'') (\<lambda>status.
          if tr_authenticated status \<noteq> Some True then Inl ''token not authenticated''
          else res_bind (ok_or (tr_user status) ''TokenReview missing user'') (\<lambda>user.
               ok_or (user_username user) ''TokenReview user missing username''))),
      log @ [CreateTokenReview token])"
  by (simp add: token_review_def eff_bind_def split: sum.split)

text \<open>The server vouches that the token is a user's.\<close>

definition authenticates :: "kube_api \<Rightarrow> call_log \<Rightarrow> string \<Rightarrow> string \<Rightarrow> bool" where
  "authenticates api log token username \<longleftrightarrow>
     (\<exists>status user. api_token_review api log token = Inr (Some status) \<and>
        tr_authenticated status = Some True \<and> tr_user status = Some user \<and>
        user_username user = Some username)"

lemma token_review_Inr:
  "fst (token_review api token log) = Inr u \<longleftrightarrow> authenticates api log token u"
  by (auto simp: token_review_run res_bind_eq_Inr ok_or_eq_iff authenticates_def)

lemma authenticates_unique:
  "authenticates api log token u \<Longrightarrow> authenticates api log token v \<Longrightarrow> u = v"
  by (auto simp: authenticates_def)

section \<open>User names of ServiceAccounts\<close>

definition sa_username :: "string \<Rightarrow> string \<Rightarrow> string" where
  "sa_username ns sa = sa_prefix @ ns @ CHR '':'' # sa"

lemma split_on_two:
  "(\<exists>ps. split_on c s = p # q # ps) \<longleftrightarrow>
     c \<notin> set p \<and> c \<notin> set q \<and> (s = p @ c # q \<or> (\<exists>t. s = p @ c # q @ c # t))"
proof
  assume "\<exists>ps. split_on c s = p # q # ps"
  then obtain ps where ps: "split_on c s = p # q # ps" ..
  from split_on_Cons [OF this] obtain t where t: "s = p @ c # t" "c \<notin> set p" "split_on c t = q # ps"
    by blast
  show "c \<notin> set p \<and> c \<notin> set q \<and> (s = p @ c # q \<or> (\<exists>t. s = p @ c # q @ c # t))"
  proof (cases ps)
    case Nil
    with t have "split_on c t = [q]" by simp
    from split_on_single [OF this] t(1,2) show ?thesis by blast
  next
    case (Cons r rs)
    from split_on_Cons [OF t(3) [unfolded Cons]] t(1,2) show ?thesis by auto
  qed
next
  assume "c \<notin> set p \<and> c \<notin> set q \<and> (s = p @ c # q \<or> (\<exists>t. s = p @ c # q @ c # t))"
  then show "\<exists>ps. split_on c s = p # q # ps"
    by (auto simp: split_on_append split_on_no_sep)
qed

lemma parse_username_Some:
  "parse_service_account_username u = Some (ns, sa) \<longleftrightarrow>
     (\<exists>rest ps. u = sa_prefix @ rest \<and> split_on CHR '':'' rest = ns # sa # ps) \<and> ns \<noteq> [] \<and> sa \<noteq> []"
proof (cases "starts_with u sa_prefix")
  case True
  then obtain rest where u: "u = sa_prefix @ rest" by (auto simp: starts_with_iff)
  then show ?thesis
    by (auto simp: parse_service_account_username_def split: list.splits)
next
  case False
  then show ?thesis by (auto simp: parse_service_account_username_def)
qed

lemma username_iff:
  "parse_service_account_username u = Some (ns, sa) \<longleftrightarrow>
     ns \<noteq> [] \<and> sa \<noteq> [] \<and> CHR '':'' \<notin> set ns \<and> CHR '':'' \<notin> set sa \<and>
     (u = sa_username ns sa \<or> (\<exists>t. u = sa_username ns sa @ CHR '':'' # t))"
proof -
  have "(\<exists>rest ps. u = sa_prefix @ rest \<and> split_on CHR '':'' rest = ns # sa # ps) \<longleftrightarrow>
      (\<exists>rest. u = sa_prefix @ rest \<and> (\<exists>ps. split_on CHR '':'' rest = ns # sa # ps))" by blast
  then show ?thesis
    unfolding parse_username_Some split_on_two by (auto simp: sa_username_def)
qed

section \<open>The Secrets\<close>

definition signing_key_pem :: string where
  "signing_key_pem = ''private_key_pkcs8.pem''"

definition signing_key_kid :: string where
  "signing_key_kid = ''kid''"

definition jwks_secret_key :: string where
  "jwks_secret_key = ''jwks.json''"

record ('key, 'jwk, 'rsa) fed_lib = "('key, 'jwk) jwt_lib" +
  fl_now :: "call_log \<Rightarrow> SystemTime"
  fl_generate :: "call_log \<Rightarrow> nat \<Rightarrow> 'rsa res"
  fl_to_pem :: "'rsa \<Rightarrow> string res"

definition opaque_secret :: "string \<Rightarrow> (string, string) btree \<Rightarrow> Secret" where
  "opaque_secret name data =
     \<lparr>secret_name = Some name, secret_type = Some ''Opaque'', secret_data = Some data\<rparr>"

definition upsert_jwks_secret :: "kube_api \<Rightarrow> string \<Rightarrow> string \<Rightarrow> string \<Rightarrow> unit eff" where
  "upsert_jwks_secret api namespace name jwks_json =
     (let secret = opaque_secret name (bt_insert jwks_secret_key jwks_json []) in
      eff_bind (request (ApplySecret namespace name secret)
                  (\<lambda>log. api_apply_secret api log namespace name secret)) (\<lambda>_.
      eff_return ()))"

text \<open>Publish the JWKS of a key and return the key: the end of both branches.\<close>

definition publish_jwks ::
  "('key, 'jwk, 'rsa) fed_lib \<Rightarrow> kube_api \<Rightarrow> string \<Rightarrow> string \<Rightarrow> SigningMaterial \<Rightarrow> SigningMaterial eff" where
  "publish_jwks lib api namespace jwks_secret_name material =
     eff_bind (eff_lift (jwks_json_from_private_pem lib material)) (\<lambda>jwks_json.
     eff_bind (upsert_jwks_secret api namespace jwks_secret_name jwks_json) (\<lambda>_.
     eff_return material))"

definition read_signing_secret :: "Secret \<Rightarrow> SigningMaterial res" where
  "read_signing_secret existing =
     res_bind (ok_or (secret_data existing) ''existing signing secret missing data'') (\<lambda>data.
     res_bind (ok_or (map_of data signing_key_pem)
        (''signing secret missing '' @ signing_key_pem)) (\<lambda>pem.
     res_bind (ok_or (map_of data signing_key_kid)
        (''signing secret missing '' @ signing_key_kid)) (\<lambda>kid.
     res_bind (from_utf8 pem) (\<lambda>pem.
     res_bind (from_utf8 kid) (\<lambda>kid.
     Inr \<lparr>kid = kid, private_key_pem = pem\<rparr>)))))"

text \<open>A new key: \<open>duration_since\<close> fails before the epoch.\<close>

definition new_signing_material ::
  "('key, 'jwk, 'rsa) fed_lib \<Rightarrow> nat \<Rightarrow> call_log \<Rightarrow> SigningMaterial res" where
  "new_signing_material lib rsa_bits log =
     (let now = fl_now lib log in
      if now < 0 then Inl ''second time provided was later than self''
      else res_bind (fl_generate lib log rsa_bits) (\<lambda>key.
           res_bind (fl_to_pem lib key) (\<lambda>pem.
           Inr \<lparr>kid = ''kid-'' @ show_nat (nat now div 10 ^ 9), private_key_pem = pem\<rparr>)))"

definition signing_secret_data :: "SigningMaterial \<Rightarrow> (string, string) btree" where
  "signing_secret_data material =
     bt_insert signing_key_kid (kid material) (bt_insert signing_key_pem (private_key_pem material) [])"

definition ensure_signing_and_jwks ::
  "('key, 'jwk, 'rsa) fed_lib \<Rightarrow> kube_api \<Rightarrow> string \<Rightarrow> string \<Rightarrow> string \<Rightarrow> nat \<Rightarrow> SigningMaterial eff" where
  "ensure_signing_and_jwks lib api namespace signing_secret_name jwks_secret_name rsa_bits =
     eff_bind (request (GetSecretOpt namespace signing_secret_name)
                 (\<lambda>log. api_get_secret_opt api log namespace signing_secret_name)) (\<lambda>found.
       case found of
         Some existing \<Rightarrow>
           eff_bind (eff_lift (read_signing_secret existing))
             (publish_jwks lib api namespace jwks_secret_name)
       | None \<Rightarrow>
           eff_bind (\<lambda>log. (new_signing_material lib rsa_bits log, log)) (\<lambda>material.
             let secret = opaque_secret signing_secret_name (signing_secret_data material) in
             eff_bind (request (ApplySecret namespace signing_secret_name secret)
                         (\<lambda>log. api_apply_secret api log namespace signing_secret_name secret)) (\<lambda>_.
             publish_jwks lib api namespace jwks_secret_name material)))"

section \<open>The signing key and the published key set agree\<close>

definition jwks_write :: "string \<Rightarrow> string \<Rightarrow> string \<Rightarrow> kube_call" where
  "jwks_write namespace name jwks_json =
     ApplySecret namespace name (opaque_secret name (bt_insert jwks_secret_key jwks_json []))"

lemma publish_jwks_run:
  "publish_jwks lib api ns name material log =
     (case jwks_json_from_private_pem lib material of
        Inl e \<Rightarrow> (Inl e, log)
      | Inr json \<Rightarrow>
          (res_bind (api_apply_secret api log ns name
              (opaque_secret name (bt_insert jwks_secret_key json []))) (\<lambda>_. Inr material),
           log @ [jwks_write ns name json]))"
  by (simp add: publish_jwks_def upsert_jwks_secret_def Let_def eff_bind_def jwks_write_def
      split: sum.split)

lemma publish_jwks_Inr:
  assumes "publish_jwks lib api ns name material log = (Inr m, log')"
  obtains json where "m = material" "jwks_json_from_private_pem lib material = Inr json"
    "log' = log @ [jwks_write ns name json]"
  using assms by (auto simp: publish_jwks_run res_bind_eq_Inr split: sum.splits)

lemma ensure_run:
  "ensure_signing_and_jwks lib api ns sname jname bits log =
     (let log1 = log @ [GetSecretOpt ns sname] in
      case api_get_secret_opt api log ns sname of
        Inl e \<Rightarrow> (Inl e, log1)
      | Inr (Some existing) \<Rightarrow>
          (case read_signing_secret existing of
             Inl e \<Rightarrow> (Inl e, log1)
           | Inr material \<Rightarrow> publish_jwks lib api ns jname material log1)
      | Inr None \<Rightarrow>
          (case new_signing_material lib bits log1 of
             Inl e \<Rightarrow> (Inl e, log1)
           | Inr material \<Rightarrow>
               let secret = opaque_secret sname (signing_secret_data material);
                   log2 = log1 @ [ApplySecret ns sname secret]
               in (case api_apply_secret api log1 ns sname secret of
                     Inl e \<Rightarrow> (Inl e, log2)
                   | Inr _ \<Rightarrow> publish_jwks lib api ns jname material log2)))"
  by (simp add: ensure_signing_and_jwks_def Let_def eff_bind_def split: sum.split option.split)

lemma ensured_published:
  assumes "fst (ensure_signing_and_jwks lib api ns sname jname bits log) = Inr material"
  shows "\<exists>before json. jwks_json_from_private_pem lib material = Inr json \<and>
     snd (ensure_signing_and_jwks lib api ns sname jname bits log) = before @ [jwks_write ns jname json]"
proof -
  obtain log' where run: "ensure_signing_and_jwks lib api ns sname jname bits log = (Inr material, log')"
    using assms by (metis prod.collapse)
  then obtain log1 m where "publish_jwks lib api ns jname m log1 = (Inr material, log')"
    by (auto simp: ensure_run Let_def split: sum.splits option.splits)
  from publish_jwks_Inr [OF this] run show ?thesis by (metis snd_conv)
qed

lemma read_signing_secret_written:
  assumes "valid_utf8 (private_key_pem m)" "valid_utf8 (kid m)"
  shows "read_signing_secret (opaque_secret sname (signing_secret_data m)) = Inr m"
proof -
  have "map_of (signing_secret_data m) signing_key_pem = Some (private_key_pem m)"
    "map_of (signing_secret_data m) signing_key_kid = Some (kid m)"
    by (simp_all add: signing_secret_data_def map_of_bt_insert signing_key_pem_def signing_key_kid_def)
  moreover have "from_utf8 (private_key_pem m) = Inr (private_key_pem m)" "from_utf8 (kid m) = Inr (kid m)"
    using assms by (simp_all add: from_utf8_Inr)
  ultimately show ?thesis by (simp add: read_signing_secret_def opaque_secret_def)
qed


lemma new_signing_material_utf8:
  assumes "new_signing_material lib bits log = Inr m" "\<And>k p. fl_to_pem lib k = Inr p \<Longrightarrow> valid_utf8 p"
  shows "valid_utf8 (private_key_pem m) \<and> valid_utf8 (kid m)"
proof -
  have "ascii ''kid-''" by (simp add: ascii_def)
  then have kid: "valid_utf8 (''kid-'' @ show_nat n)" for n
    by (intro ascii_valid) (simp only: ascii_append ascii_show_nat)
  obtain k p where "fl_to_pem lib k = Inr p"
    "m = \<lparr>kid = ''kid-'' @ show_nat (nat (fl_now lib log) div 10 ^ 9), private_key_pem = p\<rparr>"
    using assms(1) unfolding new_signing_material_def Let_def
    by (auto simp only: res_bind_eq_Inr sum.inject split: if_splits)
  with kid assms(2) show ?thesis by simp
qed

text \<open>
  C33: When a signing key is first generated, it is written to the signing Secret and the
  JWKS of its public half is published. Any later start that finds a Secret with this data
  leaves it alone, publishes the same JWKS again, and succeeds with the same key identifier
  and the same private key exactly when this write is granted.
\<close>

theorem restart_keeps_key:
  assumes "api_get_secret_opt api log ns sname = Inr None"
    and "fst (ensure_signing_and_jwks lib api ns sname jname bits log) = Inr m"
    and "\<forall>k p. fl_to_pem lib k = Inr p \<longrightarrow> valid_utf8 p"
  shows "\<exists>secret json.
     snd (ensure_signing_and_jwks lib api ns sname jname bits log) =
       log @ [GetSecretOpt ns sname, ApplySecret ns sname secret, jwks_write ns jname json] \<and>
     jwks_json_from_private_pem lib m = Inr json \<and>
     (\<forall>api' log' existing. api_get_secret_opt api' log' ns sname = Inr (Some existing) \<longrightarrow>
        secret_data existing = secret_data secret \<longrightarrow>
        ensure_signing_and_jwks lib api' ns sname jname bits log' =
          (map_sum id (\<lambda>_. m) (api_apply_secret api' (log' @ [GetSecretOpt ns sname]) ns jname
             (opaque_secret jname (bt_insert jwks_secret_key json []))),
           log' @ [GetSecretOpt ns sname, jwks_write ns jname json]))"
proof -
  let ?log1 = "log @ [GetSecretOpt ns sname]"
  obtain k where k: "new_signing_material lib bits ?log1 = Inr k"
    using assms(1,2) by (auto simp: ensure_run Let_def split: sum.splits)
  let ?secret = "opaque_secret sname (signing_secret_data k)"
  have run: "ensure_signing_and_jwks lib api ns sname jname bits log =
      publish_jwks lib api ns jname k (?log1 @ [ApplySecret ns sname ?secret])"
    using assms(1,2) k by (auto simp: ensure_run Let_def split: sum.splits)
  with assms(2) obtain log' where
    "publish_jwks lib api ns jname k (?log1 @ [ApplySecret ns sname ?secret]) = (Inr m, log')"
    by (metis prod.collapse)
  from publish_jwks_Inr [OF this] run obtain json where m: "m = k"
    and json: "jwks_json_from_private_pem lib k = Inr json"
    and first: "snd (ensure_signing_and_jwks lib api ns sname jname bits log) =
      (?log1 @ [ApplySecret ns sname ?secret]) @ [jwks_write ns jname json]"
    by (metis snd_conv \<open>publish_jwks _ _ _ _ _ _ = _\<close>)
  have "read_signing_secret existing = Inr k" if "secret_data existing = secret_data ?secret" for existing
    using new_signing_material_utf8 [OF k] assms(3) read_signing_secret_written [of k sname] that
    by (auto simp: read_signing_secret_def)
  then have "ensure_signing_and_jwks lib api' ns sname jname bits log' =
      (map_sum id (\<lambda>_. k) (api_apply_secret api' (log' @ [GetSecretOpt ns sname]) ns jname
         (opaque_secret jname (bt_insert jwks_secret_key json []))),
       log' @ [GetSecretOpt ns sname, jwks_write ns jname json])"
    if "api_get_secret_opt api' log' ns sname = Inr (Some existing)"
      "secret_data existing = secret_data ?secret" for api' log' existing
    using that json by (simp add: ensure_run publish_jwks_run res_bind_def split: sum.split)
  with json first show ?thesis by (intro exI [of _ ?secret] exI [of _ json]) (simp add: m)
qed

end
