(* ===== verification/Federation.thy ===== *)
theory Federation
  imports Federation_K8s Environment "HOL-Library.Monad_Syntax"
begin

text \<open>
  The federation service: its configuration (\<open>kif-federation/src/config.rs\<close>) and its HTTP
  endpoints (\<open>http.rs\<close>). A request reaches \<open>mint\<close> with the value of its Authorization
  header, if it has one that is visible ASCII, and with the decoded JSON body; a body that is no
  JSON text or no request is refused before the handler runs (crate \<open>axum\<close>). The signing material never changes after the start, as no code writes it.
\<close>

section \<open>Configuration\<close>

record FedState =
  fed_issuer_url :: string
  fed_port :: u16
  fed_signing :: SigningMaterial

definition rsa_bits :: nat where
  "rsa_bits = 3072"

definition federation_from_env ::
  "('key, 'jwk, 'rsa) fed_lib \<Rightarrow> (string \<Rightarrow> string res) \<Rightarrow> unit res \<Rightarrow> (string \<Rightarrow> string res) \<Rightarrow>
     kube_api \<Rightarrow> environ \<Rightarrow> FedState eff" where
  "federation_from_env lib parse_issuer_url try_client read_file api vars =
     eff_bind (eff_lift (res_bind (env_required vars ''ISSUER_URL'' ''ISSUER_URL is required'')
       (\<lambda>s. with_context ''invalid ISSUER_URL'' (parse_issuer_url s)))) (\<lambda>issuer_url.
     let port = env_parse parse_u16 vars ''PORT'' 5001;
         signing_secret_name = env_or vars ''SIGNING_SECRET_NAME'' ''kif-signing'';
         jwks_secret_name = env_or vars ''JWKS_SECRET_NAME'' ''kif-jwks''
     in eff_bind (eff_lift (pod_namespace read_file)) (\<lambda>namespace.
        eff_bind (eff_lift try_client) (\<lambda>_.
        eff_bind (\<lambda>log. case ensure_signing_and_jwks lib api namespace signing_secret_name
              jwks_secret_name rsa_bits log of
            (r, log') \<Rightarrow> (with_context ''failed to ensure signing/jwks secrets'' r, log')) (\<lambda>material.
        eff_return \<lparr>fed_issuer_url = issuer_url, fed_port = port, fed_signing = material\<rparr>))))"

section \<open>Minting\<close>

record MintRequest =
  mint_namespace :: string
  mint_service_account_name :: string
  mint_config_hash :: string
  mint_pod_name :: "string option"

record MintedToken =
  token :: string
  expires_in_seconds :: u64

record MintResponse =
  minted_aws :: "MintedToken option"

text \<open>A response: a status with a text, or 200 with the JSON body.\<close>

datatype mint_reply = MintText nat string | MintJson MintResponse

fun reply_status :: "mint_reply \<Rightarrow> nat" where
  "reply_status (MintText s _) = s"
| "reply_status (MintJson _) = 200"

definition line :: "string \<Rightarrow> string" where
  "line s = s @ [CHR 0x0A]"

definition bearer_prefix :: string where
  "bearer_prefix = ''Bearer ''"

definition bearer_token :: "string option \<Rightarrow> string option" where
  "bearer_token authorization =
     (case authorization of
        Some v \<Rightarrow>
          if starts_with v bearer_prefix then Some (drop (length bearer_prefix) v) else None
      | None \<Rightarrow> None)"

text \<open>The claims of the token a resolved binding entitles to, and its lifetime.\<close>

definition token_ttl :: "AwsProviderSpec \<Rightarrow> u64" where
  "token_ttl aws = unwrap_or (max_session_duration_seconds aws) 3600"

definition token_claims ::
  "SystemTime \<Rightarrow> SystemTime \<Rightarrow> FedState \<Rightarrow> string \<Rightarrow> MintRequest \<Rightarrow> ResolvedCloudRoleBinding \<Rightarrow>
     AwsProviderSpec \<Rightarrow> AwsClaims" where
  "token_claims t1 t2 state username req resolved aws =
     (let audience = unwrap_or (aws_audience aws) ''sts.amazonaws.com'';
          (prov, extra) =
            (case rcrb_attributes (rcrb_spec resolved) of
               Some a \<Rightarrow> (unwrap_or (include_provenance a) True, extra_attrs a)
             | None \<Rightarrow> (True, None))
      in new_claims t1 t2 (fed_issuer_url state) username audience (token_ttl aws) prov
           (mint_namespace req) (mint_service_account_name req) (mint_pod_name req) extra)"

text \<open>The part of the handler behind the lookup, where no request is made any more.\<close>

definition mint_from_binding ::
  "('key, 'jwk, 'z) jwt_lib_scheme \<Rightarrow> SystemTime \<Rightarrow> SystemTime \<Rightarrow> FedState \<Rightarrow> string \<Rightarrow> MintRequest \<Rightarrow>
     ResolvedCloudRoleBinding \<Rightarrow> mint_reply" where
  "mint_from_binding lib t1 t2 state username req resolved =
     (case rcrb_aws resolved of
        None \<Rightarrow> MintText 400 (line ''no AWS provider configured'')
      | Some aws \<Rightarrow>
        (case status_hash resolved of
           None \<Rightarrow> MintText 500 (line ''ResolvedCloudRoleBinding missing config hash in status'')
         | Some hash \<Rightarrow>
             if hash \<noteq> mint_config_hash req
             then MintText 409 (line (''config hash mismatch: client sent '' @ mint_config_hash req @
                    '', but resolved binding has '' @ hash))
             else (case sign_rs256 lib (fed_signing state)
                       (token_claims t1 t2 state username req resolved aws) of
                 Inl e \<Rightarrow> MintText 500 (line (''failed to sign token: '' @ e))
               | Inr t \<Rightarrow> MintJson
                   \<lparr>minted_aws = Some \<lparr>token = t, expires_in_seconds = token_ttl aws\<rparr>\<rparr>)))"

definition mint ::
  "('key, 'jwk, 'z) jwt_lib_scheme \<Rightarrow> kube_api \<Rightarrow> SystemTime \<Rightarrow> SystemTime \<Rightarrow> FedState \<Rightarrow>
     string option \<Rightarrow> MintRequest \<Rightarrow> call_log \<Rightarrow> mint_reply \<times> call_log" where
  "mint lib api t1 t2 state authorization req log =
     (case bearer_token authorization of
        None \<Rightarrow> (MintText 401 (line ''missing bearer token''), log)
      | Some bearer \<Rightarrow>
        (case token_review api bearer log of
           (Inl e, log) \<Rightarrow> (MintText 401 (line (''token review failed: '' @ e)), log)
         | (Inr username, log) \<Rightarrow>
           (case parse_service_account_username username of
              None \<Rightarrow> (MintText 401 (line ''not a valid ServiceAccount token''), log)
            | Some (ns, sa) \<Rightarrow>
                if ns \<noteq> mint_namespace req \<or> sa \<noteq> mint_service_account_name req
                then (MintText 403 (line (''subject mismatch: token is '' @ ns @ ''/'' @ sa @
                       '' requested '' @ mint_namespace req @ ''/'' @ mint_service_account_name req)), log)
                else (case get_resolved_binding api (mint_namespace req)
                        (mint_service_account_name req) log of
                    (Inl e, log) \<Rightarrow>
                      (MintText 404 (line (''no ResolvedCloudRoleBinding found for '' @
                         mint_namespace req @ ''/'' @ mint_service_account_name req @ '': '' @ e)), log)
                  | (Inr resolved, log) \<Rightarrow>
                      (mint_from_binding lib t1 t2 state username req resolved, log)))))"

text \<open>The body of the request and of the response.\<close>

definition mint_request_of_json :: "json \<Rightarrow> MintRequest option" where
  "mint_request_of_json j = do {
     fs \<leftarrow> as_fields [''namespace'', ''serviceAccountName'', ''configHash'', ''podName''] j;
     namespace \<leftarrow> required dec_str ''namespace'' fs;
     sa \<leftarrow> required dec_str ''serviceAccountName'' fs;
     hash \<leftarrow> required dec_str ''configHash'' fs;
     pod \<leftarrow> defaulted None (opt_dec dec_str) ''podName'' fs;
     Some \<lparr>mint_namespace = namespace, mint_service_account_name = sa, mint_config_hash = hash,
           mint_pod_name = pod\<rparr> }"

definition token_json :: "MintedToken \<Rightarrow> json" where
  "token_json t = JObj
     [(''token'', JStr (token t)), (''expiresInSeconds'', enc_u64 (expires_in_seconds t))]"

definition response_json :: "MintResponse \<Rightarrow> json" where
  "response_json r = JObj [(''aws'', opt_enc token_json (minted_aws r))]"

definition mint_endpoint ::
  "json_text \<Rightarrow> ('key, 'jwk, 'z) jwt_lib_scheme \<Rightarrow> kube_api \<Rightarrow> SystemTime \<Rightarrow> SystemTime \<Rightarrow> FedState \<Rightarrow>
     string option \<Rightarrow> string \<Rightarrow> call_log \<Rightarrow> mint_reply \<times> call_log" where
  "mint_endpoint jt lib api t1 t2 state authorization body log =
     (case jt_parse jt body of
        None \<Rightarrow> (MintText 400 (jt_error jt body), log)
      | Some j \<Rightarrow>
          (case mint_request_of_json j of
             None \<Rightarrow> (MintText 422 (jt_error jt body), log)
           | Some req \<Rightarrow> mint lib api t1 t2 state authorization req log))"

definition reply_text :: "json_text \<Rightarrow> mint_reply \<Rightarrow> string" where
  "reply_text jt reply =
     (case reply of MintText _ t \<Rightarrow> t | MintJson resp \<Rightarrow> jt_print jt (response_json resp))"

definition rotate_keys :: "FedState \<Rightarrow> nat" where
  "rotate_keys state = 501"

definition livez :: nat where
  "livez = 200"

section \<open>Who gets a token\<close>

lemma bearer_token_Some: "bearer_token a = Some t \<longleftrightarrow> a = Some (bearer_prefix @ t)"
  by (auto simp: bearer_token_def dest: starts_with_drop split: option.splits)

text \<open>The caller has proved to be this ServiceAccount.\<close>

definition caller ::
  "kube_api \<Rightarrow> call_log \<Rightarrow> string option \<Rightarrow> string \<Rightarrow> string \<Rightarrow> string \<Rightarrow> bool" where
  "caller api log authorization username ns sa \<longleftrightarrow>
     (\<exists>bearer. authorization = Some (bearer_prefix @ bearer) \<and> authenticates api log bearer username) \<and>
     parse_service_account_username username = Some (ns, sa)"

definition review_log :: "string option \<Rightarrow> call_log \<Rightarrow> call_log" where
  "review_log authorization log =
     (case bearer_token authorization of None \<Rightarrow> log | Some b \<Rightarrow> log @ [CreateTokenReview b])"

lemma token_review_snd [simp]: "snd (token_review api b log) = log @ [CreateTokenReview b]"
  by (simp add: token_review_run)

lemma token_review_cases:
  obtains e where "token_review api b log = (Inl e, log @ [CreateTokenReview b])"
      "\<And>u. \<not> authenticates api log b u"
  | u where "token_review api b log = (Inr u, log @ [CreateTokenReview b])" "authenticates api log b u"
proof (cases "fst (token_review api b log)")
  case (Inl e)
  have "\<not> authenticates api log b u" for u using Inl token_review_Inr [of api b log u] by simp
  moreover have "token_review api b log = (Inl e, log @ [CreateTokenReview b])"
    using Inl by (metis prod.collapse token_review_snd)
  ultimately show ?thesis using that(1) by blast
next
  case (Inr u)
  then have "authenticates api log b u" by (simp add: token_review_Inr)
  moreover have "token_review api b log = (Inr u, log @ [CreateTokenReview b])"
    using Inr by (metis prod.collapse token_review_snd)
  ultimately show ?thesis using that(2) by blast
qed

text \<open>Every run of the handler, by the identity of the caller.\<close>

lemma mint_cases:
  obtains (anonymous) s where "mint lib api t1 t2 state auth req log = (MintText 401 s, review_log auth log)"
      "\<And>u ns sa. \<not> caller api log auth u ns sa"
  | (other) u ns sa s where "mint lib api t1 t2 state auth req log = (MintText 403 s, review_log auth log)"
      "caller api log auth u ns sa" "(ns, sa) \<noteq> (mint_namespace req, mint_service_account_name req)"
  | (self) u where "caller api log auth u (mint_namespace req) (mint_service_account_name req)"
      "mint lib api t1 t2 state auth req log =
        ((case api_get_rcrb api (review_log auth log) (mint_namespace req) (mint_service_account_name req) of
            Inl e \<Rightarrow> MintText 404 (line (''no ResolvedCloudRoleBinding found for '' @
              mint_namespace req @ ''/'' @ mint_service_account_name req @ '': '' @ e))
          | Inr r \<Rightarrow> mint_from_binding lib t1 t2 state u req r),
         review_log auth log @ [GetRcrb (mint_namespace req) (mint_service_account_name req)])"
proof (cases "bearer_token auth")
  case None
  then have "\<not> caller api log auth u ns sa" for u ns sa
    unfolding caller_def bearer_token_Some [symmetric] by simp
  with None anonymous show ?thesis by (simp add: mint_def review_log_def)
next
  case (Some b)
  then have auth: "auth = Some (bearer_prefix @ b)" by (simp add: bearer_token_Some)
  from Some have log: "review_log auth log = log @ [CreateTokenReview b]" by (simp add: review_log_def)
  show ?thesis
  proof (cases rule: token_review_cases [of api b log])
    case (1 e)
    then have "\<not> caller api log auth u ns sa" for u ns sa by (simp add: caller_def auth)
    with 1 Some log anonymous show ?thesis by (simp add: mint_def)
  next
    case (2 u)
    then have id: "caller api log auth v ns sa \<longleftrightarrow> v = u \<and> parse_service_account_username u = Some (ns, sa)"
      for v ns sa by (auto simp: caller_def auth dest: authenticates_unique)
    show ?thesis
    proof (cases "parse_service_account_username u")
      case None
      with 2 Some log id anonymous show ?thesis by (simp add: mint_def)
    next
      case parsed: (Some p)
      obtain ns sa where p: "p = (ns, sa)" by (cases p)
      show ?thesis
      proof (cases "ns = mint_namespace req \<and> sa = mint_service_account_name req")
        case True
        with 2 Some log id parsed p self show ?thesis
          by (simp add: mint_def get_resolved_binding_def split: sum.split)
      next
        case False
        with 2 Some log id parsed p other show ?thesis by (simp add: mint_def)
      qed
    qed
  qed
qed

text \<open>The conditions a minted token rests on, and the token they give.\<close>

definition entitled ::
  "('key, 'jwk, 'z) jwt_lib_scheme \<Rightarrow> kube_api \<Rightarrow> SystemTime \<Rightarrow> SystemTime \<Rightarrow> FedState \<Rightarrow>
     string option \<Rightarrow> MintRequest \<Rightarrow> call_log \<Rightarrow> ResolvedCloudRoleBinding \<Rightarrow> AwsProviderSpec \<Rightarrow>
     string \<Rightarrow> bool" where
  "entitled lib api t1 t2 state auth req log r aws t \<longleftrightarrow>
     (\<exists>u. caller api log auth u (mint_namespace req) (mint_service_account_name req) \<and>
        api_get_rcrb api (review_log auth log) (mint_namespace req) (mint_service_account_name req) = Inr r \<and>
        rcrb_aws r = Some aws \<and> status_hash r = Some (mint_config_hash req) \<and>
        sign_rs256 lib (fed_signing state) (token_claims t1 t2 state u req r aws) = Inr t)"

lemma mint_from_binding_Json:
  "mint_from_binding lib t1 t2 state u req r = MintJson resp \<longleftrightarrow>
     (\<exists>aws t. rcrb_aws r = Some aws \<and> status_hash r = Some (mint_config_hash req) \<and>
        sign_rs256 lib (fed_signing state) (token_claims t1 t2 state u req r aws) = Inr t \<and>
        resp = \<lparr>minted_aws = Some \<lparr>token = t, expires_in_seconds = token_ttl aws\<rparr>\<rparr>)"
  by (auto simp: mint_from_binding_def split: option.splits sum.splits)

lemma caller_unique:
  "caller api log auth u ns sa \<Longrightarrow> caller api log auth v ns' sa' \<Longrightarrow> v = u \<and> ns' = ns \<and> sa' = sa"
  by (auto simp: caller_def dest: authenticates_unique)

lemma not_caller:
  "caller api log auth u ns sa \<Longrightarrow> (ns, sa) \<noteq> (ns', sa') \<Longrightarrow> \<not> caller api log auth v ns' sa'"
  using caller_unique by blast

lemma mint_Json_iff:
  "fst (mint lib api t1 t2 state auth req log) = MintJson resp \<longleftrightarrow>
     (\<exists>r aws t. entitled lib api t1 t2 state auth req log r aws t \<and>
        resp = \<lparr>minted_aws = Some \<lparr>token = t, expires_in_seconds = token_ttl aws\<rparr>\<rparr>)"
proof (cases rule: mint_cases [of lib api t1 t2 state auth req log])
  case (anonymous s)
  then show ?thesis by (simp add: entitled_def)
next
  case (other u ns sa s)
  from not_caller [OF other(2,3)] other(1) show ?thesis by (simp add: entitled_def)
next
  case (self u)
  have ent: "entitled lib api t1 t2 state auth req log r aws t \<longleftrightarrow>
      api_get_rcrb api (review_log auth log) (mint_namespace req) (mint_service_account_name req) = Inr r \<and>
      rcrb_aws r = Some aws \<and> status_hash r = Some (mint_config_hash req) \<and>
      sign_rs256 lib (fed_signing state) (token_claims t1 t2 state u req r aws) = Inr t" for r aws t
    unfolding entitled_def using self(1) caller_unique by blast
  show ?thesis unfolding ent
    by (cases "api_get_rcrb api (review_log auth log) (mint_namespace req) (mint_service_account_name req)")
      (simp_all add: self(2) mint_from_binding_Json)
qed

text \<open>
  C1: The federation service's mint handler answers 200 with a token exactly when the bearer
  token authenticates a caller whose ServiceAccount is the requested one, the resolved
  binding of that ServiceAccount exists, has an AWS provider and the configuration hash the
  client sent, and the claims can be signed; the response then carries that signature and
  the binding's session duration (3600 when unset).
\<close>

theorem mint_succeeds_iff_entitled:
  "fst (mint lib api t1 t2 state auth req log) = MintJson resp \<longleftrightarrow>
     (\<exists>r aws t. entitled lib api t1 t2 state auth req log r aws t \<and>
        resp = \<lparr>minted_aws = Some \<lparr>token = t, expires_in_seconds = token_ttl aws\<rparr>\<rparr>)"
  by (rule mint_Json_iff)

text \<open>
  C2: Whatever a request to mint contains, the only requests the service makes to the API
  server are the review of the presented bearer token and the read of the resolved binding
  of the ServiceAccount the caller has proved to be: no other namespace or ServiceAccount is
  ever looked up.
\<close>

theorem mint_confined_to_caller:
  "\<exists>cs. snd (mint lib api t1 t2 state auth req log) = log @ cs \<and>
     (\<forall>c \<in> set cs. case c of
        CreateTokenReview b \<Rightarrow> auth = Some (bearer_prefix @ b)
      | GetRcrb ns sa \<Rightarrow> (\<exists>u. caller api log auth u ns sa)
      | _ \<Rightarrow> False)" (is "\<exists>cs. _ \<and> (\<forall>c \<in> _. ?ok c)")
proof -
  have "\<exists>cs. review_log auth log = log @ cs \<and> (\<forall>c \<in> set cs. \<exists>b. c = CreateTokenReview b \<and> auth = Some (bearer_prefix @ b))"
  proof (cases "bearer_token auth")
    case (Some b)
    then show ?thesis using Some [unfolded bearer_token_Some] by (simp add: review_log_def)
  qed (simp add: review_log_def)
  then obtain cs where cs: "review_log auth log = log @ cs"
    "\<forall>c \<in> set cs. \<exists>b. c = CreateTokenReview b \<and> auth = Some (bearer_prefix @ b)" by blast
  have ok: "\<forall>c \<in> set cs. ?ok c"
  proof
    fix c assume "c \<in> set cs"
    with cs(2) obtain b where "c = CreateTokenReview b" "auth = Some (bearer_prefix @ b)" by blast
    then show "?ok c" by (simp only: kube_call.simps)
  qed
  show ?thesis
  proof (cases rule: mint_cases [of lib api t1 t2 state auth req log])
    case (self u)
    have "?ok (GetRcrb (mint_namespace req) (mint_service_account_name req))"
      using self(1) by (simp only: kube_call.simps) blast
    with ok have "\<forall>c \<in> set (cs @ [GetRcrb (mint_namespace req) (mint_service_account_name req)]). ?ok c"
      by (simp only: set_append list.set ball_Un ball_simps)
    moreover have "snd (mint lib api t1 t2 state auth req log) =
        log @ cs @ [GetRcrb (mint_namespace req) (mint_service_account_name req)]"
      using cs(1) self(2) by simp
    ultimately show ?thesis by blast
  next
    case (anonymous s)
    have "snd (mint lib api t1 t2 state auth req log) = log @ cs"
      using cs(1) anonymous(1) by simp
    with ok show ?thesis by blast
  next
    case (other u ns sa s)
    have "snd (mint lib api t1 t2 state auth req log) = log @ cs"
      using cs(1) other(1) by simp
    with ok show ?thesis by blast
  qed
qed

text \<open>The status of a response, by the facts it rests on.\<close>

definition mint_status ::
  "('key, 'jwk, 'z) jwt_lib_scheme \<Rightarrow> kube_api \<Rightarrow> SystemTime \<Rightarrow> SystemTime \<Rightarrow> FedState \<Rightarrow>
     string option \<Rightarrow> MintRequest \<Rightarrow> call_log \<Rightarrow> nat" where
  "mint_status lib api t1 t2 state auth req log = reply_status (fst (mint lib api t1 t2 state auth req log))"

lemma mint_from_binding_status:
  "reply_status (mint_from_binding lib t1 t2 state u req r) = 409 \<longleftrightarrow>
     (\<exists>h. rcrb_aws r \<noteq> None \<and> status_hash r = Some h \<and> h \<noteq> mint_config_hash req)"
  "reply_status (mint_from_binding lib t1 t2 state u req r) \<in> {200, 400, 409, 500}"
  by (auto simp: mint_from_binding_def split: option.split sum.split)

lemma conflict_iff:
  "mint_status lib api t1 t2 state auth req log = 409 \<longleftrightarrow>
     (\<exists>u r h. caller api log auth u (mint_namespace req) (mint_service_account_name req) \<and>
        api_get_rcrb api (review_log auth log) (mint_namespace req) (mint_service_account_name req) = Inr r \<and>
        rcrb_aws r \<noteq> None \<and> status_hash r = Some h \<and> h \<noteq> mint_config_hash req)"
proof (cases rule: mint_cases [of lib api t1 t2 state auth req log])
  case (anonymous s)
  then show ?thesis by (simp add: mint_status_def)
next
  case (other u ns sa s)
  from not_caller [OF other(2,3)] other(1) show ?thesis by (simp add: mint_status_def)
next
  case (self u)
  have st: "mint_status lib api t1 t2 state auth req log =
      (case api_get_rcrb api (review_log auth log) (mint_namespace req) (mint_service_account_name req) of
         Inl e \<Rightarrow> 404 | Inr r \<Rightarrow> reply_status (mint_from_binding lib t1 t2 state u req r))"
    by (simp add: mint_status_def self(2) split: sum.split)
  show ?thesis
  proof (cases "api_get_rcrb api (review_log auth log) (mint_namespace req) (mint_service_account_name req)")
    case (Inl e)
    then show ?thesis by (simp add: st)
  next
    case (Inr r)
    then show ?thesis using self(1) by (simp add: st mint_from_binding_status(1)) blast
  qed
qed

lemma token_claims_fields:
  "sub (token_claims t1 t2 state u req r aws) = u"
  "iss (token_claims t1 t2 state u req r aws) = fed_issuer_url state"
  "aud (token_claims t1 t2 state u req r aws) = unwrap_or (aws_audience aws) ''sts.amazonaws.com''"
  "exp (token_claims t1 t2 state u req r aws) = iat (token_claims t1 t2 state u req r aws) + token_ttl aws"
  by (simp_all add: token_claims_def Let_def split: prod.split)

text \<open>
  C3: A token that mint returns is the signature of claims whose subject is the
  authenticated user name, whose issuer is the configured URL, whose provenance block names
  the requested namespace and ServiceAccount, and whose lifetime (exp minus iat) is the
  lifetime announced in the response.
\<close>

theorem minted_token_names_caller:
  assumes "fst (mint lib api t1 t2 state auth req log) = MintJson resp"
  shows "\<exists>u claims t. caller api log auth u (mint_namespace req) (mint_service_account_name req) \<and>
     sign_rs256 lib (fed_signing state) claims = Inr t \<and>
     resp = \<lparr>minted_aws = Some \<lparr>token = t, expires_in_seconds = exp claims - iat claims\<rparr>\<rparr> \<and>
     sub claims = u \<and> iss claims = fed_issuer_url state \<and>
     (\<forall>k k8s. kif claims = Some k \<and> kif_k8s k = Some k8s \<longrightarrow>
        k8s_namespace k8s = mint_namespace req \<and> k8s_service_account k8s = mint_service_account_name req)"
proof -
  from assms obtain r aws t where e: "entitled lib api t1 t2 state auth req log r aws t"
    and resp: "resp = \<lparr>minted_aws = Some \<lparr>token = t, expires_in_seconds = token_ttl aws\<rparr>\<rparr>"
    by (auto simp: mint_Json_iff)
  then obtain u where u: "caller api log auth u (mint_namespace req) (mint_service_account_name req)"
    "sign_rs256 lib (fed_signing state) (token_claims t1 t2 state u req r aws) = Inr t"
    by (auto simp: entitled_def)
  let ?c = "token_claims t1 t2 state u req r aws"
  have "resp = \<lparr>minted_aws = Some \<lparr>token = t, expires_in_seconds = exp ?c - iat ?c\<rparr>\<rparr>"
    by (simp add: resp token_claims_fields)
  moreover have "sub ?c = u" "iss ?c = fed_issuer_url state" by (simp_all add: token_claims_fields)
  moreover have "\<forall>k k8s. kif ?c = Some k \<and> kif_k8s k = Some k8s \<longrightarrow>
      k8s_namespace k8s = mint_namespace req \<and> k8s_service_account k8s = mint_service_account_name req"
    by (auto simp: token_claims_def Let_def claims_kif split: prod.splits if_splits)
  ultimately show ?thesis using u by blast
qed

end
