(* ===== verification/Paths.thy ===== *)
theory Paths
  imports Rust_Strings
begin

text \<open>
  The operations of \<open>std::path::Path\<close> the agent uses, on Unix paths: \<open>file_name\<close>,
  \<open>parent\<close> and \<open>with_added_extension\<close>. Trailing separators and \<open>.\<close> components do not
  count, as in \<open>Path::components\<close>.
\<close>

text \<open>A reversed path without its trailing separators and \<open>.\<close> components.\<close>

fun strip_rev :: "string \<Rightarrow> string" where
  "strip_rev [] = []"
| "strip_rev (c # cs) =
     (if c = CHR ''/'' \<or> c = CHR ''.'' \<and> cs \<noteq> [] \<and> hd cs = CHR ''/'' then strip_rev cs else c # cs)"

definition strip_tail :: "string \<Rightarrow> string" where
  "strip_tail p = rev (strip_rev (rev p))"

definition file_name :: "string \<Rightarrow> string option" where
  "file_name p =
     (let f = last (split_on CHR ''/'' (strip_tail p))
      in if f = [] \<or> f = ''.'' \<or> f = ''..'' then None else Some f)"

definition path_parent :: "string \<Rightarrow> string option" where
  "path_parent p =
     (let q = strip_tail p; pre = take (length q - length (last (split_on CHR ''/'' q))) q
      in if q = [] then None
         else Some (if strip_tail pre = [] \<and> pre \<noteq> [] then ''/'' else strip_tail pre))"

definition with_added_extension :: "string \<Rightarrow> string \<Rightarrow> string" where
  "with_added_extension p ext =
     (if file_name p = None then p else if ext = [] then strip_tail p else strip_tail p @ ''.'' @ ext)"

lemma strip_rev_cases: "strip_rev s = s \<or> (s \<noteq> [] \<and> (hd s = CHR ''/'' \<or> hd s = CHR ''.''))"
  by (cases s) auto

lemma tmp_path_differs: "file_name p \<noteq> None \<Longrightarrow> with_added_extension p ''tmp'' \<noteq> p"
proof
  assume f: "file_name p \<noteq> None" and eq: "with_added_extension p ''tmp'' = p"
  from f have "with_added_extension p ''tmp'' = strip_tail p @ ''.tmp''"
    by (auto simp: with_added_extension_def)
  with eq have p: "p = strip_tail p @ ''.tmp''" by metis
  have "last (strip_tail p @ ''.tmp'') = CHR ''p''" "strip_tail p @ ''.tmp'' \<noteq> []" by simp_all
  then have last: "last p = CHR ''p''" "p \<noteq> []" using p by metis+
  have "strip_tail p = p"
    using strip_rev_cases [of "rev p"] last by (auto simp: strip_tail_def hd_rev)
  with p have "length p = length p + length ''.tmp''" by (metis length_append)
  then show False by simp
qed

end
