(* ===== verification/Agent_Files.thy ===== *)
theory Agent_Files
  imports Prelude Paths
begin

text \<open>
  \<open>atomic_write\<close> of \<open>kif-agent/src/federation.rs\<close> on a model of the file system. A file
  system maps paths to contents. The environment decides which operation fails, and how
  much of a write that fails has been done; an operation is followed by the list of file
  systems another process may see while it runs, the last of which it ends in: a write
  passes through every prefix of its contents, a rename is one step (POSIX).
\<close>

type_synonym files = "string \<Rightarrow> string option"

datatype fs_op =
    CreateDirAll string
  | CreateFile string
  | WriteAll string string
  | SyncAll string
  | Rename string string

record fs_env =
  fs_error :: "fs_op \<Rightarrow> error option"
  fs_written :: "fs_op \<Rightarrow> nat"

fun fs_seen :: "fs_env \<Rightarrow> fs_op \<Rightarrow> files \<Rightarrow> files list" where
  "fs_seen io (CreateDirAll p) fs = [fs]"
| "fs_seen io (CreateFile p) fs =
     (if fs_error io (CreateFile p) = None then [fs, fs(p \<mapsto> [])] else [fs])"
| "fs_seen io (WriteAll p s) fs =
     map (\<lambda>n. fs(p \<mapsto> take n s))
       [0..<Suc (if fs_error io (WriteAll p s) = None then length s else fs_written io (WriteAll p s))]"
| "fs_seen io (SyncAll p) fs = [fs]"
| "fs_seen io (Rename a b) fs =
     (if fs_error io (Rename a b) = None then [fs, (fs(a := None))(b := fs a)] else [fs])"

text \<open>Operations in sequence, each with the context its error is reported under; the
  first failure ends the sequence.\<close>

fun run_ops :: "fs_env \<Rightarrow> (fs_op \<times> error) list \<Rightarrow> files \<Rightarrow> unit res \<times> files \<times> files list" where
  "run_ops io [] fs = (Inr (), fs, [])"
| "run_ops io ((op, ctx) # ops) fs =
     (let seen = fs_seen io op fs in
      case fs_error io op of
        Some _ \<Rightarrow> (Inl ctx, last seen, seen)
      | None \<Rightarrow> (case run_ops io ops (last seen) of (r, fs', rest) \<Rightarrow> (r, fs', seen @ rest)))"

definition atomic_write :: "fs_env \<Rightarrow> string \<Rightarrow> string \<Rightarrow> files \<Rightarrow> unit res \<times> files \<times> files list" where
  "atomic_write io path contents fs =
     (let tmp = with_added_extension path ''tmp'' in
      run_ops io
        ((case path_parent path of
            Some parent \<Rightarrow> [(CreateDirAll parent, ''failed to create parent dirs for '' @ path)]
          | None \<Rightarrow> []) @
         [(CreateFile tmp, ''failed to create tmp file '' @ tmp),
          (WriteAll tmp contents, ''failed to write contents to tmp file '' @ tmp),
          (SyncAll tmp, ''failed to sync tmp file '' @ tmp),
          (Rename tmp path, ''failed to rename tmp file '' @ tmp @ '' to '' @ path)])
        fs)"

section \<open>No reader sees a partial file\<close>

lemma fs_seen_not_Nil [simp]: "fs_seen io op fs \<noteq> []"
  by (cases op) auto

text \<open>An operation that does not touch a path leaves its contents alone throughout.\<close>

definition touches :: "string \<Rightarrow> fs_op \<Rightarrow> bool" where
  "touches p op \<longleftrightarrow>
     (case op of CreateFile q \<Rightarrow> q = p | WriteAll q _ \<Rightarrow> q = p | Rename a b \<Rightarrow> a = p \<or> b = p | _ \<Rightarrow> False)"

lemma fs_seen_untouched: "\<not> touches p op \<Longrightarrow> fs' \<in> set (fs_seen io op fs) \<Longrightarrow> fs' p = fs p"
  by (cases op) (auto simp: touches_def split: if_splits)

lemma run_ops_untouched:
  "\<forall>(op, _) \<in> set ops. \<not> touches p op \<Longrightarrow> run_ops io ops fs = (r, fs', seen) \<Longrightarrow>
     fs' p = fs p \<and> (\<forall>s \<in> set seen. s p = fs p)"
proof (induction ops arbitrary: fs r fs' seen)
  case (Cons oc ops)
  obtain op ctx where oc: "oc = (op, ctx)" by (cases oc)
  have now: "s p = fs p" if "s \<in> set (fs_seen io op fs)" for s
    using Cons.prems(1) that by (intro fs_seen_untouched) (auto simp: oc)
  show ?case
  proof (cases "fs_error io op")
    case (Some e)
    with Cons.prems(2) now show ?thesis by (auto simp: oc Let_def)
  next
    case None
    obtain r1 fs1 rest where run: "run_ops io ops (last (fs_seen io op fs)) = (r1, fs1, rest)"
      by (metis prod_cases3)
    have "fs1 p = fs p \<and> (\<forall>s \<in> set rest. s p = fs p)"
      using Cons.IH [OF _ run] Cons.prems(1) now [of "last (fs_seen io op fs)"] by (simp add: oc)
    with Cons.prems(2) None run now show ?thesis by (auto simp: oc Let_def)
  qed
qed simp

lemma run_ops_append:
  "run_ops io (xs @ ys) fs =
     (case run_ops io xs fs of
        (Inl e, fs', seen) \<Rightarrow> (Inl e, fs', seen)
      | (Inr _, fs', seen) \<Rightarrow>
          (case run_ops io ys fs' of (r, fs'', rest) \<Rightarrow> (r, fs'', seen @ rest)))"
  by (induction xs arbitrary: fs)
    (auto simp: Let_def split: option.split prod.split sum.split)

text \<open>The operations before the rename, and what they leave when they succeed.\<close>

definition staging :: "string \<Rightarrow> string \<Rightarrow> string \<Rightarrow> (fs_op \<times> error) list" where
  "staging path tmp contents =
     (case path_parent path of
        Some parent \<Rightarrow> [(CreateDirAll parent, ''failed to create parent dirs for '' @ path)]
      | None \<Rightarrow> []) @
     [(CreateFile tmp, ''failed to create tmp file '' @ tmp),
      (WriteAll tmp contents, ''failed to write contents to tmp file '' @ tmp),
      (SyncAll tmp, ''failed to sync tmp file '' @ tmp)]"

lemma atomic_write_staging:
  "atomic_write io path contents fs =
     (let tmp = with_added_extension path ''tmp'' in
      run_ops io (staging path tmp contents @
        [(Rename tmp path, ''failed to rename tmp file '' @ tmp @ '' to '' @ path)]) fs)"
  by (simp add: atomic_write_def staging_def Let_def)

lemma staging_untouched:
  "p \<noteq> tmp \<Longrightarrow> \<forall>(op, _) \<in> set (staging path tmp contents). \<not> touches p op"
  by (auto simp: staging_def touches_def split: option.splits)

lemma staging_done:
  "run_ops io (staging path tmp contents) fs = (Inr (), fs', seen) \<Longrightarrow> fs' tmp = Some contents"
  by (auto simp: staging_def Let_def split: option.splits)

lemma atomic_write_run:
  assumes "file_name path \<noteq> None" "atomic_write io path contents fs = (r, fs', seen)"
  shows "fs' path = (if r = Inr () then Some contents else fs path) \<and>
    (\<forall>s \<in> set seen. s path = fs path \<or> s path = Some contents) \<and>
    (\<forall>p. p \<noteq> path \<and> p \<noteq> with_added_extension path ''tmp'' \<longrightarrow> fs' p = fs p)"
proof -
  let ?tmp = "with_added_extension path ''tmp''"
  have tmp: "?tmp \<noteq> path" using assms(1) by (rule tmp_path_differs)
  obtain r1 fs1 seen1 where run: "run_ops io (staging path ?tmp contents) fs = (r1, fs1, seen1)"
    by (metis prod_cases3)
  note keep = run_ops_untouched [OF staging_untouched run]
  have path: "fs1 path = fs path" "\<forall>s \<in> set seen1. s path = fs path"
    using keep [of path] tmp by auto
  show ?thesis
  proof (cases r1)
    case (Inl e)
    with assms(2) run have "r = Inl e" "fs' = fs1" "seen = seen1"
      by (simp_all add: atomic_write_staging Let_def run_ops_append)
    with path keep show ?thesis by auto
  next
    case (Inr u)
    with run have "fs1 ?tmp = Some contents" by (intro staging_done) auto
    with assms(2) run Inr path keep tmp show ?thesis
      by (auto simp: atomic_write_staging Let_def run_ops_append split: option.splits if_splits)
  qed
qed

text \<open>
  C35: Whichever file operation fails and wherever a write breaks off, every state of the
  disk another process may see while a token is written has the old or the complete new
  contents at the token's path; success means the new contents, failure the old, and no file
  but the temporary one is touched.
\<close>

theorem token_file_never_partial:
  assumes "file_name path \<noteq> None" "atomic_write io path contents fs = (r, fs', seen)"
  shows "fs' path = (if r = Inr () then Some contents else fs path) \<and>
     (\<forall>s \<in> set seen. s path = fs path \<or> s path = Some contents) \<and>
     (\<forall>p. p \<noteq> path \<and> p \<noteq> with_added_extension path ''tmp'' \<longrightarrow> fs' p = fs p)"
  using assms by (rule atomic_write_run)

end
