(* ===== verification/Agent.thy ===== *)
theory Agent
  imports Agent_Files Environment Json "HOL-Library.Monad_Syntax"
begin

text \<open>
  The agent: its configuration (\<open>kif-agent/src/config.rs\<close>), the mint client
  (\<open>federation.rs\<close>), the refresh loop (\<open>main.rs\<close>) and the probes (\<open>http.rs\<close>). What one
  round of the loop meets (the token file, the server, the disk, the random number) is a
  \<open>round\<close>; the loop is a recursion over the rounds it meets, so a list is a finite
  prefix of its life. The HTTP client, the reader and writer of JSON texts and the text of a
  status are parameters.
\<close>

section \<open>Configuration\<close>

record AgentConfig =
  ag_port :: u16
  ag_federation_url :: string
  ag_service_account_name :: string
  ag_config_hash :: string
  ag_namespace :: string
  ag_pod_name :: "string option"
  sa_token_path :: string
  aws_token_path :: string
  refresh_skew_seconds :: u64
  min_refresh_seconds :: u64
  max_jitter_seconds :: u64

definition agent_from_env :: "(string \<Rightarrow> string res) \<Rightarrow> environ \<Rightarrow> AgentConfig res" where
  "agent_from_env read_file vars =
     res_bind (env_required vars ''SERVICE_ACCOUNT_NAME'' ''SERVICE_ACCOUNT_NAME is required'') (\<lambda>sa.
     res_bind (env_required vars ''CONFIG_HASH'' ''CONFIG_HASH is required'') (\<lambda>hash.
     res_bind (pod_namespace read_file) (\<lambda>namespace. Inr
       \<lparr>ag_port = env_parse parse_u16 vars ''PORT'' 5004,
        ag_federation_url = env_or vars ''FEDERATION_URL'' ''http://kif-federation:5001'',
        ag_service_account_name = sa, ag_config_hash = hash, ag_namespace = namespace,
        ag_pod_name = vars ''POD_NAME'',
        sa_token_path =
          env_or vars ''SA_TOKEN_PATH'' ''/var/run/secrets/kubernetes.io/serviceaccount/token'',
        aws_token_path = env_or vars ''AWS_TOKEN_PATH'' ''/var/run/kif/aws/token'',
        refresh_skew_seconds = env_parse parse_u64 vars ''REFRESH_SKEW_SECONDS'' 300,
        min_refresh_seconds = env_parse parse_u64 vars ''MIN_REFRESH_SECONDS'' 30,
        max_jitter_seconds = env_parse parse_u64 vars ''MAX_JITTER_SECONDS'' 60\<rparr>)))"

section \<open>The mint client\<close>

datatype MintError = ConfigHashMismatch | MintOther error

record AgentMintRequest =
  amr_namespace :: string
  amr_service_account_name :: string
  amr_config_hash :: string
  amr_pod_name :: "string option"

record AgentMintedToken =
  amt_token :: string
  amt_expires_in_seconds :: u64

record AgentMintResponse =
  amr_aws :: "AgentMintedToken option"

record http_response =
  http_status :: nat
  http_text :: "string res"

record agent_lib =
  al_json :: json_text
  al_show_status :: "nat \<Rightarrow> string"

text \<open>A POST of a JSON text to a URL, with a bearer token.\<close>

type_synonym http_post = "string \<Rightarrow> string \<Rightarrow> string \<Rightarrow> http_response res"

definition agent_request_json :: "AgentMintRequest \<Rightarrow> json" where
  "agent_request_json req = JObj
     ([(''namespace'', JStr (amr_namespace req)),
       (''serviceAccountName'', JStr (amr_service_account_name req)),
       (''configHash'', JStr (amr_config_hash req))] @
      skip_none ''podName'' JStr (amr_pod_name req))"

definition agent_token_of_json :: "json \<Rightarrow> AgentMintedToken option" where
  "agent_token_of_json j = do {
     fs \<leftarrow> as_fields [''token'', ''expiresInSeconds''] j;
     t \<leftarrow> required dec_str ''token'' fs;
     n \<leftarrow> required dec_u64 ''expiresInSeconds'' fs;
     Some \<lparr>amt_token = t, amt_expires_in_seconds = n\<rparr> }"

definition agent_response_of_json :: "json \<Rightarrow> AgentMintResponse option" where
  "agent_response_of_json j = do {
     fs \<leftarrow> as_fields [''aws''] j;
     aws \<leftarrow> optional agent_token_of_json ''aws'' fs;
     Some \<lparr>amr_aws = aws\<rparr> }"

text \<open>\<open>serde_json::from_str\<close> at the type of the response.\<close>

definition parse_response :: "json_text \<Rightarrow> string \<Rightarrow> AgentMintResponse res" where
  "parse_response jt body = ok_or (Option.bind (jt_parse jt body) agent_response_of_json) (jt_error jt body)"

definition agent_mint ::
  "agent_lib \<Rightarrow> http_post \<Rightarrow> string \<Rightarrow> string \<Rightarrow> AgentMintRequest \<Rightarrow> MintError + AgentMintResponse" where
  "agent_mint lib post federation_url bearer req =
     (let url = trim_end_char CHR ''/'' federation_url @ ''/v1/mint'' in
      res_bind (map_err MintOther (with_context ''send mint request''
        (post url bearer (jt_print (al_json lib) (agent_request_json req))))) (\<lambda>resp.
      res_bind (map_err MintOther (with_context ''read response body'' (http_text resp))) (\<lambda>body.
        if http_status resp = 200
        then map_err MintOther (with_context ''failed to parse mint response body'' (parse_response (al_json lib) body))
        else if http_status resp = 409 then Inl ConfigHashMismatch
        else Inl (MintOther (''failed to mint request, status '' @
               al_show_status lib (http_status resp) @ '': '' @ body)))))"

section \<open>How long to sleep\<close>

text \<open>\<open>draw\<close> is \<open>rng.random_range(0..=max)\<close>.\<close>

definition compute_jitter :: "(u64 \<Rightarrow> u64) \<Rightarrow> u64 \<Rightarrow> u64" where
  "compute_jitter draw m = (if m = 0 then 0 else draw m)"

definition compute_sleep_seconds :: "(u64 \<Rightarrow> u64) \<Rightarrow> u64 \<Rightarrow> u64 \<Rightarrow> u64 \<Rightarrow> u64 \<Rightarrow> u64" where
  "compute_sleep_seconds draw expires_in skew min_sleep max_jitter =
     (let j = compute_jitter draw max_jitter;
          target = sat_sub (sat_sub expires_in skew) j
      in max target min_sleep)"

lemma compute_sleep_nat:
  "unat (compute_sleep_seconds draw expires_in skew min_sleep max_jitter) =
     max (unat expires_in - unat skew - unat (compute_jitter draw max_jitter)) (unat min_sleep)"
  by (simp add: compute_sleep_seconds_def Let_def unat_word_max unat_sat_sub)

lemma compute_jitter_le: "(\<And>m. draw m \<le> m) \<Longrightarrow> compute_jitter draw m \<le> m"
  by (simp add: compute_jitter_def)

text \<open>
  C38: The time between two refreshes is at least the minimum, at most the lifetime less the
  skew (or the minimum), and at least the lifetime less skew and jitter, for all 64-bit
  inputs; a lifetime shorter than the minimum makes the agent sleep past the expiry.
\<close>

theorem sleep_bounds:
  assumes "\<forall>m. draw m \<le> m"
  shows "let s = unat (compute_sleep_seconds draw expires_in skew min_sleep max_jitter) in
     unat min_sleep \<le> s \<and>
     (unat min_sleep \<le> unat expires_in - unat skew \<longrightarrow> s \<le> unat expires_in - unat skew) \<and>
     unat expires_in \<le> s + unat skew + unat max_jitter \<and>
     (unat expires_in < unat min_sleep \<longrightarrow> unat expires_in < s)"
proof -
  have "unat (compute_jitter draw max_jitter) \<le> unat max_jitter"
    using compute_jitter_le [of draw max_jitter] assms(1) by (simp add: word_le_nat_alt)
  then show ?thesis unfolding Let_def compute_sleep_nat by auto
qed

section \<open>The refresh loop\<close>

record round =
  rd_sa_token :: "string res"
  rd_post :: http_post
  rd_io :: fs_env
  rd_draw :: "u64 \<Rightarrow> u64"

record agent_state =
  first_success :: bool
  ag_ready :: bool
  ag_files :: files

definition agent_init :: "files \<Rightarrow> agent_state" where
  "agent_init fs = \<lparr>first_success = False, ag_ready = False, ag_files = fs\<rparr>"

definition mint_request :: "AgentConfig \<Rightarrow> AgentMintRequest" where
  "mint_request cfg =
     \<lparr>amr_namespace = ag_namespace cfg, amr_service_account_name = ag_service_account_name cfg,
      amr_config_hash = ag_config_hash cfg, amr_pod_name = ag_pod_name cfg\<rparr>"

text \<open>What a round does with a minted token: the new state, and the time to sleep or the
  error the loop returns.\<close>

definition store_token ::
  "AgentConfig \<Rightarrow> round \<Rightarrow> AgentMintedToken \<Rightarrow> agent_state \<Rightarrow> agent_state \<times> u64 res" where
  "store_token cfg rd aws st =
     (case atomic_write (rd_io rd) (aws_token_path cfg) (amt_token aws) (ag_files st) of
        (Inl _, fs, _) \<Rightarrow>
          (st\<lparr>ag_files := fs\<rparr>, Inl (''failed writing AWS token to '' @ aws_token_path cfg))
      | (Inr _, fs, _) \<Rightarrow>
          let st = st\<lparr>ag_files := fs\<rparr>;
              st = (if \<not> first_success st then st\<lparr>first_success := True, ag_ready := True\<rparr> else st)
          in (st, Inr (compute_sleep_seconds (rd_draw rd) (amt_expires_in_seconds aws)
                (refresh_skew_seconds cfg) (min_refresh_seconds cfg) (max_jitter_seconds cfg))))"

definition refresh_round ::
  "agent_lib \<Rightarrow> AgentConfig \<Rightarrow> round \<Rightarrow> agent_state \<Rightarrow> agent_state \<times> u64 res" where
  "refresh_round lib cfg rd st =
     (case rd_sa_token rd of
        Inl _ \<Rightarrow> (st, Inr (min_refresh_seconds cfg))
      | Inr text \<Rightarrow>
          let sa_token = trim text in
          if sa_token = [] then (st, Inr (min_refresh_seconds cfg))
          else (case agent_mint lib (rd_post rd) (ag_federation_url cfg) sa_token (mint_request cfg) of
              Inr resp \<Rightarrow>
                (case amr_aws resp of
                   Some aws \<Rightarrow> store_token cfg rd aws st
                 | None \<Rightarrow> (st, Inr (min_refresh_seconds cfg)))
            | Inl ConfigHashMismatch \<Rightarrow> (st, Inl ''config hash mismatch'')
            | Inl (MintOther _) \<Rightarrow> (st, Inr (min_refresh_seconds cfg))))"

text \<open>The loop over the rounds: the state, the error it returned if it returned, and the
  sleeps.\<close>

fun refresh_loop ::
  "agent_lib \<Rightarrow> AgentConfig \<Rightarrow> round list \<Rightarrow> agent_state \<Rightarrow> agent_state \<times> error option \<times> u64 list" where
  "refresh_loop lib cfg [] st = (st, None, [])"
| "refresh_loop lib cfg (rd # rds) st =
     (case refresh_round lib cfg rd st of
        (st, Inl e) \<Rightarrow> (st, Some e, [])
      | (st, Inr s) \<Rightarrow> (case refresh_loop lib cfg rds st of (st, e, ss) \<Rightarrow> (st, e, s # ss)))"

definition agent_startupz :: "agent_state \<Rightarrow> nat" where
  "agent_startupz st = (if ag_ready st then 200 else 503)"

section \<open>What the loop guarantees\<close>

text \<open>A round obtains a token; a round is fatal.\<close>

definition obtains_token :: "agent_lib \<Rightarrow> AgentConfig \<Rightarrow> round \<Rightarrow> AgentMintedToken \<Rightarrow> bool" where
  "obtains_token lib cfg rd aws \<longleftrightarrow>
     (\<exists>text resp. rd_sa_token rd = Inr text \<and> trim text \<noteq> [] \<and>
        agent_mint lib (rd_post rd) (ag_federation_url cfg) (trim text) (mint_request cfg) = Inr resp \<and>
        amr_aws resp = Some aws)"

definition round_token :: "agent_lib \<Rightarrow> AgentConfig \<Rightarrow> round \<Rightarrow> AgentMintedToken option" where
  "round_token lib cfg rd =
     (case rd_sa_token rd of
        Inl _ \<Rightarrow> None
      | Inr text \<Rightarrow>
          if trim text = [] then None
          else Option.bind (res_ok (agent_mint lib (rd_post rd) (ag_federation_url cfg) (trim text) (mint_request cfg))) amr_aws)"

lemma obtains_token_iff: "obtains_token lib cfg rd aws \<longleftrightarrow> round_token lib cfg rd = Some aws"
  by (auto simp: obtains_token_def round_token_def bind_eq_Some_conv res_ok_eq_Some split: sum.split)

definition told_stale :: "agent_lib \<Rightarrow> AgentConfig \<Rightarrow> round \<Rightarrow> bool" where
  "told_stale lib cfg rd \<longleftrightarrow>
     (\<exists>text. rd_sa_token rd = Inr text \<and> trim text \<noteq> [] \<and>
        agent_mint lib (rd_post rd) (ag_federation_url cfg) (trim text) (mint_request cfg) =
          Inl ConfigHashMismatch)"

definition write_fails :: "AgentConfig \<Rightarrow> round \<Rightarrow> AgentMintedToken \<Rightarrow> bool" where
  "write_fails cfg rd aws \<longleftrightarrow>
     \<not> is_ok (fst (atomic_write (rd_io rd) (aws_token_path cfg) (amt_token aws) Map.empty))"

definition fatal :: "agent_lib \<Rightarrow> AgentConfig \<Rightarrow> round \<Rightarrow> bool" where
  "fatal lib cfg rd \<longleftrightarrow> told_stale lib cfg rd \<or>
     (\<exists>aws. obtains_token lib cfg rd aws \<and> write_fails cfg rd aws)"

lemma fst_run_ops:
  "fst (run_ops io ((op, ctx) # ops) fs) =
     (case fs_error io op of
        Some _ \<Rightarrow> Inl ctx
      | None \<Rightarrow> fst (run_ops io ops (last (fs_seen io op fs))))"
  by (simp add: Let_def split: option.split prod.split)

lemma run_ops_result: "fst (run_ops io ops fs) = fst (run_ops io ops fs')"
proof (induction ops arbitrary: fs fs')
  case (Cons oc ops)
  obtain op ctx where "oc = (op, ctx)" by (cases oc)
  with Cons.IH show ?case by (simp only: fst_run_ops) (simp split: option.split)
qed simp

lemma not_ok_unit: "\<not> is_ok (r :: unit res) \<longleftrightarrow> r \<noteq> Inr ()"
  by (cases r) simp_all

lemma write_fails_iff:
  "write_fails cfg rd aws \<longleftrightarrow>
     fst (atomic_write (rd_io rd) (aws_token_path cfg) (amt_token aws) fs) \<noteq> Inr ()"
proof -
  have "fst (atomic_write (rd_io rd) (aws_token_path cfg) (amt_token aws) Map.empty) =
      fst (atomic_write (rd_io rd) (aws_token_path cfg) (amt_token aws) fs)"
    unfolding atomic_write_def Let_def by (rule run_ops_result)
  then show ?thesis by (simp only: write_fails_def not_ok_unit)
qed

lemma round_cases:
  obtains (retry) "refresh_round lib cfg rd st = (st, Inr (min_refresh_seconds cfg))"
      "\<not> told_stale lib cfg rd" "\<And>aws. \<not> obtains_token lib cfg rd aws"
  | (stale) "refresh_round lib cfg rd st = (st, Inl ''config hash mismatch'')"
      "told_stale lib cfg rd" "\<And>aws. \<not> obtains_token lib cfg rd aws"
  | (minted) aws where "refresh_round lib cfg rd st = store_token cfg rd aws st"
      "\<not> told_stale lib cfg rd" "\<And>aws'. obtains_token lib cfg rd aws' \<longleftrightarrow> aws' = aws"
proof (cases "rd_sa_token rd")
  case (Inl e)
  then show ?thesis by (intro retry) (simp_all add: refresh_round_def told_stale_def obtains_token_def)
next
  case read: (Inr body)
  show ?thesis
  proof (cases "trim body = []")
    case True
    with read show ?thesis
      by (intro retry) (simp_all add: refresh_round_def told_stale_def obtains_token_def)
  next
    case False
    let ?m = "agent_mint lib (rd_post rd) (ag_federation_url cfg) (trim body) (mint_request cfg)"
    note defs = refresh_round_def told_stale_def obtains_token_def
    show ?thesis
    proof (cases ?m)
      case (Inl e)
      with read False show ?thesis by (cases e) (use stale retry in \<open>simp_all add: defs\<close>)
    next
      case (Inr resp)
      with read False show ?thesis
        by (cases "amr_aws resp") (use minted retry in \<open>auto simp: defs\<close>)
    qed
  qed
qed

lemma round_stale_iff:
  "snd (refresh_round lib cfg rd st) = Inl ''config hash mismatch'' \<longleftrightarrow> told_stale lib cfg rd"
proof (cases rule: round_cases [of lib cfg rd st])
  case (minted aws)
  then show ?thesis by (auto simp: store_token_def Let_def split: prod.split sum.split)
qed simp_all

lemma round_stale_keeps:
  assumes "snd (refresh_round lib cfg rd st) = Inl ''config hash mismatch''"
  shows "refresh_round lib cfg rd st = (st, Inl ''config hash mismatch'')"
proof (cases rule: round_cases [of lib cfg rd st])
  case (minted aws)
  with assms round_stale_iff [of lib cfg rd st] show ?thesis by simp
qed (use assms in simp_all)

lemma store_token_run:
  assumes "file_name (aws_token_path cfg) \<noteq> None" "store_token cfg rd aws st = (st', r)"
  shows "write_fails cfg rd aws \<Longrightarrow> is_ok r = False \<and> ag_ready st' = ag_ready st \<and>
      first_success st' = first_success st \<and>
      ag_files st' (aws_token_path cfg) = ag_files st (aws_token_path cfg)"
    "\<not> write_fails cfg rd aws \<Longrightarrow> (\<exists>s. r = Inr s \<and> min_refresh_seconds cfg \<le> s) \<and>
      first_success st' \<and> (ag_ready st' \<longleftrightarrow> ag_ready st \<or> \<not> first_success st) \<and>
      ag_files st' (aws_token_path cfg) = Some (amt_token aws)"
proof -
  obtain w fs seen where w:
    "atomic_write (rd_io rd) (aws_token_path cfg) (amt_token aws) (ag_files st) = (w, fs, seen)"
    by (metis prod_cases3)
  have path: "fs (aws_token_path cfg) =
      (if w = Inr () then Some (amt_token aws) else ag_files st (aws_token_path cfg))"
    using atomic_write_run [OF assms(1) w] by blast
  have fails: "write_fails cfg rd aws \<longleftrightarrow> w \<noteq> Inr ()"
    using write_fails_iff [of cfg rd aws "ag_files st"] w by simp
  have le: "min_refresh_seconds cfg \<le> compute_sleep_seconds d e k (min_refresh_seconds cfg) j" for d e k j
    by (simp add: compute_sleep_seconds_def Let_def)
  from assms(2) w path le show "write_fails cfg rd aws \<Longrightarrow> is_ok r = False \<and> ag_ready st' = ag_ready st \<and>
      first_success st' = first_success st \<and>
      ag_files st' (aws_token_path cfg) = ag_files st (aws_token_path cfg)"
    by (cases w) (auto simp: fails store_token_def)
  from assms(2) w path le show "\<not> write_fails cfg rd aws \<Longrightarrow> (\<exists>s. r = Inr s \<and> min_refresh_seconds cfg \<le> s) \<and>
      first_success st' \<and> (ag_ready st' \<longleftrightarrow> ag_ready st \<or> \<not> first_success st) \<and>
      ag_files st' (aws_token_path cfg) = Some (amt_token aws)"
    by (cases w) (auto simp: fails store_token_def Let_def)
qed

lemma round_run:
  assumes "file_name (aws_token_path cfg) \<noteq> None" "refresh_round lib cfg rd st = (st', r)"
  shows "\<not> is_ok r \<longleftrightarrow> fatal lib cfg rd" "\<And>s. r = Inr s \<Longrightarrow> min_refresh_seconds cfg \<le> s"
    "fatal lib cfg rd \<or> round_token lib cfg rd = None \<Longrightarrow> ag_ready st' = ag_ready st \<and>
      first_success st' = first_success st \<and> ag_files st' (aws_token_path cfg) = ag_files st (aws_token_path cfg)"
    "\<not> fatal lib cfg rd \<Longrightarrow> round_token lib cfg rd = Some aws \<Longrightarrow> first_success st' \<and>
      (ag_ready st' \<longleftrightarrow> ag_ready st \<or> \<not> first_success st) \<and>
      ag_files st' (aws_token_path cfg) = Some (amt_token aws)"
proof -
  have "(\<not> is_ok r \<longleftrightarrow> fatal lib cfg rd) \<and> (\<forall>s. r = Inr s \<longrightarrow> min_refresh_seconds cfg \<le> s) \<and>
      (fatal lib cfg rd \<or> round_token lib cfg rd = None \<longrightarrow> ag_ready st' = ag_ready st \<and>
        first_success st' = first_success st \<and> ag_files st' (aws_token_path cfg) = ag_files st (aws_token_path cfg)) \<and>
      (\<not> fatal lib cfg rd \<and> round_token lib cfg rd = Some aws \<longrightarrow> first_success st' \<and>
        (ag_ready st' \<longleftrightarrow> ag_ready st \<or> \<not> first_success st) \<and>
        ag_files st' (aws_token_path cfg) = Some (amt_token aws))"
  proof (cases rule: round_cases [of lib cfg rd st])
    case retry
    with assms(2) show ?thesis by (auto simp: fatal_def obtains_token_iff)
  next
    case stale
    with assms(2) show ?thesis by (auto simp: fatal_def obtains_token_iff)
  next
    case (minted aws')
    then have fatal: "fatal lib cfg rd \<longleftrightarrow> write_fails cfg rd aws'" and tok: "round_token lib cfg rd = Some aws'"
      and run: "store_token cfg rd aws' st = (st', r)"
      using assms(2) by (auto simp: fatal_def obtains_token_iff)
    show ?thesis
    proof (cases "write_fails cfg rd aws'")
      case True
      with store_token_run(1) [OF assms(1) run] fatal tok show ?thesis by (cases r) auto
    next
      case False
      with store_token_run(2) [OF assms(1) run] fatal tok show ?thesis by auto
    qed
  qed
  then show "\<not> is_ok r \<longleftrightarrow> fatal lib cfg rd" "\<And>s. r = Inr s \<Longrightarrow> min_refresh_seconds cfg \<le> s"
    "fatal lib cfg rd \<or> round_token lib cfg rd = None \<Longrightarrow> ag_ready st' = ag_ready st \<and>
      first_success st' = first_success st \<and> ag_files st' (aws_token_path cfg) = ag_files st (aws_token_path cfg)"
    "\<not> fatal lib cfg rd \<Longrightarrow> round_token lib cfg rd = Some aws \<Longrightarrow> first_success st' \<and>
      (ag_ready st' \<longleftrightarrow> ag_ready st \<or> \<not> first_success st) \<and>
      ag_files st' (aws_token_path cfg) = Some (amt_token aws)" by blast+
qed

lemma refresh_loop_stops:
  assumes "file_name (aws_token_path cfg) \<noteq> None"
  shows "refresh_loop lib cfg rds st = (st', e, ss) \<Longrightarrow>
     (e = None \<longleftrightarrow> list_all (\<lambda>rd. \<not> fatal lib cfg rd) rds) \<and>
     length ss = length (takeWhile (\<lambda>rd. \<not> fatal lib cfg rd) rds) \<and>
     list_all (\<lambda>s. min_refresh_seconds cfg \<le> s) ss"
proof (induction rds arbitrary: st st' e ss)
  case (Cons rd rds)
  obtain st1 r where rd: "refresh_round lib cfg rd st = (st1, r)" by fastforce
  note run = round_run [OF assms rd]
  show ?case
  proof (cases r)
    case (Inl err)
    with run(1) have "fatal lib cfg rd" by simp
    with Cons.prems rd Inl show ?thesis by auto
  next
    case (Inr s)
    obtain st2 e2 ss2 where rest: "refresh_loop lib cfg rds st1 = (st2, e2, ss2)"
      by (metis prod_cases3)
    from Inr run(1) have "\<not> fatal lib cfg rd" by simp
    with Cons.IH [OF rest] Cons.prems rd Inr rest run(2) show ?thesis by auto
  qed
qed simp

text \<open>
  C36: The refresh loop runs on over every round that is not fatal and returns an error in
  the first that is (a configuration hash mismatch or a failed token write); it sleeps once
  after every other round, never less than the configured minimum.
\<close>

theorem refresh_loop_stops_iff_fatal:
  assumes "file_name (aws_token_path cfg) \<noteq> None" "refresh_loop lib cfg rds st = (st', e, ss)"
  shows "(e = None \<longleftrightarrow> list_all (\<lambda>rd. \<not> fatal lib cfg rd) rds) \<and>
     length ss = length (takeWhile (\<lambda>rd. \<not> fatal lib cfg rd) rds) \<and>
     list_all (\<lambda>s. min_refresh_seconds cfg \<le> s) ss"
  using assms by (rule refresh_loop_stops)

text \<open>The tokens the loop has obtained and stored, in order: those of the rounds before the
  fatal one.\<close>

definition tokens :: "agent_lib \<Rightarrow> AgentConfig \<Rightarrow> round list \<Rightarrow> AgentMintedToken list" where
  "tokens lib cfg rds = List.map_filter (round_token lib cfg) (takeWhile (\<lambda>rd. \<not> fatal lib cfg rd) rds)"

lemma tokens_simps [simp]:
  "tokens lib cfg [] = []"
  "tokens lib cfg (rd # rds) =
     (if fatal lib cfg rd then []
      else case round_token lib cfg rd of None \<Rightarrow> tokens lib cfg rds | Some t \<Rightarrow> t # tokens lib cfg rds)"
  by (simp_all add: tokens_def map_filter_simps split: option.split)

text \<open>The invariant of the loop: it is ready when it has stored a token, and the token file
  holds the last one.\<close>

definition stored :: "AgentConfig \<Rightarrow> agent_state \<Rightarrow> AgentMintedToken list \<Rightarrow> agent_state \<Rightarrow> bool" where
  "stored cfg st ts st' \<longleftrightarrow>
     (ag_ready st' \<longleftrightarrow> first_success st') \<and> (ag_ready st' \<longleftrightarrow> ag_ready st \<or> ts \<noteq> []) \<and>
     ag_files st' (aws_token_path cfg) =
       (if ts = [] then ag_files st (aws_token_path cfg) else Some (amt_token (last ts)))"

lemma stored_round:
  assumes "file_name (aws_token_path cfg) \<noteq> None" "refresh_round lib cfg rd st = (st', r)"
    and "ag_ready st \<longleftrightarrow> first_success st"
  shows "stored cfg st (tokens lib cfg [rd]) st'"
proof (cases "fatal lib cfg rd \<or> round_token lib cfg rd = None")
  case True
  then have "tokens lib cfg [rd] = []" by auto
  with round_run(3) [OF assms(1,2) True] assms(3) show ?thesis by (simp add: stored_def)
next
  case False
  then obtain t where "round_token lib cfg rd = Some t" "\<not> fatal lib cfg rd" by auto
  with round_run(4) [OF assms(1,2) this(2,1)] assms(3) show ?thesis by (simp add: stored_def)
qed

lemma stored_ready: "stored cfg st ts st' \<Longrightarrow> ag_ready st' \<longleftrightarrow> first_success st'"
  by (simp add: stored_def)

lemma stored_trans: "stored cfg st ts st1 \<Longrightarrow> stored cfg st1 us st2 \<Longrightarrow> stored cfg st (ts @ us) st2"
  by (auto simp: stored_def)

lemma refresh_loop_stores:
  assumes "file_name (aws_token_path cfg) \<noteq> None"
  shows "refresh_loop lib cfg rds st = (st', e, ss) \<Longrightarrow> (ag_ready st \<longleftrightarrow> first_success st) \<Longrightarrow>
     stored cfg st (tokens lib cfg rds) st'"
proof (induction rds arbitrary: st ss)
  case Nil
  then show ?case by (simp add: stored_def)
next
  case (Cons rd rds)
  obtain st1 r where rd: "refresh_round lib cfg rd st = (st1, r)" by fastforce
  note first = stored_round [OF assms rd Cons.prems(2)]
  show ?case
  proof (cases r)
    case (Inl err)
    with round_run(1) [OF assms rd] have "fatal lib cfg rd" by simp
    with Cons.prems(1) rd Inl first show ?thesis by simp
  next
    case (Inr s)
    with round_run(1) [OF assms rd] have "\<not> fatal lib cfg rd" by simp
    moreover obtain ss2 where "refresh_loop lib cfg rds st1 = (st', e, ss2)"
      using Cons.prems(1) rd Inr by (auto split: prod.splits)
    from Cons.IH [OF this stored_ready [OF first]] have "stored cfg st1 (tokens lib cfg rds) st'" .
    from stored_trans [OF first this] calculation show ?thesis by (auto split: option.splits)
  qed
qed

lemma ready_means_token:
  assumes "file_name (aws_token_path cfg) \<noteq> None"
    and "refresh_loop lib cfg rds (agent_init fs) = (st, e, ss)"
  shows "if tokens lib cfg rds = []
     then agent_startupz st = 503 \<and> ag_files st (aws_token_path cfg) = fs (aws_token_path cfg)
     else agent_startupz st = 200 \<and> ag_files st (aws_token_path cfg) = Some (amt_token (last (tokens lib cfg rds)))"
  using refresh_loop_stores [OF assms] by (auto simp: stored_def agent_init_def agent_startupz_def)

section \<open>The mint client\<close>

definition posted :: "agent_lib \<Rightarrow> http_post \<Rightarrow> string \<Rightarrow> string \<Rightarrow> AgentMintRequest \<Rightarrow> http_response res" where
  "posted lib post url bearer req =
     post (trim_end_char CHR ''/'' url @ ''/v1/mint'') bearer (jt_print (al_json lib) (agent_request_json req))"

lemma agent_mint_stale_iff:
  "agent_mint lib post url bearer req = Inl ConfigHashMismatch \<longleftrightarrow>
     (\<exists>resp. posted lib post url bearer req = Inr resp \<and> is_ok (http_text resp) \<and> http_status resp = 409)"
  unfolding posted_def [symmetric] agent_mint_def Let_def
  by (cases "posted lib post url bearer req")
    (auto simp: map_err_def with_context_def split: sum.splits if_splits)

lemma agent_mint_Inr:
  "agent_mint lib post url bearer req = Inr r \<longleftrightarrow>
     (\<exists>resp body. posted lib post url bearer req = Inr resp \<and> http_status resp = 200 \<and>
        http_text resp = Inr body \<and> parse_response (al_json lib) body = Inr r)"
  unfolding posted_def [symmetric] agent_mint_def Let_def
  by (auto simp: res_bind_eq_Inr map_err_eq_Inr with_context_eq_iff split: if_splits)

end
