(* ===== verification/Issuer.thy ===== *)
theory Issuer
  imports Kube Utf8 Environment
begin

text \<open>
  The issuer: its configuration (\<open>kif-issuer/src/config.rs\<close>), the store of the JWKS
  document and its parser (\<open>jwks.rs\<close>), the watcher that follows the Secret
  (\<open>kube_watch.rs\<close>), the loader (\<open>main.rs\<close>) and the HTTP endpoints (\<open>http.rs\<close>). JSON and
  the OpenID Connect types are crates: the record \<open>issuer_lib\<close> of parameters. The store
  is an interface (\<open>latest_value\<close>), and what the watcher keeps is proved against it.
\<close>

section \<open>The interface of the store\<close>

text \<open>Feeding a cell with the good ones of a sequence of values.\<close>

definition feed :: "('v \<Rightarrow> 'c \<Rightarrow> 'c) \<Rightarrow> 'v option list \<Rightarrow> 'c \<Rightarrow> 'c" where
  "feed put vs c = fold (\<lambda>v c. case v of None \<Rightarrow> c | Some x \<Rightarrow> put x c) vs c"

locale latest_value =
  fixes put :: "'v \<Rightarrow> 'c \<Rightarrow> 'c"
    and fetch :: "'c \<Rightarrow> 'v option"
    and loaded :: "'c \<Rightarrow> bool"
  assumes fetch_put: "fetch (put v c) = Some v"
    and loaded_iff: "loaded c \<longleftrightarrow> fetch c \<noteq> None"
begin

text \<open>The last good value wins, and a cell once loaded stays loaded.\<close>

lemma fetch_feed:
  "fetch (feed put vs c) =
     (case List.map_filter id vs of [] \<Rightarrow> fetch c | xs \<Rightarrow> Some (last xs))"
proof (induction vs arbitrary: c)
  case Nil
  show ?case by (simp add: feed_def map_filter_simps)
next
  case (Cons v vs)
  then show ?case
    by (cases v) (auto simp: feed_def map_filter_simps fetch_put split: list.splits)
qed

lemma loaded_feed: "loaded c \<Longrightarrow> loaded (feed put vs c)"
  by (simp add: loaded_iff fetch_feed split: list.split)

lemma feed_preserves:
  assumes "\<And>v. fetch c = Some v \<Longrightarrow> P v" "\<And>v. Some v \<in> set vs \<Longrightarrow> P v" "fetch (feed put vs c) = Some v"
  shows "P v"
proof (cases "List.map_filter id vs")
  case Nil
  with assms(1,3) show ?thesis by (simp add: fetch_feed)
next
  case (Cons x xs)
  with assms(3) have "v \<in> set (List.map_filter id vs)" by (auto simp: fetch_feed)
  then have "Some v \<in> set vs" by (auto simp: map_filter_def)
  with assms(2) show ?thesis by blast
qed

end

section \<open>The store and the parser\<close>

type_synonym 'jwks store = "'jwks option"

definition store_new :: "'jwks store" where
  "store_new = None"

definition is_loaded :: "'jwks store \<Rightarrow> bool" where
  "is_loaded s = (s \<noteq> None)"

definition store_get :: "'jwks store \<Rightarrow> 'jwks option" where
  "store_get s = s"

definition store_set :: "'jwks \<Rightarrow> 'jwks store \<Rightarrow> 'jwks store" where
  "store_set jwks s = Some jwks"

interpretation jst: latest_value store_set store_get is_loaded
  by unfold_locales (simp_all add: store_set_def store_get_def is_loaded_def)

record issuer_config =
  iss_issuer_url :: string
  running_in_cluster :: bool
  iss_port :: u16
  jwks_secret_name :: string
  jwks_file_path :: string

record ('jwks, 'url) issuer_lib =
  il_issuer_url :: "string \<Rightarrow> string res"
  il_parse :: "string \<Rightarrow> 'jwks res"
  il_keys :: "'jwks \<Rightarrow> nat"
  il_to_string :: "'jwks \<Rightarrow> string res"
  il_url :: "string \<Rightarrow> 'url res"

definition issuer_from_env ::
  "('jwks, 'url) issuer_lib \<Rightarrow> environ \<Rightarrow> issuer_config res" where
  "issuer_from_env lib vars =
     res_bind (res_bind (env_required vars ''ISSUER_URL'' ''ISSUER_URL is required'')
       (\<lambda>s. with_context ''invalid ISSUER_URL'' (il_issuer_url lib s))) (\<lambda>issuer_url.
     let in_cluster = env_parse parse_bool vars ''RUNNING_IN_CLUSTER'' False;
         port = env_parse parse_u16 vars ''PORT'' 5002;
         secret_name = env_or vars ''JWKS_SECRET_NAME'' ''kif-jwks''
     in res_bind (env_required vars ''JWKS_FILE_PATH'' ''JWKS_FILE_PATH is required'') (\<lambda>path.
        Inr \<lparr>iss_issuer_url = issuer_url, running_in_cluster = in_cluster, iss_port = port,
             jwks_secret_name = secret_name, jwks_file_path = path\<rparr>))"

definition parse_jwks :: "('jwks, 'url) issuer_lib \<Rightarrow> string \<Rightarrow> 'jwks res" where
  "parse_jwks lib bytes =
     res_bind (from_utf8 bytes) (\<lambda>jwks_json.
     res_bind (il_parse lib jwks_json) (\<lambda>jwks.
       if il_keys lib jwks = 0 then Inl ''attempted to set empty JWKS; ignoring'' else Inr jwks))"

lemma parse_jwks_Inr:
  "parse_jwks lib bytes = Inr jwks \<longleftrightarrow>
     valid_utf8 bytes \<and> il_parse lib bytes = Inr jwks \<and> 0 < il_keys lib jwks"
  by (auto simp: parse_jwks_def res_bind_eq_Inr from_utf8_Inr split: if_splits)

section \<open>The watcher of the Secret\<close>

definition issuer_secret_key :: string where
  "issuer_secret_key = ''jwks.json''"

definition secret_event ::
  "('jwks, 'url) issuer_lib \<Rightarrow> Secret res \<Rightarrow> 'jwks store \<Rightarrow> 'jwks store" where
  "secret_event lib ev s =
     (case ev of
        Inl _ \<Rightarrow> s
      | Inr secret \<Rightarrow>
          (case secret_data secret of
             None \<Rightarrow> s
           | Some data \<Rightarrow>
               (case map_of data issuer_secret_key of
                  None \<Rightarrow> s
                | Some bytes \<Rightarrow>
                    (case parse_jwks lib bytes of Inr jwks \<Rightarrow> store_set jwks s | Inl _ \<Rightarrow> s))))"

text \<open>\<open>run_secret_watcher\<close> over the objects of the stream.\<close>

definition run_secret_watcher ::
  "('jwks, 'url) issuer_lib \<Rightarrow> unit res \<Rightarrow> Secret res list \<Rightarrow> 'jwks store \<Rightarrow> unit res \<times> 'jwks store" where
  "run_secret_watcher lib try_client evs s =
     (case try_client of Inl e \<Rightarrow> (Inl e, s) | Inr _ \<Rightarrow> (Inr (), fold (secret_event lib) evs s))"

text \<open>The document an event carries, if it is a good one.\<close>

definition event_jwks :: "('jwks, 'url) issuer_lib \<Rightarrow> Secret res \<Rightarrow> 'jwks option" where
  "event_jwks lib ev =
     (case ev of
        Inl _ \<Rightarrow> None
      | Inr secret \<Rightarrow>
          Option.bind (Option.bind (secret_data secret) (\<lambda>data. map_of data issuer_secret_key))
            (\<lambda>bytes. res_ok (parse_jwks lib bytes)))"

lemma secret_event_feed:
  "secret_event lib ev s = (case event_jwks lib ev of None \<Rightarrow> s | Some j \<Rightarrow> store_set j s)"
  by (simp add: secret_event_def event_jwks_def split: sum.split option.split)

lemma secret_events_feed: "fold (secret_event lib) evs s = feed store_set (map (event_jwks lib) evs) s"
  by (induction evs arbitrary: s) (simp_all add: feed_def secret_event_feed)

lemma event_jwks_keys: "event_jwks lib ev = Some j \<Longrightarrow> 0 < il_keys lib j"
proof -
  assume "event_jwks lib ev = Some j"
  then obtain bytes where "res_ok (parse_jwks lib bytes) = Some j"
    by (auto simp: event_jwks_def Option.bind_eq_Some_conv split: sum.splits)
  then show ?thesis by (simp add: res_ok_eq_Some parse_jwks_Inr)
qed

section \<open>The loader\<close>

text \<open>One record for what the loader meets: the file and the clock at each attempt (the
  clock is read after a failed one), the clock at the start, and the rest of the environment.\<close>

record loader_env =
  ld_file :: "nat \<Rightarrow> string res"
  ld_clock :: "nat \<Rightarrow> int"
  ld_start :: int

definition seconds :: "int \<Rightarrow> int" where
  "seconds n = n * 10 ^ 9"

partial_function (option) load_loop ::
  "('jwks, 'url) issuer_lib \<Rightarrow> loader_env \<Rightarrow> string \<Rightarrow> nat \<Rightarrow> 'jwks store \<Rightarrow>
     (nat \<times> (error + 'jwks store)) option" where
  "load_loop lib env path i s =
     (case ld_file env i of
        Inr bytes \<Rightarrow>
          (case parse_jwks lib bytes of
             Inr jwks \<Rightarrow> Some (i, Inr (store_set jwks s))
           | Inl e \<Rightarrow> Some (i, Inl (''failed to parse JWKS from '' @ path @ '': '' @ e)))
      | Inl e \<Rightarrow>
          if ld_clock env i < ld_start env + seconds 120 then load_loop lib env path (Suc i) s
          else Some (i, Inl (''failed to read JWKS_FILE_PATH='' @ path @ '': '' @ e)))"

definition load_jwks_and_watch ::
  "('jwks, 'url) issuer_lib \<Rightarrow> loader_env \<Rightarrow> (string \<Rightarrow> string res) \<Rightarrow> unit res \<Rightarrow> Secret res list \<Rightarrow>
     string \<Rightarrow> bool \<Rightarrow> 'jwks store \<Rightarrow> (unit res \<times> 'jwks store) option" where
  "load_jwks_and_watch lib env read_file try_client evs path in_cluster s =
     map_option (\<lambda>(i, r). case r of
         Inl e \<Rightarrow> (Inl e, s)
       | Inr s \<Rightarrow>
           if \<not> in_cluster then (Inr (), s)
           else (case pod_namespace read_file of
               Inl e \<Rightarrow> (Inl e, s)
             | Inr _ \<Rightarrow> run_secret_watcher lib try_client evs s))
       (load_loop lib env path 0 s)"

section \<open>The endpoints\<close>

record issuer_reply =
  ir_status :: nat
  ir_headers :: "(string \<times> string) list"
  ir_body :: "string option"

definition status_only :: "nat \<Rightarrow> issuer_reply" where
  "status_only st = \<lparr>ir_status = st, ir_headers = [], ir_body = None\<rparr>"

definition issuer_startupz :: "'jwks store \<Rightarrow> nat" where
  "issuer_startupz s = (if is_loaded s then 200 else 503)"

definition get_jwks :: "('jwks, 'url) issuer_lib \<Rightarrow> 'jwks store \<Rightarrow> issuer_reply" where
  "get_jwks lib s =
     (case store_get s of
        Some jwks \<Rightarrow>
          (case il_to_string lib jwks of
             Inr body \<Rightarrow>
               \<lparr>ir_status = 200,
                ir_headers = [(''content-type'', ''application/json''),
                              (''cache-control'', ''public, max-age=300'')],
                ir_body = Some body\<rparr>
           | Inl _ \<Rightarrow> status_only 500)
      | None \<Rightarrow> status_only 503)"

text \<open>The discovery document, before it is serialised.\<close>

record 'url ProviderMetadata =
  pm_issuer :: string
  pm_authorization_endpoint :: 'url
  pm_jwks_uri :: 'url
  pm_response_types :: "string list"
  pm_subject_types :: "string list"
  pm_signing_algs :: "string list"

definition openid_discovery_doc ::
  "('jwks, 'url) issuer_lib \<Rightarrow> issuer_config \<Rightarrow>
     nat + ((string \<times> string) list \<times> 'url ProviderMetadata)" where
  "openid_discovery_doc lib cfg =
     (case il_url lib (iss_issuer_url cfg @ ''/authorize'') of
        Inl _ \<Rightarrow> Inl 500
      | Inr auth_url \<Rightarrow>
          (case il_url lib (iss_issuer_url cfg @ ''/jwks.json'') of
             Inl _ \<Rightarrow> Inl 500
           | Inr jwks_uri \<Rightarrow>
               Inr ([(''content-type'', ''application/json''),
                     (''cache-control'', ''public, max-age=3600'')],
                 \<lparr>pm_issuer = iss_issuer_url cfg, pm_authorization_endpoint = auth_url,
                  pm_jwks_uri = jwks_uri, pm_response_types = [''id_token''],
                  pm_subject_types = [''pairwise''], pm_signing_algs = [''RS256'']\<rparr>)))"

section \<open>The last good document is served\<close>

lemma run_secret_watcher_store:
  "try_client = Inr () \<Longrightarrow>
     snd (run_secret_watcher lib try_client evs s) = feed store_set (map (event_jwks lib) evs) s"
  by (simp add: run_secret_watcher_def secret_events_feed)

text \<open>
  C39: After any sequence of watch events, the issuer's store holds the key set of the last
  event that carried a valid one, or what it held before if none did: errors, missing data
  and invalid documents change nothing.
\<close>

theorem issuer_keeps_last_good:
  "store_get (snd (run_secret_watcher lib (Inr ()) evs s)) =
     (case List.map_filter (event_jwks lib) evs of [] \<Rightarrow> store_get s | js \<Rightarrow> Some (last js))"
  by (simp add: run_secret_watcher_store jst.fetch_feed map_filter_def comp_def filter_map id_def)

lemma get_jwks_available: "ir_status (get_jwks lib s) = 503 \<longleftrightarrow> \<not> is_loaded s"
proof (cases s)
  case None
  then show ?thesis by (simp add: get_jwks_def store_get_def is_loaded_def status_only_def)
next
  case (Some j)
  then show ?thesis
    by (cases "il_to_string lib j") (simp_all add: get_jwks_def store_get_def is_loaded_def status_only_def)
qed

lemma issuer_never_unloads:
  assumes "issuer_startupz s = 200" "\<And>j. store_get s = Some j \<Longrightarrow> 0 < il_keys lib j"
  shows "issuer_startupz (snd (run_secret_watcher lib client evs s)) = 200 \<and>
     ir_status (get_jwks lib (snd (run_secret_watcher lib client evs s))) \<noteq> 503 \<and>
     (\<forall>j. store_get (snd (run_secret_watcher lib client evs s)) = Some j \<longrightarrow> 0 < il_keys lib j)"
proof (cases client)
  case (Inl e)
  with assms show ?thesis
    by (auto simp: run_secret_watcher_def issuer_startupz_def get_jwks_available split: if_splits)
next
  case (Inr u)
  let ?s = "feed store_set (map (event_jwks lib) evs) s"
  have "is_loaded s" using assms(1) by (simp add: issuer_startupz_def split: if_splits)
  then have "is_loaded ?s" by (rule jst.loaded_feed)
  moreover have "0 < il_keys lib j" if "store_get ?s = Some j" for j
    by (rule jst.feed_preserves [OF assms(2) _ that]) (auto dest: event_jwks_keys [OF sym])
  ultimately show ?thesis using Inr
    by (simp add: run_secret_watcher_store issuer_startupz_def get_jwks_available)
qed

section \<open>The loader ends\<close>

text \<open>Each retry sleeps five seconds, so the deadline of two minutes leaves room for
  twenty-five attempts at most.\<close>

definition clock_runs :: "loader_env \<Rightarrow> bool" where
  "clock_runs env \<longleftrightarrow> ld_start env \<le> ld_clock env 0 \<and>
     (\<forall>i. ld_clock env i + seconds 5 \<le> ld_clock env (Suc i))"

lemma clock_runs_ge: "clock_runs env \<Longrightarrow> ld_start env + seconds (5 * int i) \<le> ld_clock env i"
proof (induction i)
  case (Suc i)
  then have "ld_clock env i + seconds 5 \<le> ld_clock env (Suc i)" by (simp add: clock_runs_def)
  with Suc show ?case by (simp add: seconds_def)
qed (simp add: clock_runs_def seconds_def)

definition load_result ::
  "('jwks, 'url) issuer_lib \<Rightarrow> loader_env \<Rightarrow> string \<Rightarrow> nat \<Rightarrow> 'jwks store \<Rightarrow> error + 'jwks store" where
  "load_result lib env path i s =
     (case ld_file env i of
        Inl e \<Rightarrow> Inl (''failed to read JWKS_FILE_PATH='' @ path @ '': '' @ e)
      | Inr bytes \<Rightarrow>
          (case parse_jwks lib bytes of
             Inl e \<Rightarrow> Inl (''failed to parse JWKS from '' @ path @ '': '' @ e)
           | Inr jwks \<Rightarrow> Inr (store_set jwks s)))"

text \<open>An attempt at which the loop goes on: the file cannot be read, and the clock is before
  the deadline.\<close>

definition retried :: "loader_env \<Rightarrow> nat \<Rightarrow> bool" where
  "retried env k \<longleftrightarrow> \<not> is_ok (ld_file env k) \<and> ld_clock env k < ld_start env + seconds 120"

lemma load_loop_step:
  "load_loop lib env path i s =
     (if retried env i then load_loop lib env path (Suc i) s else Some (i, load_result lib env path i s))"
  by (subst load_loop.simps) (auto simp: retried_def load_result_def is_ok_def split: sum.split)

lemma not_retried_after_24: "clock_runs env \<Longrightarrow> \<not> retried env 24"
  using clock_runs_ge [of env 24] by (simp add: retried_def seconds_def)

lemma load_loop_ends:
  "clock_runs env \<Longrightarrow> i \<le> 24 \<Longrightarrow>
     \<exists>n \<ge> i. n \<le> 24 \<and> load_loop lib env path i s = Some (n, load_result lib env path n s) \<and>
       (\<forall>k. i \<le> k \<and> k < n \<longrightarrow> retried env k) \<and> \<not> retried env n"
proof (induction "24 - i" arbitrary: i)
  case 0
  then have "i = 24" by simp
  with not_retried_after_24 [OF 0(2)] show ?case
    by (intro exI [of _ 24]) (auto simp: load_loop_step [of lib env path 24])
next
  case (Suc d)
  show ?case
  proof (cases "retried env i")
    case True
    from Suc.hyps(2) have "d = 24 - Suc i" "Suc i \<le> 24" by simp_all
    from Suc.hyps(1) [OF this(1) Suc.prems(1) this(2)] obtain n where n: "Suc i \<le> n" "n \<le> 24"
      "load_loop lib env path (Suc i) s = Some (n, load_result lib env path n s)"
      "\<forall>k. Suc i \<le> k \<and> k < n \<longrightarrow> retried env k" "\<not> retried env n" by blast
    moreover have "load_loop lib env path i s = load_loop lib env path (Suc i) s"
      using True by (simp add: load_loop_step [of lib env path i])
    ultimately show ?thesis using True
      by (intro exI [of _ n]) (metis Suc_leD Suc_leI le_neq_implies_less)
  next
    case False
    then show ?thesis using Suc.prems
      by (intro exI [of _ i]) (auto simp: load_loop_step [of lib env path i])
  qed
qed

text \<open>
  C40: The loop that waits for the JWKS file, whose code has no bound on its iterations,
  returns after at most 25 attempts when the clock advances by the five seconds it sleeps.
  It tries again after every attempt at which the file cannot be read before the deadline,
  and returns at the first at which the file can be read or the deadline of 120 seconds has
  passed.
\<close>

theorem loader_ends_within_25_attempts:
  assumes "clock_runs env"
  shows "\<exists>n \<le> 24. load_loop lib env path 0 s = Some (n, load_result lib env path n s) \<and>
     (\<forall>k < n. \<not> is_ok (ld_file env k) \<and> ld_clock env k < ld_start env + seconds 120) \<and>
     (is_ok (ld_file env n) \<or> ld_start env + seconds 120 \<le> ld_clock env n)"
  using load_loop_ends [OF assms, of 0 lib path s] by (auto simp: retried_def)

end
