(* ===== verification/Http_Routes.thy ===== *)
theory Http_Routes
  imports Controller Admission Federation Agent Issuer
begin

text \<open>
  The routers of the four services (\<open>http.rs\<close> of each crate), the two \<open>livez\<close> handlers that
  the component theories leave out.
\<close>

section \<open>Routes\<close>

datatype http_method = GET | POST

type_synonym 'h router = "(string \<times> http_method \<times> 'h) list"

text \<open>\<open>axum\<close>: an unknown path is answered with 404, a known one with another method with 405.\<close>

definition dispatch :: "'h router \<Rightarrow> http_method \<Rightarrow> string \<Rightarrow> nat + 'h" where
  "dispatch routes m path =
     (case map_of routes path of
        None \<Rightarrow> Inl 404
      | Some (m', h) \<Rightarrow> if m = m' then Inr h else Inl 405)"

datatype agent_endpoint = AgentLivez | AgentStartupz

definition agent_router :: "agent_endpoint router" where
  "agent_router = [(''/livez'', GET, AgentLivez), (''/startupz'', GET, AgentStartupz)]"

definition agent_livez :: nat where
  "agent_livez = 200"

definition agent_serve :: "agent_state \<Rightarrow> http_method \<Rightarrow> string \<Rightarrow> nat" where
  "agent_serve st m path =
     (case dispatch agent_router m path of
        Inl s \<Rightarrow> s
      | Inr AgentLivez \<Rightarrow> agent_livez
      | Inr AgentStartupz \<Rightarrow> agent_startupz st)"

datatype health_endpoint = HealthLivez | HealthStartupz

definition health_router :: "health_endpoint router" where
  "health_router = [(''/livez'', GET, HealthLivez), (''/startupz'', GET, HealthStartupz)]"

definition webhook_livez :: nat where
  "webhook_livez = 200"

definition health_serve :: "bool \<Rightarrow> http_method \<Rightarrow> string \<Rightarrow> nat" where
  "health_serve ready m path =
     (case dispatch health_router m path of
        Inl s \<Rightarrow> s
      | Inr HealthLivez \<Rightarrow> webhook_livez
      | Inr HealthStartupz \<Rightarrow> webhook_startupz ready)"

datatype admission_endpoint = Mutate

definition admission_router :: "admission_endpoint router" where
  "admission_router = [(''/mutate'', POST, Mutate)]"

datatype federation_endpoint = FedLivez | FedMint | FedRotateKeys

definition federation_router :: "federation_endpoint router" where
  "federation_router =
     [(''/livez'', GET, FedLivez), (''/v1/mint'', POST, FedMint), (''/v1/rotate-keys'', POST, FedRotateKeys)]"

text \<open>A request to the federation service, by method and path, with its Authorization header
  and body.\<close>

definition federation_serve ::
  "json_text \<Rightarrow> ('key, 'jwk, 'z) jwt_lib_scheme \<Rightarrow> kube_api \<Rightarrow> SystemTime \<Rightarrow> SystemTime \<Rightarrow> FedState \<Rightarrow>
     http_method \<Rightarrow> string \<Rightarrow> string option \<Rightarrow> string \<Rightarrow> call_log \<Rightarrow> mint_reply \<times> call_log" where
  "federation_serve jt lib api t1 t2 state m path authorization body log =
     (case dispatch federation_router m path of
        Inl s \<Rightarrow> (MintText s [], log)
      | Inr FedLivez \<Rightarrow> (MintText livez [], log)
      | Inr FedMint \<Rightarrow> mint_endpoint jt lib api t1 t2 state authorization body log
      | Inr FedRotateKeys \<Rightarrow> (MintText (rotate_keys state) [], log))"

datatype issuer_endpoint = Discovery | Jwks | IssuerStartupz | IssuerLivez

definition issuer_router :: "issuer_endpoint router" where
  "issuer_router =
     [(''/.well-known/openid-configuration'', GET, Discovery), (''/jwks.json'', GET, Jwks),
      (''/startupz'', GET, IssuerStartupz), (''/livez'', GET, IssuerLivez)]"

definition issuer_livez :: nat where
  "issuer_livez = 200"

text \<open>The serialiser of the discovery document is a parameter.\<close>

definition issuer_serve ::
  "('jwks, 'url) issuer_lib \<Rightarrow> ('url ProviderMetadata \<Rightarrow> string) \<Rightarrow> issuer_config \<Rightarrow> 'jwks store \<Rightarrow>
     http_method \<Rightarrow> string \<Rightarrow> issuer_reply" where
  "issuer_serve lib to_text cfg s m path =
     (case dispatch issuer_router m path of
        Inl st \<Rightarrow> status_only st
      | Inr Discovery \<Rightarrow>
          (case openid_discovery_doc lib cfg of
             Inl st \<Rightarrow> status_only st
           | Inr (headers, doc) \<Rightarrow> \<lparr>ir_status = 200, ir_headers = headers, ir_body = Some (to_text doc)\<rparr>)
      | Inr Jwks \<Rightarrow> get_jwks lib s
      | Inr IssuerStartupz \<Rightarrow> status_only (issuer_startupz s)
      | Inr IssuerLivez \<Rightarrow> status_only issuer_livez)"

text \<open>Every service has one endpoint per path.\<close>

lemma routers_distinct:
  "distinct (map fst agent_router)" "distinct (map fst health_router)"
  "distinct (map fst federation_router)" "distinct (map fst issuer_router)"
  by (simp_all add: agent_router_def health_router_def federation_router_def issuer_router_def)

lemma mint_route:
  "federation_serve jt lib api t1 t2 state POST ''/v1/mint'' authorization body log =
     mint_endpoint jt lib api t1 t2 state authorization body log"
  by (simp add: federation_serve_def dispatch_def federation_router_def)

lemma startupz_route: "agent_serve st GET ''/startupz'' = agent_startupz st"
  by (simp add: agent_serve_def dispatch_def agent_router_def)

text \<open>No other request makes the federation service ask the API server anything.\<close>

lemma federation_quiet:
  "m \<noteq> POST \<or> path \<noteq> ''/v1/mint'' \<Longrightarrow>
     snd (federation_serve jt lib api t1 t2 state m path authorization body log) = log"
  by (auto simp: federation_serve_def dispatch_def federation_router_def split: if_splits)

text \<open>The document the issuer publishes names a path it serves the keys under.\<close>

lemma discovery_names_jwks:
  assumes "openid_discovery_doc lib cfg = Inr (headers, doc)"
  shows "\<exists>path. il_url lib (iss_issuer_url cfg @ path) = Inr (pm_jwks_uri doc) \<and>
     issuer_serve lib to_text cfg s GET path = get_jwks lib s"
proof (intro exI conjI)
  show "il_url lib (iss_issuer_url cfg @ ''/jwks.json'') = Inr (pm_jwks_uri doc)"
    using assms by (auto simp: openid_discovery_doc_def split: sum.splits)
  show "issuer_serve lib to_text cfg s GET ''/jwks.json'' = get_jwks lib s"
    by (simp add: issuer_serve_def dispatch_def issuer_router_def)
qed

end
