(* ===== verification/Queue.thy ===== *)
theory Queue
  imports Prelude
begin

text \<open>
  \<open>kif-webhook/src/queue.rs\<close>: the work queue between the watcher and the reconcile
  workers, a bounded channel with a set of the keys in flight. Each critical section and
  each channel operation is one atomic function; the calls \<open>enqueue\<close> and the worker
  loop make in between are the steps of the relation \<open>qstep\<close>. A call that would wait
  (a full channel, an empty channel) is not enabled. The interface the queue offers is
  the locale \<open>dedup_queue\<close>, with the invariant its clients rely on proved there.
\<close>

section \<open>The interface\<close>

text \<open>A key is in flight from the moment it is claimed until it is finished; on its way it
  is with a sender, then in the channel, then with a worker.\<close>

definition queue_inv :: "'k set \<Rightarrow> 'k list \<Rightarrow> 'k list \<Rightarrow> 'k list \<Rightarrow> bool" where
  "queue_inv flight items senders workers \<longleftrightarrow>
     distinct (items @ senders @ workers) \<and> set (items @ senders @ workers) \<subseteq> flight"

locale dedup_queue =
  fixes claim :: "'k \<Rightarrow> 'q \<Rightarrow> 'q option"
    and push :: "'k \<Rightarrow> 'q \<Rightarrow> 'q option"
    and refuse :: "'k \<Rightarrow> 'q \<Rightarrow> 'q option"
    and pop :: "'q \<Rightarrow> ('k \<times> 'q) option"
    and finish :: "'k \<Rightarrow> 'q \<Rightarrow> 'q"
    and flight :: "'q \<Rightarrow> 'k set"
    and items :: "'q \<Rightarrow> 'k list"
  assumes claim_None: "claim k q = None \<longleftrightarrow> k \<in> flight q"
    and claim_Some: "claim k q = Some q' \<Longrightarrow> flight q' = insert k (flight q) \<and> items q' = items q"
    and push_Some: "push k q = Some q' \<Longrightarrow> flight q' = flight q \<and> items q' = items q @ [k]"
    and refuse_Some: "refuse k q = Some q' \<Longrightarrow> flight q' = flight q - {k} \<and> items q' = items q"
    and pop_Some: "pop q = Some (k, q') \<Longrightarrow> flight q' = flight q \<and> items q = k # items q'"
    and finish_flight: "flight (finish k q) = flight q - {k}"
    and finish_items: "items (finish k q) = items q"
begin

abbreviation inv :: "'q \<Rightarrow> 'k list \<Rightarrow> 'k list \<Rightarrow> bool" where
  "inv q senders workers \<equiv> queue_inv (flight q) (items q) senders workers"

lemma inv_claim:
  assumes "inv q S W" "claim k q = Some q'"
  shows "inv q' (k # S) W"
proof -
  have "k \<notin> flight q" using assms(2) claim_None by (metis option.distinct(1))
  with assms(1) claim_Some [OF assms(2)] show ?thesis by (auto simp: queue_inv_def)
qed

lemma inv_push:
  "inv q S W \<Longrightarrow> k \<in> set S \<Longrightarrow> push k q = Some q' \<Longrightarrow> inv q' (remove1 k S) W"
  using push_Some [of k q q'] by (auto simp: queue_inv_def dest: notin_set_remove1)

lemma inv_refuse:
  "inv q S W \<Longrightarrow> k \<in> set S \<Longrightarrow> refuse k q = Some q' \<Longrightarrow> inv q' (remove1 k S) W"
  using refuse_Some [of k q q'] by (auto simp: queue_inv_def dest: notin_set_remove1)

lemma inv_pop: "inv q S W \<Longrightarrow> pop q = Some (k, q') \<Longrightarrow> inv q' S (k # W)"
  using pop_Some [of q k q'] by (auto simp: queue_inv_def)

lemma inv_finish: "inv q S W \<Longrightarrow> k \<in> set W \<Longrightarrow> inv (finish k q) S (remove1 k W)"
  by (auto simp: queue_inv_def finish_flight finish_items dest: notin_set_remove1)

text \<open>Claiming a key that is at work anywhere fails: no key is handled twice at a time.\<close>

lemma claim_at_work:
  "inv q S W \<Longrightarrow> k \<in> set (items q @ S @ W) \<Longrightarrow> claim k q = None"
  unfolding claim_None queue_inv_def by blast

end

section \<open>The queue of the webhook\<close>

record 'k queue =
  in_flight :: "'k set"
  channel :: "'k list"
  capacity :: nat
  rx_open :: bool

text \<open>\<open>Queue::new\<close> with the receiver alive.\<close>

definition queue_new :: "nat \<Rightarrow> 'k queue" where
  "queue_new buffer = \<lparr>in_flight = {}, channel = [], capacity = buffer, rx_open = True\<rparr>"

text \<open>The first critical section of \<open>enqueue\<close>: \<open>None\<close> is its early return.\<close>

definition enqueue_claim :: "'k \<Rightarrow> 'k queue \<Rightarrow> 'k queue option" where
  "enqueue_claim k q =
     (if k \<in> in_flight q then None else Some (q\<lparr>in_flight := insert k (in_flight q)\<rparr>))"

text \<open>\<open>tx.send\<close>: waits while the channel is full and fails once the receiver is gone, in
  which case \<open>enqueue\<close> takes the key out of the set again.\<close>

definition enqueue_send :: "'k \<Rightarrow> 'k queue \<Rightarrow> 'k queue option" where
  "enqueue_send k q =
     (if rx_open q \<and> length (channel q) < capacity q
      then Some (q\<lparr>channel := channel q @ [k]\<rparr>) else None)"

definition enqueue_unclaim :: "'k \<Rightarrow> 'k queue \<Rightarrow> 'k queue option" where
  "enqueue_unclaim k q =
     (if rx_open q then None else Some (q\<lparr>in_flight := in_flight q - {k}\<rparr>))"

definition recv :: "'k queue \<Rightarrow> ('k \<times> 'k queue) option" where
  "recv q =
     (if rx_open q then
        (case channel q of [] \<Rightarrow> None | k # ks \<Rightarrow> Some (k, q\<lparr>channel := ks\<rparr>))
      else None)"

definition queue_done :: "'k \<Rightarrow> 'k queue \<Rightarrow> 'k queue" where
  "queue_done k q = q\<lparr>in_flight := in_flight q - {k}\<rparr>"

text \<open>Dropping the receiver closes the channel and discards what it holds.\<close>

definition drop_rx :: "'k queue \<Rightarrow> 'k queue" where
  "drop_rx q = q\<lparr>rx_open := False, channel := []\<rparr>"

interpretation wq: dedup_queue enqueue_claim enqueue_send enqueue_unclaim recv queue_done in_flight channel
  by unfold_locales
    (auto simp: enqueue_claim_def enqueue_send_def enqueue_unclaim_def recv_def queue_done_def
      split: if_splits list.splits)

section \<open>Senders and workers around the queue\<close>

record 'k qsys =
  queue_of :: "'k queue"
  senders :: "'k list"
  workers :: "'k list"

definition qsys_init :: "nat \<Rightarrow> 'k qsys" where
  "qsys_init buffer = \<lparr>queue_of = queue_new buffer, senders = [], workers = []\<rparr>"

text \<open>The steps: the two halves of \<open>enqueue\<close>, its early return, a worker taking a key (at
  most \<open>n\<close> workers), a worker finishing it with \<open>done\<close>, and the receiver going away.\<close>

inductive qstep :: "nat \<Rightarrow> 'k qsys \<Rightarrow> 'k qsys \<Rightarrow> bool" for n :: nat where
  duplicate: "enqueue_claim k (queue_of s) = None \<Longrightarrow> qstep n s s"
| claim: "enqueue_claim k (queue_of s) = Some q \<Longrightarrow>
    qstep n s (s\<lparr>queue_of := q, senders := k # senders s\<rparr>)"
| send: "k \<in> set (senders s) \<Longrightarrow> enqueue_send k (queue_of s) = Some q \<Longrightarrow>
    qstep n s (s\<lparr>queue_of := q, senders := remove1 k (senders s)\<rparr>)"
| closed: "k \<in> set (senders s) \<Longrightarrow> enqueue_unclaim k (queue_of s) = Some q \<Longrightarrow>
    qstep n s (s\<lparr>queue_of := q, senders := remove1 k (senders s)\<rparr>)"
| take: "length (workers s) < n \<Longrightarrow> recv (queue_of s) = Some (k, q) \<Longrightarrow>
    qstep n s (s\<lparr>queue_of := q, workers := k # workers s\<rparr>)"
| finish: "k \<in> set (workers s) \<Longrightarrow>
    qstep n s (s\<lparr>queue_of := queue_done k (queue_of s), workers := remove1 k (workers s)\<rparr>)"
| close: "qstep n s (s\<lparr>queue_of := drop_rx (queue_of s)\<rparr>)"

inductive qreach :: "nat \<Rightarrow> nat \<Rightarrow> 'k qsys \<Rightarrow> bool" for buffer n :: nat where
  start: "qreach buffer n (qsys_init buffer)"
| step: "qreach buffer n s \<Longrightarrow> qstep n s t \<Longrightarrow> qreach buffer n t"

inductive_cases qstepE: "qstep n s t"

definition qsys_inv :: "nat \<Rightarrow> nat \<Rightarrow> 'k qsys \<Rightarrow> bool" where
  "qsys_inv buffer n s \<longleftrightarrow> wq.inv (queue_of s) (senders s) (workers s) \<and>
     (rx_open (queue_of s) \<longrightarrow>
        in_flight (queue_of s) = set (channel (queue_of s) @ senders s @ workers s)) \<and>
     capacity (queue_of s) = buffer \<and> length (channel (queue_of s)) \<le> buffer \<and>
     length (workers s) \<le> n"

lemma qsys_invD:
  assumes "qsys_inv buffer n s"
  shows "wq.inv (queue_of s) (senders s) (workers s)"
    "rx_open (queue_of s) \<Longrightarrow>
       in_flight (queue_of s) = set (channel (queue_of s)) \<union> set (senders s) \<union> set (workers s)"
    "capacity (queue_of s) = buffer" "length (channel (queue_of s)) \<le> buffer"
    "length (workers s) \<le> n" "distinct (senders s)" "distinct (workers s)"
    "set (channel (queue_of s)) \<inter> set (workers s) = {}" "set (senders s) \<inter> set (workers s) = {}"
  using assms by (auto simp: qsys_inv_def queue_inv_def)

lemma qsys_invI:
  assumes "wq.inv q S W" "capacity q = buffer" "length (channel q) \<le> buffer" "length W \<le> n"
    and "rx_open q \<Longrightarrow> in_flight q = set (channel q) \<union> set S \<union> set W"
  shows "qsys_inv buffer n (s\<lparr>queue_of := q, senders := S, workers := W\<rparr>)"
  using assms by (simp add: qsys_inv_def Un_assoc)

lemma qstep_inv:
  assumes "qstep n s t" "qsys_inv buffer n s"
  shows "qsys_inv buffer n t"
  using assms(1)
proof (cases rule: qstep.cases)
  case (duplicate k)
  with assms(2) show ?thesis by simp
next
  case (claim k q)
  note i = qsys_invD [OF assms(2)]
  have q: "q = queue_of s\<lparr>in_flight := insert k (in_flight (queue_of s))\<rparr>"
    using claim(2) by (simp add: enqueue_claim_def split: if_splits)
  have "qsys_inv buffer n (s\<lparr>queue_of := q, senders := k # senders s, workers := workers s\<rparr>)"
    by (rule qsys_invI [OF wq.inv_claim [OF i(1) claim(2)]]) (use i in \<open>auto simp: q\<close>)
  then show ?thesis using claim(1) by simp
next
  case (send k q)
  note i = qsys_invD [OF assms(2)]
  have q: "q = queue_of s\<lparr>channel := channel (queue_of s) @ [k]\<rparr>"
    and c: "length (channel (queue_of s)) < capacity (queue_of s)"
    using send(3) by (simp_all add: enqueue_send_def split: if_splits)
  have "qsys_inv buffer n (s\<lparr>queue_of := q, senders := remove1 k (senders s), workers := workers s\<rparr>)"
    by (rule qsys_invI [OF wq.inv_push [OF i(1) send(2,3)]])
      (use i c send(2) in \<open>auto simp: q\<close>)
  then show ?thesis using send(1) by simp
next
  case (closed k q)
  note i = qsys_invD [OF assms(2)]
  have q: "q = queue_of s\<lparr>in_flight := in_flight (queue_of s) - {k}\<rparr>"
    and c: "\<not> rx_open (queue_of s)"
    using closed(3) by (simp_all add: enqueue_unclaim_def split: if_splits)
  have "qsys_inv buffer n (s\<lparr>queue_of := q, senders := remove1 k (senders s), workers := workers s\<rparr>)"
    by (rule qsys_invI [OF wq.inv_refuse [OF i(1) closed(2,3)]]) (use i c in \<open>auto simp: q\<close>)
  then show ?thesis using closed(1) by simp
next
  case (take k q)
  note i = qsys_invD [OF assms(2)]
  obtain ks where q: "q = queue_of s\<lparr>channel := ks\<rparr>" "channel (queue_of s) = k # ks"
    using take(3) by (auto simp: recv_def split: if_splits list.splits)
  have "qsys_inv buffer n (s\<lparr>queue_of := q, senders := senders s, workers := k # workers s\<rparr>)"
    by (rule qsys_invI [OF wq.inv_pop [OF i(1) take(3)]]) (use i take(2) q in auto)
  then show ?thesis using take(1) by simp
next
  case (finish k)
  note i = qsys_invD [OF assms(2)]
  have "qsys_inv buffer n (s\<lparr>queue_of := queue_done k (queue_of s), senders := senders s,
      workers := remove1 k (workers s)\<rparr>)"
    by (rule qsys_invI [OF wq.inv_finish [OF i(1) finish(2)]])
      (use i finish(2) in \<open>auto simp: queue_done_def length_remove1\<close>)
  then show ?thesis using finish(1) by simp
next
  case close
  note i = qsys_invD [OF assms(2)]
  have "qsys_inv buffer n (s\<lparr>queue_of := drop_rx (queue_of s), senders := senders s, workers := workers s\<rparr>)"
    by (rule qsys_invI) (use i in \<open>auto simp: drop_rx_def queue_inv_def\<close>)
  then show ?thesis using close by simp
qed

lemma qreach_inv: "qreach buffer n s \<Longrightarrow> qsys_inv buffer n s"
proof (induction rule: qreach.induct)
  case start
  show ?case by (simp add: qsys_inv_def qsys_init_def queue_new_def queue_inv_def)
next
  case (step s t)
  then show ?case by (blast intro: qstep_inv)
qed

text \<open>
  C26: In every reachable state of queue, producers and workers, no key is at the same time
  in the channel twice, in the channel and with a worker, or with two workers; the channel
  never exceeds its buffer and there are never more active workers than configured.
\<close>

theorem queue_exclusive:
  assumes "qreach buffer n s"
  shows "distinct (channel (queue_of s) @ senders s @ workers s) \<and>
     length (channel (queue_of s)) \<le> buffer \<and> length (workers s) \<le> n"
  using qreach_inv [OF assms] by (simp add: qsys_inv_def queue_inv_def)

lemma queue_accepts_iff_idle:
  assumes "qreach buffer n s" "rx_open (queue_of s)"
  shows "enqueue_claim k (queue_of s) \<noteq> None \<longleftrightarrow>
     k \<notin> set (channel (queue_of s) @ senders s @ workers s)"
  using qreach_inv [OF assms(1)] assms(2) by (simp add: qsys_inv_def enqueue_claim_def)

section \<open>The queue drains\<close>

text \<open>The steps that move a key on: sending, taking and finishing.\<close>

inductive qwork :: "nat \<Rightarrow> 'k qsys \<Rightarrow> 'k qsys \<Rightarrow> bool" for n :: nat where
  w_send: "k \<in> set (senders s) \<Longrightarrow> enqueue_send k (queue_of s) = Some q \<Longrightarrow>
    qwork n s (s\<lparr>queue_of := q, senders := remove1 k (senders s)\<rparr>)"
| w_take: "length (workers s) < n \<Longrightarrow> recv (queue_of s) = Some (k, q) \<Longrightarrow>
    qwork n s (s\<lparr>queue_of := q, workers := k # workers s\<rparr>)"
| w_finish: "k \<in> set (workers s) \<Longrightarrow>
    qwork n s (s\<lparr>queue_of := queue_done k (queue_of s), workers := remove1 k (workers s)\<rparr>)"

definition weight :: "'k qsys \<Rightarrow> nat" where
  "weight s = 3 * length (senders s) + 2 * length (channel (queue_of s)) + length (workers s)"

lemma qwork_qstep: "qwork n s t \<Longrightarrow> qstep n s t"
  by (induction rule: qwork.induct) (auto intro: qstep.intros)

lemma qwork_weight: "qwork n s t \<Longrightarrow> weight t < weight s"
proof (induction rule: qwork.induct)
  case (w_send k s q)
  then obtain m where "length (senders s) = Suc m"
    by (metis length_pos_if_in_set gr0_implies_Suc)
  with w_send show ?case
    by (auto simp: weight_def enqueue_send_def length_remove1 split: if_splits)
next
  case (w_take s k q)
  then show ?case by (auto simp: weight_def recv_def split: if_splits list.splits)
next
  case (w_finish k s)
  then have "0 < length (workers s)" by (auto dest: length_pos_if_in_set)
  with w_finish show ?case by (simp add: weight_def queue_done_def length_remove1)
qed

lemma qwork_open: "qwork n s t \<Longrightarrow> rx_open (queue_of t) = rx_open (queue_of s)"
  by (induction rule: qwork.induct)
    (auto simp: enqueue_send_def recv_def queue_done_def split: if_splits list.splits)

lemma qwork_progress:
  assumes "rx_open (queue_of s)" "0 < n" "0 < capacity (queue_of s)" "weight s \<noteq> 0"
  shows "\<exists>t. qwork n s t"
proof (cases "workers s")
  case (Cons k ks)
  then show ?thesis using w_finish [of k s n] by auto
next
  case Nil
  show ?thesis
  proof (cases "channel (queue_of s)")
    case (Cons k ks)
    with Nil assms w_take [of s n k] show ?thesis by (auto simp: recv_def)
  next
    case chan: Nil
    with Nil assms(4) obtain k ks where "senders s = k # ks"
      by (cases "senders s") (auto simp: weight_def)
    with chan assms w_send [of k s] show ?thesis by (auto simp: enqueue_send_def)
  qed
qed

lemma qwork_capacity: "qwork n s t \<Longrightarrow> capacity (queue_of t) = capacity (queue_of s)"
  by (induction rule: qwork.induct)
    (auto simp: enqueue_send_def recv_def queue_done_def split: if_splits list.splits)

lemma qwork_steps_bound: "(qwork n ^^ m) s t \<Longrightarrow> m + weight t \<le> weight s"
proof (induction m arbitrary: t)
  case 0
  then show ?case by simp
next
  case (Suc m)
  then obtain u where "(qwork n ^^ m) s u" "qwork n u t" by auto
  with Suc.IH [of u] qwork_weight [of n u t] show ?case by simp
qed

lemma qwork_drains:
  assumes "rx_open (queue_of s)" "0 < n" "0 < capacity (queue_of s)"
  shows "\<exists>t. (qwork n)\<^sup>*\<^sup>* s t \<and> weight t = 0"
  using assms
proof (induction "weight s" arbitrary: s rule: less_induct)
  case less
  show ?case
  proof (cases "weight s = 0")
    case True
    then show ?thesis by blast
  next
    case False
    with qwork_progress less.prems obtain u where u: "qwork n s u" by blast
    with less.prems have "rx_open (queue_of u)" "0 < capacity (queue_of u)"
      by (simp_all add: qwork_open qwork_capacity)
    with less.hyps [OF qwork_weight [OF u]] less.prems(2) obtain t
      where "(qwork n)\<^sup>*\<^sup>* u t" "weight t = 0" by blast
    with u show ?thesis by (meson converse_rtranclp_into_rtranclp)
  qed
qed

lemma qreach_qworks: "(qwork n)\<^sup>*\<^sup>* s t \<Longrightarrow> qreach buffer n s \<Longrightarrow> qreach buffer n t"
  by (induction rule: rtranclp_induct) (auto intro: qreach.step qwork_qstep)

lemma qworks_open: "(qwork n)\<^sup>*\<^sup>* s t \<Longrightarrow> rx_open (queue_of s) \<Longrightarrow> rx_open (queue_of t)"
  by (induction rule: rtranclp_induct) (auto simp: qwork_open)

lemma queue_drains:
  assumes "qreach buffer n s" "rx_open (queue_of s)" "0 < n" "0 < buffer"
  shows "(\<exists>t. (qwork n)\<^sup>*\<^sup>* s t \<and> in_flight (queue_of t) = {}) \<and>
     (\<forall>m t. (qwork n ^^ m) s t \<longrightarrow> m \<le> weight s)"
proof
  have "capacity (queue_of s) = buffer"
    using qreach_inv [OF assms(1)] by (rule qsys_invD(3))
  then obtain t where t: "(qwork n)\<^sup>*\<^sup>* s t" "weight t = 0"
    using qwork_drains [OF assms(2,3)] assms(4) by auto
  from qsys_invD(2) [OF qreach_inv [OF qreach_qworks [OF t(1) assms(1)]]]
    qworks_open [OF t(1) assms(2)] t(2)
  have "in_flight (queue_of t) = {}" by (simp add: weight_def)
  with t(1) show "\<exists>t. (qwork n)\<^sup>*\<^sup>* s t \<and> in_flight (queue_of t) = {}" by blast
  show "\<forall>m t. (qwork n ^^ m) s t \<longrightarrow> m \<le> weight s"
    using qwork_steps_bound by fastforce
qed

end
