(* ===== verification/Control_Loop.thy ===== *)
theory Control_Loop
  imports Controller Queue
begin

text \<open>
  The control loop of \<open>kif-webhook/src/reconcile.rs\<close>: the interleaving of the API server,
  the watcher, the queue and the workers of \<open>run_workers\<close> as a step relation. The users change
  bindings at any time; the watcher handles one event after the other; a worker takes a key,
  lists the bindings, which fixes the plan of its writes, and then makes one write per step,
  each with its effect on the server and the events this sends; it may fail at any point
  and then gives the key back as after a success. An error of the watch stream ends the
  watcher and with it the process (\<open>watch_loop\<close>, theory Processes), so it is no step; nor is a
  panic of a worker, as \<open>reconcile\<close> has no call that panics.
\<close>

section \<open>The system\<close>

text \<open>A worker has a key and has not listed yet, or has these writes left.\<close>

datatype phase = Fetching | Writing "kube_call list"

record 's ctl =
  ctl_store :: 's
  ctl_stream :: "watch_event list"
  ctl_queue :: "Key queue"
  ctl_sending :: "Key option"
  ctl_workers :: "(Key \<times> phase) list"

definition ctl_init :: "nat \<Rightarrow> 's \<Rightarrow> watch_event list \<Rightarrow> 's ctl" where
  "ctl_init buffer st evs =
     \<lparr>ctl_store = st, ctl_stream = evs, ctl_queue = queue_new buffer, ctl_sending = None, ctl_workers = []\<rparr>"

datatype action =
    Change watch_event | Pass watch_event | Skip Key | Claim Key | Send Key
  | Take Key | List Key | Write Key kube_call | Fail Key | Done Key

text \<open>\<open>Change\<close> is the users': any change of the bindings, announced by an event; the relation
  allows any event, and theorems on all runs ask for the ones they need (\<open>lossless\<close>). \<open>Pass\<close>,
  \<open>Skip\<close>, \<open>Claim\<close> and \<open>Send\<close> are the watcher's, the others a worker's.\<close>

inductive ctl_step ::
  "'s server \<Rightarrow> reconcile_env \<Rightarrow> nat \<Rightarrow> action \<Rightarrow> 's ctl \<Rightarrow> 's ctl \<Rightarrow> bool"
  for sv :: "'s server" and env :: reconcile_env and n :: nat where
  change: "sv_rcrb sv st = sv_rcrb sv (ctl_store s) \<Longrightarrow>
    ctl_step sv env n (Change ev) s (s\<lparr>ctl_store := st, ctl_stream := ctl_stream s @ [ev]\<rparr>)"
| pass: "ctl_sending s = None \<Longrightarrow> ctl_stream s = ev # evs \<Longrightarrow> event_key ev = None \<Longrightarrow>
    ctl_step sv env n (Pass ev) s (s\<lparr>ctl_stream := evs\<rparr>)"
| skip: "ctl_sending s = None \<Longrightarrow> ctl_stream s = ev # evs \<Longrightarrow> event_key ev = Some k \<Longrightarrow>
    enqueue_claim k (ctl_queue s) = None \<Longrightarrow>
    ctl_step sv env n (Skip k) s (s\<lparr>ctl_stream := evs\<rparr>)"
| claim: "ctl_sending s = None \<Longrightarrow> ctl_stream s = ev # evs \<Longrightarrow> event_key ev = Some k \<Longrightarrow>
    enqueue_claim k (ctl_queue s) = Some q \<Longrightarrow>
    ctl_step sv env n (Claim k) s (s\<lparr>ctl_queue := q, ctl_stream := evs, ctl_sending := Some k\<rparr>)"
| send: "ctl_sending s = Some k \<Longrightarrow> enqueue_send k (ctl_queue s) = Some q \<Longrightarrow>
    ctl_step sv env n (Send k) s (s\<lparr>ctl_queue := q, ctl_sending := None\<rparr>)"
| take: "length (ctl_workers s) < n \<Longrightarrow> recv (ctl_queue s) = Some (k, q) \<Longrightarrow>
    ctl_step sv env n (Take k) s (s\<lparr>ctl_queue := q, ctl_workers := (k, Fetching) # ctl_workers s\<rparr>)"
| list: "ctl_workers s = ws @ (k, Fetching) # ws' \<Longrightarrow>
    cs = plan (env\<lparr>env_clock := clock\<rparr>) k (sv_list sv (ctl_store s) (key_namespace k)) \<Longrightarrow>
    ctl_step sv env n (List k) s (s\<lparr>ctl_workers := ws @ (k, Writing cs) # ws'\<rparr>)"
| put: "ctl_workers s = ws @ (k, Writing (c # cs)) # ws' \<Longrightarrow>
    sv_write sv c (ctl_store s) = Some (st, evs) \<Longrightarrow>
    ctl_step sv env n (Write k c) s
      (s\<lparr>ctl_store := st, ctl_stream := ctl_stream s @ evs, ctl_workers := ws @ (k, Writing cs) # ws'\<rparr>)"
| fail: "ctl_workers s = ws @ (k, p) # ws' \<Longrightarrow> p \<noteq> Writing [] \<Longrightarrow>
    ctl_step sv env n (Fail k) s (s\<lparr>ctl_workers := ws @ (k, Writing []) # ws'\<rparr>)"
| finish: "ctl_workers s = ws @ (k, Writing []) # ws' \<Longrightarrow>
    ctl_step sv env n (Done k) s
      (s\<lparr>ctl_workers := ws @ ws', ctl_queue := queue_done k (ctl_queue s)\<rparr>)"

inductive ctl_reach ::
  "'s server \<Rightarrow> reconcile_env \<Rightarrow> nat \<Rightarrow> nat \<Rightarrow> 's ctl \<Rightarrow> bool"
  for sv :: "'s server" and env :: reconcile_env and buffer n :: nat where
  start: "ctl_reach sv env buffer n (ctl_init buffer st evs)"
| step: "ctl_reach sv env buffer n s \<Longrightarrow> ctl_step sv env n a s t \<Longrightarrow> ctl_reach sv env buffer n t"

text \<open>\<open>run_workers\<close> starts at least one worker.\<close>

definition worker_count :: "nat \<Rightarrow> nat" where
  "worker_count configured = max configured 1"

section \<open>The queue of the system\<close>

definition abs_ctl :: "'s ctl \<Rightarrow> Key qsys" where
  "abs_ctl s =
     \<lparr>queue_of = ctl_queue s,
      senders = (case ctl_sending s of None \<Rightarrow> [] | Some k \<Rightarrow> [k]),
      workers = map fst (ctl_workers s)\<rparr>"

lemma abs_ctl_simps [simp]:
  "queue_of (abs_ctl s) = ctl_queue s"
  "senders (abs_ctl s) = (case ctl_sending s of None \<Rightarrow> [] | Some k \<Rightarrow> [k])"
  "workers (abs_ctl s) = map fst (ctl_workers s)"
  by (simp_all add: abs_ctl_def)

lemma ctl_step_simulation:
  assumes "ctl_step sv env n a s t" "distinct (workers (abs_ctl s))"
  shows "abs_ctl t = abs_ctl s \<or> qstep n (abs_ctl s) (abs_ctl t)"
  using assms(1)
proof (cases rule: ctl_step.cases)
  case (claim ev evs k q)
  then have "abs_ctl t = abs_ctl s\<lparr>queue_of := q, senders := k # senders (abs_ctl s)\<rparr>"
    by (simp add: abs_ctl_def)
  moreover have "enqueue_claim k (queue_of (abs_ctl s)) = Some q" using claim by simp
  ultimately show ?thesis by (metis qstep.claim)
next
  case (send k q)
  then have "abs_ctl t = abs_ctl s\<lparr>queue_of := q, senders := remove1 k (senders (abs_ctl s))\<rparr>"
    by (simp add: abs_ctl_def)
  moreover have "enqueue_send k (queue_of (abs_ctl s)) = Some q" "k \<in> set (senders (abs_ctl s))"
    using send by simp_all
  ultimately show ?thesis by (metis qstep.send)
next
  case (take k q)
  then have "abs_ctl t = abs_ctl s\<lparr>queue_of := q, workers := k # workers (abs_ctl s)\<rparr>"
    by (simp add: abs_ctl_def)
  moreover have "recv (queue_of (abs_ctl s)) = Some (k, q)" "length (workers (abs_ctl s)) < n"
    using take by simp_all
  ultimately show ?thesis by (metis qstep.take)
next
  case (finish ws k ws')
  with assms(2) have "k \<notin> set (map fst ws)" by simp
  with finish have "abs_ctl t = abs_ctl s\<lparr>queue_of := queue_done k (queue_of (abs_ctl s)),
      workers := remove1 k (workers (abs_ctl s))\<rparr>"
    by (simp add: abs_ctl_def remove1_append)
  moreover have "k \<in> set (workers (abs_ctl s))" using finish by simp
  ultimately show ?thesis by (metis qstep.finish)
qed (simp_all add: abs_ctl_def)

lemma abs_ctl_init: "abs_ctl (ctl_init buffer st evs) = qsys_init buffer"
  by (simp add: abs_ctl_def ctl_init_def qsys_init_def)

lemma ctl_reach_qreach: "ctl_reach sv env buffer n s \<Longrightarrow> qreach buffer n (abs_ctl s)"
proof (induction rule: ctl_reach.induct)
  case start
  show ?case by (simp add: abs_ctl_init qreach.start)
next
  case (step s a t)
  have "distinct (workers (abs_ctl s))"
    using qreach_inv [OF step.IH] by (rule qsys_invD(7))
  from ctl_step_simulation [OF step.hyps(2) this] step.IH show ?case
    by (auto intro: qreach.step)
qed

lemma ctl_step_open: "ctl_step sv env n a s t \<Longrightarrow> rx_open (ctl_queue t) = rx_open (ctl_queue s)"
  by (induction rule: ctl_step.induct)
    (auto simp: enqueue_claim_def enqueue_send_def recv_def queue_done_def split: if_splits list.splits)

lemma ctl_reach_open: "ctl_reach sv env buffer n s \<Longrightarrow> rx_open (ctl_queue s)"
  by (induction rule: ctl_reach.induct) (auto simp: ctl_init_def queue_new_def ctl_step_open)

text \<open>What its queue tells of a reachable state.\<close>

lemma ctl_reach_facts:
  assumes "ctl_reach sv env buffer n s"
  shows "distinct (map fst (ctl_workers s))"
    "in_flight (ctl_queue s) = set (channel (ctl_queue s)) \<union> set_option (ctl_sending s) \<union>
       fst ` set (ctl_workers s)"
    "set (channel (ctl_queue s)) \<inter> fst ` set (ctl_workers s) = {}"
    "set_option (ctl_sending s) \<inter> fst ` set (ctl_workers s) = {}"
  using qsys_invD [OF qreach_inv [OF ctl_reach_qreach [OF assms]]] ctl_reach_open [OF assms]
  by (cases "ctl_sending s"; simp)+

text \<open>
  C27: Every reachable state of the control loop (API server, watcher, queue, and workers
  with the writes they have left) is, seen from the queue, a reachable state of the queue
  system, so the queue's guarantees hold of the control loop.
\<close>

theorem controller_refines_queue:
  assumes "ctl_reach sv env buffer n s"
  shows "qreach buffer n (abs_ctl s)"
  using assms by (rule ctl_reach_qreach)

end
