(* ===== verification/Processes.thy ===== *)
theory Processes
  imports Http_Routes Control_Loop
begin

text \<open>
  The processes (\<open>main.rs\<close> of each service): a start, which stops at the first step that
  fails, and then tasks that run side by side, of which the first that ends decides with
  which result the process ends. What a process finds on its host is the record \<open>host\<close> of
  parameters; its log has the steps of the start in order. Logging and the installation of
  the cryptography provider have no influence on either.
\<close>

section \<open>Hosts and starts\<close>

record host =
  h_vars :: environ
  h_read_file :: "string \<Rightarrow> string res"
  h_kube_client :: "unit res"
  h_http_client :: "unit res"
  h_bind :: "string \<Rightarrow> unit res"
  h_pem_file :: "string \<Rightarrow> string \<Rightarrow> unit res"
  h_socket_addr :: "string \<Rightarrow> unit res"

datatype 'task boot_step =
    Api kube_call | Spawn 'task | Listen string | LoadTls string string | Serve

definition spawn :: "'task \<Rightarrow> ('task boot_step, unit) run" where
  "spawn t = request (Spawn t) (\<lambda>_. Inr ())"

definition listen :: "host \<Rightarrow> string \<Rightarrow> ('task boot_step, unit) run" where
  "listen h addr = request (Listen addr) (\<lambda>_. h_bind h addr)"

text \<open>From here on the process answers requests.\<close>

definition serving :: "('task boot_step, unit) run" where
  "serving = request Serve (\<lambda>_. Inr ())"

definition bind_addr :: "u16 \<Rightarrow> string" where
  "bind_addr port = ''0.0.0.0:'' @ show_word port"

text \<open>A task that has ended has panicked (\<open>None\<close>) or returned; \<open>??\<close> hands on a panic and an
  error.\<close>

definition joined :: "unit res option \<Rightarrow> unit res" where
  "joined r = (case r of None \<Rightarrow> Inl ''task panicked'' | Some r \<Rightarrow> r)"

lemma joined_simps [simp]: "joined (Some r) = r" "joined None = Inl ''task panicked''"
  by (simp_all add: joined_def)

lemma joined_Inr: "joined r = Inr () \<longleftrightarrow> r = Some (Inr ())"
  by (cases r) simp_all

lemma run_simps [simp]:
  "spawn t log = (Inr (), log @ [Spawn t])" "listen h addr log = (h_bind h addr, log @ [Listen addr])"
  "serving log = (Inr (), log @ [Serve])"
  by (simp_all add: spawn_def listen_def serving_def)

section \<open>The webhook\<close>

datatype webhook_task = Watcher | Workers u64 | HealthServer

definition webhook_start :: "host \<Rightarrow> (webhook_task boot_step, WebhookConfig) run" where
  "webhook_start h =
     eff_bind (eff_lift (webhook_from_env (h_vars h))) (\<lambda>cfg.
     eff_bind (eff_lift (h_kube_client h)) (\<lambda>_.
     eff_bind (spawn Watcher) (\<lambda>_.
     eff_bind (spawn (Workers (reconcile_workers cfg))) (\<lambda>_.
     eff_bind (listen h (bind_addr (health_port cfg))) (\<lambda>_.
     eff_bind (spawn HealthServer) (\<lambda>_.
     eff_bind (request (LoadTls (tls_cert_path cfg) (tls_key_path cfg))
                 (\<lambda>_. h_pem_file h (tls_cert_path cfg) (tls_key_path cfg))) (\<lambda>_.
     eff_bind (eff_lift (h_socket_addr h (bind_addr (https_port cfg)))) (\<lambda>_.
     eff_return cfg))))))))"

text \<open>The control loop that the watcher and the workers form once they are spawned: a queue of
  2048 keys, and the configured number of workers, at least one.\<close>

definition webhook_loop :: "'s \<Rightarrow> watch_event list \<Rightarrow> 's ctl" where
  "webhook_loop st evs = ctl_init 2048 st evs"

definition webhook_step ::
  "WebhookConfig \<Rightarrow> 's server \<Rightarrow> reconcile_env \<Rightarrow> action \<Rightarrow> 's ctl \<Rightarrow> 's ctl \<Rightarrow> bool" where
  "webhook_step cfg sv env = ctl_step sv env (worker_count (unat (reconcile_workers cfg)))"

text \<open>\<open>select!\<close> over the four tasks; the first that ends has the outcome \<open>ended\<close>.\<close>

datatype webhook_end =
    AdmissionEnds "unit res" | WatcherEnds "unit res option" | WorkersEnd "unit res option"
  | HealthEnds "unit res option"

definition webhook_select :: "webhook_end \<Rightarrow> unit res" where
  "webhook_select ended =
     (case ended of
        AdmissionEnds r \<Rightarrow> r
      | WatcherEnds r \<Rightarrow> joined r
      | WorkersEnd r \<Rightarrow> joined r
      | HealthEnds r \<Rightarrow> joined r)"

definition webhook_main :: "host \<Rightarrow> webhook_end \<Rightarrow> (webhook_task boot_step, unit) run" where
  "webhook_main h ended =
     eff_bind (webhook_start h) (\<lambda>cfg.
     eff_bind serving (\<lambda>_.
     eff_lift (webhook_select ended)))"

section \<open>The federation service\<close>

text \<open>The requests of the configuration's start are steps of the process.\<close>

definition as_steps :: "'a eff \<Rightarrow> ('task boot_step, 'a) run" where
  "as_steps m log = (case m [] of (r, calls) \<Rightarrow> (r, log @ map Api calls))"

definition federation_start ::
  "('key, 'jwk, 'rsa) fed_lib \<Rightarrow> (string \<Rightarrow> string res) \<Rightarrow> kube_api \<Rightarrow> host \<Rightarrow> (unit boot_step, FedState) run" where
  "federation_start lib parse_issuer_url api h =
     eff_bind (as_steps (federation_from_env lib parse_issuer_url (h_kube_client h) (h_read_file h) api (h_vars h))) (\<lambda>state.
     eff_bind (listen h (bind_addr (fed_port state))) (\<lambda>_.
     eff_return state))"

definition federation_main ::
  "('key, 'jwk, 'rsa) fed_lib \<Rightarrow> (string \<Rightarrow> string res) \<Rightarrow> kube_api \<Rightarrow> host \<Rightarrow> unit res \<Rightarrow>
     (unit boot_step, unit) run" where
  "federation_main lib parse_issuer_url api h served =
     eff_bind (federation_start lib parse_issuer_url api h) (\<lambda>_.
     eff_bind serving (\<lambda>_.
     eff_lift served))"

section \<open>The agent\<close>

datatype agent_task = RefreshLoop

definition agent_start :: "host \<Rightarrow> (agent_task boot_step, AgentConfig) run" where
  "agent_start h =
     eff_bind (eff_lift (agent_from_env (h_read_file h) (h_vars h))) (\<lambda>cfg.
     eff_bind (eff_lift (with_context ''build reqwest client'' (h_http_client h))) (\<lambda>_.
     eff_bind (spawn RefreshLoop) (\<lambda>_.
     eff_bind (listen h (bind_addr (ag_port cfg))) (\<lambda>_.
     eff_return cfg))))"

datatype agent_end = AgentServerEnds "unit res" | RefreshEnds "unit res option"

definition agent_main :: "host \<Rightarrow> agent_end \<Rightarrow> (agent_task boot_step, unit) run" where
  "agent_main h ended =
     eff_bind (agent_start h) (\<lambda>_.
     eff_bind serving (\<lambda>_.
     eff_lift (case ended of AgentServerEnds r \<Rightarrow> r | RefreshEnds r \<Rightarrow> joined r)))"

section \<open>The issuer\<close>

datatype issuer_task = Loader | IssuerServer

definition issuer_start ::
  "('jwks, 'url) issuer_lib \<Rightarrow> host \<Rightarrow> (issuer_task boot_step, issuer_config) run" where
  "issuer_start lib h =
     eff_bind (eff_lift (issuer_from_env lib (h_vars h))) (\<lambda>cfg.
     eff_bind (listen h (bind_addr (iss_port cfg))) (\<lambda>_.
     eff_bind (spawn Loader) (\<lambda>_.
     eff_bind (spawn IssuerServer) (\<lambda>_.
     eff_return cfg))))"

text \<open>When the loader ends first and has returned without an error, the server runs on.\<close>

datatype issuer_end =
    IssuerServerEnds "unit res option" | LoaderEnds "unit res option" "unit res option"

definition issuer_main ::
  "('jwks, 'url) issuer_lib \<Rightarrow> host \<Rightarrow> issuer_end \<Rightarrow> (issuer_task boot_step, unit) run" where
  "issuer_main lib h ended =
     eff_bind (issuer_start lib h) (\<lambda>_.
     eff_bind serving (\<lambda>_.
     eff_lift (case ended of
         IssuerServerEnds server \<Rightarrow> joined server
       | LoaderEnds loader server \<Rightarrow> res_bind (joined loader) (\<lambda>_. joined server))))"

section \<open>How the processes start and end\<close>

text \<open>The webhook's loop is one the theorems on \<open>ctl_step\<close> are about: it has workers and a
  queue that can take a key, whatever is configured.\<close>

lemma webhook_loop_reach:
  "rtranclp (\<lambda>s t. \<exists>a. webhook_step cfg sv env a s t) (webhook_loop st evs) t \<Longrightarrow>
     ctl_reach sv env 2048 (worker_count (unat (reconcile_workers cfg))) t \<and>
     0 < worker_count (unat (reconcile_workers cfg))"
proof -
  assume "rtranclp (\<lambda>s t. \<exists>a. webhook_step cfg sv env a s t) (webhook_loop st evs) t"
  then have "ctl_reach sv env 2048 (worker_count (unat (reconcile_workers cfg))) t"
    by (induction rule: rtranclp_induct)
      (auto simp: webhook_loop_def webhook_step_def intro: ctl_reach.intros)
  then show ?thesis by (simp add: worker_count_def)
qed

lemma webhook_start_Inr:
  "webhook_start h [] = (Inr cfg, log) \<longleftrightarrow>
     webhook_from_env (h_vars h) = Inr cfg \<and> h_kube_client h = Inr () \<and>
     h_bind h (bind_addr (health_port cfg)) = Inr () \<and>
     h_pem_file h (tls_cert_path cfg) (tls_key_path cfg) = Inr () \<and>
     h_socket_addr h (bind_addr (https_port cfg)) = Inr () \<and>
     log = [Spawn Watcher, Spawn (Workers (reconcile_workers cfg)), Listen (bind_addr (health_port cfg)),
       Spawn HealthServer, LoadTls (tls_cert_path cfg) (tls_key_path cfg)]"
  by (auto simp: webhook_start_def eff_bind_eq_Inr)

text \<open>No step of the start serves requests.\<close>

lemma webhook_start_quiet: "Serve \<notin> set (snd (webhook_start h []))"
  by (auto simp: webhook_start_def eff_bind_def split: sum.split)

lemma webhook_main_run:
  "webhook_main h ended [] =
     (case webhook_start h [] of
        (Inl e, log) \<Rightarrow> (Inl e, log)
      | (Inr cfg, log) \<Rightarrow> (webhook_select ended, log @ [Serve]))"
  by (simp add: webhook_main_def eff_bind_def split: prod.split sum.split)

lemma federation_from_env_Inr:
  assumes "federation_from_env lib parse_url client read_file api vars [] = (Inr state, log)"
  shows "\<exists>ns. pod_namespace read_file = Inr ns \<and>
     fst (ensure_signing_and_jwks lib api ns (env_or vars ''SIGNING_SECRET_NAME'' ''kif-signing'')
       (env_or vars ''JWKS_SECRET_NAME'' ''kif-jwks'') rsa_bits []) = Inr (fed_signing state) \<and>
     snd (ensure_signing_and_jwks lib api ns (env_or vars ''SIGNING_SECRET_NAME'' ''kif-signing'')
       (env_or vars ''JWKS_SECRET_NAME'' ''kif-jwks'') rsa_bits []) = log"
  using assms
  by (auto simp: federation_from_env_def Let_def eff_bind_eq_Inr with_context_eq_iff case_prod_beta)

text \<open>The federation service publishes its key before it listens.\<close>

lemma federation_start_Inr:
  assumes "federation_start lib parse_url api h [] = (Inr state, log)"
  shows "\<exists>calls ns json. pod_namespace (h_read_file h) = Inr ns \<and>
     jwks_json_from_private_pem lib (fed_signing state) = Inr json \<and>
     log = map Api calls @
       [Api (jwks_write ns (env_or (h_vars h) ''JWKS_SECRET_NAME'' ''kif-jwks'') json), Listen (bind_addr (fed_port state))]"
proof -
  obtain calls where env: "federation_from_env lib parse_url (h_kube_client h) (h_read_file h) api (h_vars h) [] =
      (Inr state, calls)" and log: "log = map Api calls @ [Listen (bind_addr (fed_port state))]"
    using assms by (auto simp: federation_start_def as_steps_def eff_bind_eq_Inr split: prod.splits)
  let ?jname = "env_or (h_vars h) ''JWKS_SECRET_NAME'' ''kif-jwks''"
  obtain ns where ns: "pod_namespace (h_read_file h) = Inr ns"
    "fst (ensure_signing_and_jwks lib api ns (env_or (h_vars h) ''SIGNING_SECRET_NAME'' ''kif-signing'')
       ?jname rsa_bits []) = Inr (fed_signing state)"
    "snd (ensure_signing_and_jwks lib api ns (env_or (h_vars h) ''SIGNING_SECRET_NAME'' ''kif-signing'')
       ?jname rsa_bits []) = calls"
    using federation_from_env_Inr [OF env] by blast
  from ensured_published [OF ns(2)] obtain before json where
    "jwks_json_from_private_pem lib (fed_signing state) = Inr json" "calls = before @ [jwks_write ns ?jname json]"
    unfolding ns(3) by blast
  with ns(1) log show ?thesis by (intro exI [of _ before]) auto
qed

lemma agent_start_Inr:
  "agent_start h [] = (Inr cfg, log) \<longleftrightarrow>
     agent_from_env (h_read_file h) (h_vars h) = Inr cfg \<and> h_http_client h = Inr () \<and>
     h_bind h (bind_addr (ag_port cfg)) = Inr () \<and> log = [Spawn RefreshLoop, Listen (bind_addr (ag_port cfg))]"
  by (auto simp: agent_start_def eff_bind_eq_Inr with_context_eq_iff)

text \<open>A refresh loop that returns an error ends the agent with it.\<close>

lemma agent_main_refresh:
  "agent_start h [] = (Inr cfg, log) \<Longrightarrow>
     fst (agent_main h (RefreshEnds (Some r)) []) = r"
  by (simp add: agent_main_def eff_bind_def)

lemma issuer_start_Inr:
  "issuer_start lib h [] = (Inr cfg, log) \<longleftrightarrow>
     issuer_from_env lib (h_vars h) = Inr cfg \<and> h_bind h (bind_addr (iss_port cfg)) = Inr () \<and>
     log = [Listen (bind_addr (iss_port cfg)), Spawn Loader, Spawn IssuerServer]"
  by (auto simp: issuer_start_def eff_bind_eq_Inr)

text \<open>The issuer ends well only with its server.\<close>

lemma issuer_main_ok:
  "fst (issuer_main lib h ended []) = Inr () \<longleftrightarrow>
     is_ok (fst (issuer_start lib h [])) \<and>
     (case ended of
        IssuerServerEnds server \<Rightarrow> server = Some (Inr ())
      | LoaderEnds loader server \<Rightarrow> loader = Some (Inr ()) \<and> server = Some (Inr ()))"
  by (cases "issuer_start lib h []"; cases "fst (issuer_start lib h [])"; cases ended)
    (auto simp: issuer_main_def eff_bind_def joined_Inr res_bind_eq_Inr)

text \<open>An error in the watch stream ends the webhook.\<close>

lemma watch_error_ends_webhook:
  "\<not> list_all is_ok evs \<Longrightarrow>
     \<exists>e. fst (webhook_main h (WatcherEnds (Some (fst (watch_loop evs ready keys)))) []) = Inl e"
  by (auto simp: webhook_main_run webhook_select_def watch_loop_keys split: prod.split sum.split)

end
