(* ===== verification/Wire.thy ===== *)
theory Wire
  imports Processes
begin

text \<open>
  The way from the agent to the federation service and back: what arrives of a request and a
  response when the agent's HTTP client is connected to the router of the service.
\<close>

text \<open>What arrives of a request and of a response: the two services name the fields alike, an
  absent Pod name is left out by the one and defaulted by the other.\<close>

definition to_wire :: "AgentMintRequest \<Rightarrow> MintRequest" where
  "to_wire req =
     \<lparr>mint_namespace = amr_namespace req, mint_service_account_name = amr_service_account_name req,
      mint_config_hash = amr_config_hash req, mint_pod_name = amr_pod_name req\<rparr>"

definition from_wire :: "MintResponse \<Rightarrow> AgentMintResponse" where
  "from_wire resp =
     \<lparr>amr_aws = map_option
        (\<lambda>t. \<lparr>amt_token = token t, amt_expires_in_seconds = expires_in_seconds t\<rparr>) (minted_aws resp)\<rparr>"

lemma from_wire_Some:
  "from_wire \<lparr>minted_aws = Some \<lparr>token = t, expires_in_seconds = n\<rparr>\<rparr> =
     \<lparr>amr_aws = Some \<lparr>amt_token = t, amt_expires_in_seconds = n\<rparr>\<rparr>"
  by (simp add: from_wire_def)

lemma request_wire: "mint_request_of_json (agent_request_json req) = Some (to_wire req)"
  by (cases req; cases "amr_pod_name req")
    (simp_all add: mint_request_of_json_def agent_request_json_def field_defs to_wire_def)

lemma response_wire: "agent_response_of_json (response_json resp) = Some (from_wire resp)"
  by (cases "minted_aws resp")
    (simp_all add: agent_response_of_json_def agent_token_of_json_def response_json_def token_json_def
      opt_enc_def field_defs from_wire_def u64.dec_enc)

lemma message_depths: "json_depth (agent_request_json req) \<le> 127" "json_depth (response_json resp) \<le> 127"
proof -
  have "json_depth (agent_request_json req) \<le> Suc 0" unfolding agent_request_json_def
    by (rule depth_obj; auto simp: skip_none_def split: option.splits)
  then show "json_depth (agent_request_json req) \<le> 127" by simp
  have token: "json_depth (token_json t) \<le> Suc 0" for t unfolding token_json_def
    by (rule depth_obj) auto
  have "json_depth (opt_enc token_json (minted_aws resp)) \<le> Suc 0"
    using token by (simp add: opt_enc_def split: option.split)
  then have "json_depth (response_json resp) \<le> Suc (Suc 0)" unfolding response_json_def
    by (intro depth_obj) auto
  then show "json_depth (response_json resp) \<le> 127" by simp
qed

text \<open>A bearer token that HTTP carries as it is: visible ASCII.\<close>

definition header_text :: "string \<Rightarrow> bool" where
  "header_text s \<longleftrightarrow> list_all (\<lambda>c. 0x20 < (of_char c :: nat) \<and> (of_char c :: nat) < 0x7F) s"

text \<open>The agent's HTTP client is connected to a service at this URL: a POST to any path
  under it is answered by the service, given the Authorization header and the body.\<close>

definition connected ::
  "json_text \<Rightarrow> string \<Rightarrow> http_post \<Rightarrow> (string \<Rightarrow> string option \<Rightarrow> string \<Rightarrow> mint_reply) \<Rightarrow> bool" where
  "connected jt url post serve \<longleftrightarrow>
     (\<forall>path bearer body. header_text bearer \<longrightarrow>
        post (trim_end_char CHR ''/'' url @ path) bearer body =
          (let reply = serve path (Some (bearer_prefix @ bearer)) body
           in Inr \<lparr>http_status = reply_status reply, http_text = Inr (reply_text jt reply)\<rparr>))"

lemma reply_status_200: "reply_status reply = 200 \<longleftrightarrow> (\<exists>s. reply = MintText 200 s) \<or> (\<exists>r. reply = MintJson r)"
  by (cases reply) auto

lemma endpoint_wire:
  "reads_back jt \<Longrightarrow>
     mint_endpoint jt lib api t1 t2 state auth (jt_print jt (agent_request_json req)) log =
       mint lib api t1 t2 state auth (to_wire req) log"
  by (simp add: mint_endpoint_def reads_backD message_depths request_wire)

lemma parse_response_wire:
  "reads_back jt \<Longrightarrow> parse_response jt (jt_print jt (response_json resp)) = Inr (from_wire resp)"
  by (simp add: parse_response_def reads_backD message_depths response_wire)

text \<open>The service the federation runs, and what the agent gets from it.\<close>

definition federation_at ::
  "('key, 'jwk, 'z) jwt_lib_scheme \<Rightarrow> kube_api \<Rightarrow> SystemTime \<Rightarrow> SystemTime \<Rightarrow> FedState \<Rightarrow> call_log \<Rightarrow>
     agent_lib \<Rightarrow> string \<Rightarrow> http_post \<Rightarrow> bool" where
  "federation_at lib api t1 t2 state log alib url post \<longleftrightarrow>
     reads_back (al_json alib) \<and>
     connected (al_json alib) url post
       (\<lambda>path auth body. fst (federation_serve (al_json alib) lib api t1 t2 state POST path auth body log))"

lemma posted_federation:
  assumes "federation_at lib api t1 t2 state log alib url post" "header_text bearer"
  shows "posted alib post url bearer req =
     (let reply = fst (mint lib api t1 t2 state (Some (bearer_prefix @ bearer)) (to_wire req) log)
      in Inr \<lparr>http_status = reply_status reply, http_text = Inr (reply_text (al_json alib) reply)\<rparr>)"
  using assms unfolding federation_at_def connected_def posted_def
  by (simp add: mint_route endpoint_wire Let_def)

lemma mint_never_text_200: "fst (mint lib api t1 t2 state auth req log) \<noteq> MintText 200 s"
proof (cases rule: mint_cases [of lib api t1 t2 state auth req log])
  case (self u)
  then show ?thesis
    by (auto simp: mint_from_binding_def split: sum.splits option.splits if_splits)
qed simp_all

lemma federation_mint:
  assumes "federation_at lib api t1 t2 state log alib url post" "header_text bearer"
  shows "agent_mint alib post url bearer req = Inl ConfigHashMismatch \<longleftrightarrow>
      mint_status lib api t1 t2 state (Some (bearer_prefix @ bearer)) (to_wire req) log = 409"
    "agent_mint alib post url bearer req = Inr r \<longleftrightarrow>
      (\<exists>resp. fst (mint lib api t1 t2 state (Some (bearer_prefix @ bearer)) (to_wire req) log) =
         MintJson resp \<and> r = from_wire resp)"
proof -
  let ?reply = "fst (mint lib api t1 t2 state (Some (bearer_prefix @ bearer)) (to_wire req) log)"
  note posted = posted_federation [OF assms, of req]
  have jt: "reads_back (al_json alib)" using assms(1) by (simp add: federation_at_def)
  show "agent_mint alib post url bearer req = Inl ConfigHashMismatch \<longleftrightarrow>
      mint_status lib api t1 t2 state (Some (bearer_prefix @ bearer)) (to_wire req) log = 409"
    by (simp add: agent_mint_stale_iff posted mint_status_def Let_def)
  have "?reply \<noteq> MintText 200 s" for s by (rule mint_never_text_200)
  then show "agent_mint alib post url bearer req = Inr r \<longleftrightarrow>
      (\<exists>resp. ?reply = MintJson resp \<and> r = from_wire resp)"
    unfolding agent_mint_Inr posted Let_def
    by (cases ?reply) (auto simp: reply_text_def parse_response_wire [OF jt])
qed

end
