(* ===== verification/Token_Trust.thy ===== *)
theory Token_Trust
  imports Wire
begin

text \<open>
  From the signing key to a relying party such as AWS STS: the federation service publishes
  the public half of its key before it listens, the issuer serves it, and a token that an agent
  obtains verifies under it. What a relying party does with a token is its standard
  (RFC 7515 and 7517), stated over a record of parameters; \<open>jose_laws\<close> is what the
  crates for JWT, RSA and JSON document.
\<close>

section \<open>A relying party\<close>

text \<open>The members of the keys of a JWKS document, the header and payload of a token, and
  the RS256 check of a token against a modulus and an exponent in base64url.\<close>

record verifier =
  vf_keys :: "string \<Rightarrow> (string \<Rightarrow> string option) list"
  vf_open :: "string \<Rightarrow> (jwt_header \<times> json) option"
  vf_check :: "string \<Rightarrow> string \<Rightarrow> string \<Rightarrow> bool"

definition key_fits :: "verifier \<Rightarrow> string \<Rightarrow> jwt_header \<Rightarrow> (string \<Rightarrow> string option) \<Rightarrow> bool" where
  "key_fits v tok hdr k \<longleftrightarrow>
     jwt_kid hdr \<noteq> None \<and> k ''kid'' = jwt_kid hdr \<and> jwt_alg hdr = ''RS256'' \<and> k ''alg'' = Some ''RS256'' \<and>
     k ''kty'' = Some ''RSA'' \<and> k ''use'' = Some ''sig'' \<and>
     (case (k ''n'', k ''e'') of (Some n, Some e) \<Rightarrow> vf_check v n e tok | _ \<Rightarrow> False)"

definition verifies :: "verifier \<Rightarrow> string \<Rightarrow> string \<Rightarrow> json \<Rightarrow> bool" where
  "verifies v jwks tok payload \<longleftrightarrow>
     (\<exists>hdr. vf_open v tok = Some (hdr, payload) \<and> list_ex (key_fits v tok hdr) (vf_keys v jwks))"

text \<open>The documented behaviour: a token signed with a private key opens to what was signed
  and checks against the public half; a key built from members has these members; a printed key
  set is text, and what is read of it and printed again has the same keys.\<close>

definition jose_laws ::
  "('key, 'jwk, 'z) jwt_lib_scheme \<Rightarrow> ('jwks, 'url) issuer_lib \<Rightarrow> verifier \<Rightarrow>
     ('jwk \<Rightarrow> string \<Rightarrow> string option) \<Rightarrow> bool" where
  "jose_laws lib ilib v members \<longleftrightarrow>
     (\<forall>pem key n e hdr payload tok.
        jl_key_from_rsa_pem lib pem = Inr key \<and> jl_public_parts lib pem = Inr (n, e) \<and>
        jl_encode lib hdr payload key = Inr tok \<longrightarrow>
        vf_open v tok = Some (hdr, payload) \<and> vf_check v (jl_base64_url lib n) (jl_base64_url lib e) tok) \<and>
     (\<forall>fs jwk. jl_jwk_from_value lib fs = Inr jwk \<longrightarrow> members jwk = map_of fs) \<and>
     (\<forall>js text. jl_jwks_to_string lib js = Inr text \<longrightarrow> valid_utf8 text \<and>
        (\<exists>jwks body. il_parse ilib text = Inr jwks \<and> il_keys ilib jwks = length js \<and>
           il_to_string ilib jwks = Inr body \<and> vf_keys v body = map members js))"

lemma jose_signature:
  assumes "jose_laws lib ilib v members" "jl_key_from_rsa_pem lib pem = Inr key"
    and "jl_public_parts lib pem = Inr (n, e)" "jl_encode lib hdr payload key = Inr tok"
  shows "vf_open v tok = Some (hdr, payload)" "vf_check v (jl_base64_url lib n) (jl_base64_url lib e) tok"
  using assms unfolding jose_laws_def by blast+

lemma jose_key_set:
  assumes "jose_laws lib ilib v members" "jl_jwk_from_value lib fs = Inr jwk" "jl_jwks_to_string lib [jwk] = Inr json"
  obtains jwks body where "parse_jwks ilib json = Inr jwks" "il_to_string ilib jwks = Inr body"
    "vf_keys v body = [map_of fs]"
proof -
  have "members jwk = map_of fs" using assms(1,2) unfolding jose_laws_def by blast
  moreover obtain jwks body where "valid_utf8 json" "il_parse ilib json = Inr jwks"
    "il_keys ilib jwks = length [jwk]" "il_to_string ilib jwks = Inr body" "vf_keys v body = map members [jwk]"
    using assms(1,3) unfolding jose_laws_def by blast
  ultimately show ?thesis by (intro that [of jwks body]) (simp_all add: parse_jwks_Inr)
qed

section \<open>The published key verifies the tokens\<close>

lemma signed_token_verifies:
  assumes "jose_laws lib ilib v members" "jwks_json_from_private_pem lib m = Inr json"
  obtains jwks body where "parse_jwks ilib json = Inr jwks" "il_to_string ilib jwks = Inr body"
    "\<And>claims tok. sign_rs256 lib m claims = Inr tok \<Longrightarrow> verifies v body tok (claims_json claims)"
proof -
  let ?fs = "\<lambda>n e. [(''kty'', ''RSA''), (''kid'', kid m), (''use'', ''sig''), (''alg'', ''RS256''),
      (''n'', jl_base64_url lib n), (''e'', jl_base64_url lib e)]"
  obtain n e jwk where parts: "jl_public_parts lib (private_key_pem m) = Inr (n, e)"
    and jwk: "jl_jwk_from_value lib (?fs n e) = Inr jwk"
    and json: "jl_jwks_to_string lib [jwk] = Inr json"
    using assms(2) by (auto simp: jwks_json_from_private_pem_def res_bind_eq_Inr map_err_eq_Inr)
  obtain jwks body where set: "parse_jwks ilib json = Inr jwks" "il_to_string ilib jwks = Inr body"
    "vf_keys v body = [map_of (?fs n e)]"
    using jose_key_set [OF assms(1) jwk json] by blast
  have "verifies v body tok (claims_json claims)" if sign: "sign_rs256 lib m claims = Inr tok" for claims tok
  proof -
    obtain key where key: "jl_key_from_rsa_pem lib (private_key_pem m) = Inr key"
      "jl_encode lib \<lparr>jwt_alg = ''RS256'', jwt_kid = Some (kid m)\<rparr> (claims_json claims) key = Inr tok"
      using sign by (auto simp: sign_rs256_Inr)
    note checked = jose_signature [OF assms(1) key(1) parts key(2)]
    then have "key_fits v tok \<lparr>jwt_alg = ''RS256'', jwt_kid = Some (kid m)\<rparr> (map_of (?fs n e))"
      by (simp add: key_fits_def)
    with checked(1) show ?thesis unfolding verifies_def set(3) by simp
  qed
  with set(1,2) that show ?thesis by blast
qed

text \<open>An issuer that observes the Secret \<open>write\<close> of a key serves its key set, whatever it
  held before.\<close>

lemma issuer_serves_write:
  assumes "parse_jwks ilib json = Inr jwks" "il_to_string ilib jwks = Inr body"
  shows "ir_status (issuer_serve ilib to_text cfg
      (secret_event ilib (Inr (opaque_secret name (bt_insert jwks_secret_key json []))) s) GET ''/jwks.json'') = 200"
    "ir_body (issuer_serve ilib to_text cfg
      (secret_event ilib (Inr (opaque_secret name (bt_insert jwks_secret_key json []))) s) GET ''/jwks.json'') = Some body"
  using assms
  by (simp_all add: secret_event_def opaque_secret_def jwks_secret_key_def issuer_secret_key_def store_get_def
      store_set_def issuer_serve_def dispatch_def issuer_router_def get_jwks_def)

text \<open>
  C6: Trust from the signing key to a relying party: before a federation service listens it
  has published its key set, and any token an agent obtains from it verifies, by the key
  identifier in its header and with RS256, under the key set that an issuer which has
  observed this Secret serves at /jwks.json; its claims name the configured issuer and the
  ServiceAccount the agent has proved to be.
\<close>

theorem obtained_token_verifies:
  assumes "jose_laws lib ilib v members"
    and "federation_start lib parse_issuer_url kapi h [] = (Inr state, log)"
    and "federation_at lib api t1 t2 state calls alib url post" "header_text bearer"
    and "agent_mint alib post url bearer req = Inr resp"
  shows "\<exists>before ns name secret aws claims.
     log = before @ [Api (ApplySecret ns name secret), Listen (bind_addr (fed_port state))] \<and>
     amr_aws resp = Some aws \<and>
     (\<forall>to_text cfg s. let reply = issuer_serve ilib to_text cfg (secret_event ilib (Inr secret) s) GET ''/jwks.json'' in
        ir_status reply = 200 \<and>
        (\<exists>body. ir_body reply = Some body \<and> verifies v body (amt_token aws) (claims_json claims))) \<and>
     iss claims = fed_issuer_url state \<and> authenticates api calls bearer (sub claims) \<and>
     parse_service_account_username (sub claims) = Some (amr_namespace req, amr_service_account_name req)"
proof -
  obtain before ns json where json: "jwks_json_from_private_pem lib (fed_signing state) = Inr json"
    and log: "log = map Api before @ [Api (jwks_write ns (env_or (h_vars h) ''JWKS_SECRET_NAME'' ''kif-jwks'') json),
      Listen (bind_addr (fed_port state))]"
    using federation_start_Inr [OF assms(2)] by blast
  obtain jwks body where set: "parse_jwks ilib json = Inr jwks" "il_to_string ilib jwks = Inr body"
    and sound: "\<And>claims tok. sign_rs256 lib (fed_signing state) claims = Inr tok \<Longrightarrow>
      verifies v body tok (claims_json claims)"
    using signed_token_verifies [OF assms(1) json] by blast
  obtain r aws t u where ent: "caller api calls (Some (bearer_prefix @ bearer)) u (amr_namespace req) (amr_service_account_name req)"
    "sign_rs256 lib (fed_signing state) (token_claims t1 t2 state u (to_wire req) r aws) = Inr t"
    "resp = \<lparr>amr_aws = Some \<lparr>amt_token = t, amt_expires_in_seconds = token_ttl aws\<rparr>\<rparr>"
    using assms(5) federation_mint(2) [OF assms(3,4)]
    by (auto simp: mint_Json_iff from_wire_Some entitled_def to_wire_def)
  have who: "authenticates api calls bearer u"
    "parse_service_account_username u = Some (amr_namespace req, amr_service_account_name req)"
    using ent(1) by (auto simp: caller_def)
  show ?thesis
    using log [unfolded jwks_write_def] ent(3) issuer_serves_write [OF set] sound [OF ent(2)] who
    by (intro exI conjI allI) (assumption | simp add: token_claims_fields Let_def)+
qed

end
