(* ===== verification/Convergence.thy ===== *)
theory Convergence
  imports Control_Loop
begin

text \<open>
  When the control loop keeps the resolutions up to date: no key is lost as long as no
  reconciliation fails, every change is announced under its key and no event is skipped while
  the worker of its key works from an outdated list. The runs on which this fails are in
  theory Lost_Updates.
\<close>

section \<open>Workers write for their own key\<close>

definition writes_for :: "Key \<Rightarrow> kube_call \<Rightarrow> bool" where
  "writes_for k c =
     (case c of
        ReplaceCrbStatus ns n crb \<Rightarrow> crb_key crb = Some k
      | ApplyRcrb ns n r \<Rightarrow> ns = key_namespace k \<and> n = key_service_account_name k
      | ApplyRcrbStatus ns n r \<Rightarrow> ns = key_namespace k \<and> n = key_service_account_name k
      | _ \<Rightarrow> False)"

definition own_plans :: "'s ctl \<Rightarrow> bool" where
  "own_plans s \<longleftrightarrow> (\<forall>k cs. (k, Writing cs) \<in> set (ctl_workers s) \<longrightarrow> list_all (writes_for k) cs)"

lemma plan_writes_for:
  assumes "server_laws sv"
  shows "list_all (writes_for k) (plan env k (sv_list sv st (key_namespace k)))"
proof -
  have "writes_for k c" if own: "own_write env k
      (filter (\<lambda>crb. crb_sa crb = key_service_account_name k) (sv_list sv st (key_namespace k))) c" for c
  proof (cases c)
    case (ReplaceCrbStatus ns n crb')
    with own obtain crb where "crb \<in> set (sv_list sv st (key_namespace k))"
      "crb_sa crb = key_service_account_name k" "\<exists>x. crb' = crb\<lparr>crb_status := Some x\<rparr>"
      by (auto simp: own_write_def restatused_def)
    with server_list [OF assms] show ?thesis
      by (auto simp: writes_for_def crb_key_def ReplaceCrbStatus crb_sa_def)
  qed (use own in \<open>simp_all add: own_write_def writes_for_def\<close>)
  with plan_own show ?thesis by (metis (no_types, lifting) list_all_iff)
qed

text \<open>The effect of a write on the keys.\<close>

lemma write_effect:
  assumes "server_laws sv" "writes_for k c" "sv_write sv c st = Some (st', evs)"
  shows "same_bindings sv st st'" "j \<noteq> k \<Longrightarrow> sv_rcrb sv st' j = sv_rcrb sv st j"
    "ev \<in> set evs \<Longrightarrow> event_key ev = Some k"
proof -
  show "same_bindings sv st st'"
    using assms server_status(1) server_apply(1) server_apply_status(1)
    by (cases c) (auto simp: writes_for_def)
  show "j \<noteq> k \<Longrightarrow> sv_rcrb sv st' j = sv_rcrb sv st j"
    using assms server_status(2) server_apply(3) server_apply_status(3)
    by (cases c) (fastforce simp: writes_for_def)+
  show "ev \<in> set evs \<Longrightarrow> event_key ev = Some k"
    using assms server_status(3) server_apply(2) server_apply_status(2)
    by (cases c) (fastforce simp: writes_for_def event_key_def dest: same_object_key)+
qed

lemma own_plans_init: "own_plans (ctl_init buffer st evs)"
  by (simp add: own_plans_def ctl_init_def)

lemma own_plans_step:
  assumes "ctl_step sv env n a s t" "server_laws sv" "own_plans s"
  shows "own_plans t"
  using assms(1)
proof (cases rule: ctl_step.cases)
  case (list ws k ws' cs clock)
  with assms(3) plan_writes_for [OF assms(2), of k "env\<lparr>env_clock := clock\<rparr>"] show ?thesis
    by (auto simp: own_plans_def)
next
  case (put ws k c cs ws' st evs)
  then have "list_all (writes_for k) (c # cs)"
    using assms(3) unfolding own_plans_def by (metis in_set_conv_decomp)
  with put assms(3) show ?thesis by (auto simp: own_plans_def)
qed (use assms(3) in \<open>auto simp: own_plans_def\<close>)

lemma ctl_reach_own_plans: "server_laws sv \<Longrightarrow> ctl_reach sv env buffer n s \<Longrightarrow> own_plans s"
  by (rotate_tac, induction rule: ctl_reach.induct) (auto intro: own_plans_init own_plans_step)

section \<open>No change is lost\<close>

text \<open>A worker that still has these writes will leave the current resolution.\<close>

definition carries :: "'s server \<Rightarrow> reconcile_env \<Rightarrow> 's \<Rightarrow> Key \<Rightarrow> kube_call list \<Rightarrow> bool" where
  "carries sv env st k cs \<longleftrightarrow>
     (\<exists>r. reports env k (bindings sv st k) r \<and>
       ((\<exists>pre. cs = pre @ [ApplyRcrb (key_namespace k) (key_service_account_name k) r,
                          ApplyRcrbStatus (key_namespace k) (key_service_account_name k) r]) \<or>
        cs = [ApplyRcrbStatus (key_namespace k) (key_service_account_name k) r] \<and>
          (\<exists>obj. sv_rcrb sv st k = Some obj \<and> rcrb_spec obj = rcrb_spec r)))"

definition up_to_date :: "'s server \<Rightarrow> reconcile_env \<Rightarrow> 's ctl \<Rightarrow> Key \<Rightarrow> phase \<Rightarrow> bool" where
  "up_to_date sv env s k p \<longleftrightarrow>
     (case p of
        Fetching \<Rightarrow> True
      | Writing cs \<Rightarrow> carries sv env (ctl_store s) k cs \<or> cs = [] \<and> settled sv env (ctl_store s) k)"

definition pending :: "'s ctl \<Rightarrow> Key set" where
  "pending s = set (List.map_filter event_key (ctl_stream s))"

definition waiting :: "'s ctl \<Rightarrow> Key set" where
  "waiting s = set_option (ctl_sending s) \<union> set (channel (ctl_queue s))"

definition on_track :: "'s server \<Rightarrow> reconcile_env \<Rightarrow> 's ctl \<Rightarrow> Key \<Rightarrow> bool" where
  "on_track sv env s k \<longleftrightarrow>
     k \<in> pending s \<or> k \<in> waiting s \<or> (\<exists>p. (k, p) \<in> set (ctl_workers s) \<and> up_to_date sv env s k p) \<or>
     k \<notin> fst ` set (ctl_workers s) \<and> settled sv env (ctl_store s) k"

text \<open>A step loses nothing when it is no failure, no change of a binding whose key the
  event does not name (a changed ServiceAccount), and no event skipped for a worker whose list
  is outdated.\<close>

definition lossless :: "'s server \<Rightarrow> reconcile_env \<Rightarrow> action \<Rightarrow> 's ctl \<Rightarrow> 's ctl \<Rightarrow> bool" where
  "lossless sv env a s t =
     (case a of
        Change ev \<Rightarrow> (\<forall>k. event_key ev \<noteq> Some k \<longrightarrow>
          list_all2 same_object (bindings sv (ctl_store s) k) (bindings sv (ctl_store t) k))
      | Skip k \<Rightarrow> (\<forall>p. (k, p) \<in> set (ctl_workers t) \<longrightarrow> up_to_date sv env t k p)
      | Fail _ \<Rightarrow> False
      | _ \<Rightarrow> True)"

text \<open>The watcher starts with an event for every binding, on a server that holds no
  resolution without a binding.\<close>

definition announces :: "'s server \<Rightarrow> 's \<Rightarrow> watch_event list \<Rightarrow> bool" where
  "announces sv st evs \<longleftrightarrow>
     (\<forall>k. bindings sv st k \<noteq> [] \<or> sv_rcrb sv st k \<noteq> None \<longrightarrow> Some k \<in> event_key ` set evs)"

inductive lossless_reach ::
  "'s server \<Rightarrow> reconcile_env \<Rightarrow> nat \<Rightarrow> nat \<Rightarrow> 's ctl \<Rightarrow> bool"
  for sv :: "'s server" and env :: reconcile_env and buffer n :: nat where
  start: "announces sv st evs \<Longrightarrow> lossless_reach sv env buffer n (ctl_init buffer st evs)"
| step: "lossless_reach sv env buffer n s \<Longrightarrow> ctl_step sv env n a s t \<Longrightarrow> lossless sv env a s t \<Longrightarrow>
    lossless_reach sv env buffer n t"

lemma lossless_reach_ctl_reach: "lossless_reach sv env buffer n s \<Longrightarrow> ctl_reach sv env buffer n s"
  by (induction rule: lossless_reach.induct) (auto intro: ctl_reach.intros)

lemma carries_same:
  assumes "list_all2 same_object (bindings sv st k) (bindings sv st' k)" "sv_rcrb sv st' k = sv_rcrb sv st k"
  shows "carries sv env st' k cs = carries sv env st k cs"
  using assms reports_same [OF assms(1)] by (simp add: carries_def)

lemma carries_nil: "\<not> carries sv env st k []"
  by (auto simp: carries_def)

text \<open>A fresh plan carries the current resolution, and each of its writes keeps that.\<close>

lemma carries_plan:
  assumes "\<And>spec. is_ok (env_to_vec env spec)" "key_service_account_name k \<noteq> []"
  shows "carries sv env st k (plan (env\<lparr>env_clock := clock\<rparr>) k (sv_list sv st (key_namespace k)))"
proof -
  have "\<And>spec. is_ok (env_to_vec (env\<lparr>env_clock := clock\<rparr>) spec)" using assms(1) by simp
  from plan_shape [OF this assms(2), of "sv_list sv st (key_namespace k)"] show ?thesis
    unfolding carries_def bindings_def by auto
qed

lemma carries_write:
  assumes "server_laws sv" "carries sv env st k (c # cs)" "writes_for k c"
    and "sv_write sv c st = Some (st', evs)"
  shows "carries sv env st' k cs \<or> cs = [] \<and> settled sv env st' k"
proof -
  note same = bindings_same [OF write_effect(1) [OF assms(1,3,4)], of k]
  let ?A = "ApplyRcrb (key_namespace k) (key_service_account_name k)"
  let ?S = "ApplyRcrbStatus (key_namespace k) (key_service_account_name k)"
  from assms(2) obtain r where r: "reports env k (bindings sv st k) r"
    and shape: "(\<exists>pre. c # cs = pre @ [?A r, ?S r]) \<or>
      c # cs = [?S r] \<and> (\<exists>obj. sv_rcrb sv st k = Some obj \<and> rcrb_spec obj = rcrb_spec r)"
    unfolding carries_def by blast
  from r reports_same [OF same] have r': "reports env k (bindings sv st' k) r" by simp
  from shape consider pre where "cs = pre @ [?A r, ?S r]" | "c = ?A r" "cs = [?S r]"
    | obj where "c = ?S r" "cs = []" "sv_rcrb sv st k = Some obj" "rcrb_spec obj = rcrb_spec r"
    by (auto simp: Cons_eq_append_conv)
  then show ?thesis
  proof cases
    case 1
    with r' show ?thesis unfolding carries_def by blast
  next
    case 2
    with server_apply(3) [OF assms(1)] assms(4) obtain obj where
      "sv_rcrb sv st' k = Some obj" "rcrb_spec obj = rcrb_spec r" by fastforce
    with r' 2 show ?thesis unfolding carries_def by blast
  next
    case (3 obj)
    with server_apply_status(3) [OF assms(1)] assms(4) obtain obj' where
      "sv_rcrb sv st' k = Some obj'" "rcrb_spec obj' = rcrb_spec r" "rcrb_status obj' = rcrb_status r" by fastforce
    with r' 3 show ?thesis unfolding settled_def published_def by auto
  qed
qed

text \<open>How the steps move the keys.\<close>

lemma pending_simps [simp]:
  "pending (s\<lparr>ctl_stream := ctl_stream s @ evs\<rparr>) = pending s \<union> set (List.map_filter event_key evs)"
  by (simp add: pending_def map_filter_def)

lemma up_to_date_store:
  assumes "list_all2 same_object (bindings sv (ctl_store s) k) (bindings sv (ctl_store t) k)"
    and "sv_rcrb sv (ctl_store t) k = sv_rcrb sv (ctl_store s) k"
  shows "up_to_date sv env t k p = up_to_date sv env s k p"
  using carries_same [OF assms] settled_same [OF assms] by (simp add: up_to_date_def split: phase.split)

lemma on_track_transfer:
  assumes "on_track sv env s k"
    and "list_all2 same_object (bindings sv (ctl_store s) k) (bindings sv (ctl_store t) k)"
    and "sv_rcrb sv (ctl_store t) k = sv_rcrb sv (ctl_store s) k"
    and "k \<in> pending s \<union> waiting s \<Longrightarrow> k \<in> pending t \<union> waiting t"
    and "\<And>p. (k, p) \<in> set (ctl_workers s) \<longleftrightarrow> (k, p) \<in> set (ctl_workers t)"
  shows "on_track sv env t k"
proof -
  have "k \<in> fst ` set (ctl_workers t) \<longleftrightarrow> k \<in> fst ` set (ctl_workers s)"
    using assms(5) by (force simp: image_iff)
  with assms(1,4,5) show ?thesis
    unfolding on_track_def up_to_date_store [OF assms(2,3)] settled_same [OF assms(2,3)] by blast
qed

lemma same_bindings_refl: "list_all2 same_object crbs crbs"
  by (simp add: list_all2_refl)

text \<open>A worker that is alone with its key knows what it does: its key is not waiting
  elsewhere, so it is on track only through this worker.\<close>

lemma worker_unique:
  "ctl_reach sv env buffer n s \<Longrightarrow> (k, p) \<in> set (ctl_workers s) \<Longrightarrow> (k, p') \<in> set (ctl_workers s) \<Longrightarrow> p = p'"
  using ctl_reach_facts(1) eq_key_imp_eq_value by fast

lemma on_track_worker:
  assumes "ctl_reach sv env buffer n s" "on_track sv env s k" "(k, p) \<in> set (ctl_workers s)"
    and "k \<notin> pending s \<union> waiting s"
  shows "up_to_date sv env s k p"
proof -
  have "k \<in> fst ` set (ctl_workers s)" using assms(3) by force
  with assms(2,4) obtain p' where "(k, p') \<in> set (ctl_workers s)" "up_to_date sv env s k p'"
    unfolding on_track_def by blast
  with worker_unique [OF assms(1,3)] show ?thesis by blast
qed

lemma on_track_skip:
  assumes "ctl_reach sv env buffer n s" "enqueue_claim k (ctl_queue s) = None"
    and "ctl_stream s = ev # evs" "event_key ev = Some k" "on_track sv env s j"
    and "\<And>p. (k, p) \<in> set (ctl_workers s) \<Longrightarrow> up_to_date sv env (s\<lparr>ctl_stream := evs\<rparr>) k p"
  shows "on_track sv env (s\<lparr>ctl_stream := evs\<rparr>) j"
proof (cases "j = k")
  case True
  from assms(2) have "k \<in> waiting s \<or> k \<in> fst ` set (ctl_workers s)"
    using ctl_reach_facts(2) [OF assms(1)] by (auto simp: enqueue_claim_def waiting_def split: if_splits)
  with True assms(6) show ?thesis by (auto simp: on_track_def waiting_def)
next
  case False
  then show ?thesis
    by (intro on_track_transfer [OF assms(5)])
      (auto simp: assms(3,4) pending_def waiting_def map_filter_def same_bindings_refl)
qed

lemma on_track_put:
  assumes "ctl_reach sv env buffer n s" "server_laws sv" "on_track sv env s j"
    and workers: "ctl_workers s = ws @ (k, Writing (c # cs)) # ws'"
    and written: "sv_write sv c (ctl_store s) = Some (st, evs)"
  shows "on_track sv env (s\<lparr>ctl_store := st, ctl_stream := ctl_stream s @ evs,
    ctl_workers := ws @ (k, Writing cs) # ws'\<rparr>) j" (is "on_track sv env ?t j")
proof -
  have own: "writes_for k c"
    using workers ctl_reach_own_plans [OF assms(2,1)] unfolding own_plans_def
    by (metis in_set_conv_decomp list.pred_inject(2))
  note effect = write_effect [OF assms(2) own written]
  show ?thesis
  proof (cases "j = k")
    case [simp]: True
    show ?thesis
    proof (cases "k \<in> pending s \<union> waiting s")
      case True
      then show ?thesis by (auto simp: on_track_def pending_def waiting_def map_filter_def)
    next
      case False
      then have "carries sv env (ctl_store s) k (c # cs)"
        using on_track_worker [OF assms(1), of k "Writing (c # cs)"] assms(3) workers
        by (simp add: up_to_date_def)
      from carries_write [OF assms(2) this own written] show ?thesis
        by (auto simp: on_track_def up_to_date_def)
    qed
  next
    case False
    then show ?thesis
      by (intro on_track_transfer [OF assms(3)])
        (use effect(2) bindings_same [OF effect(1), of j] in
          \<open>auto simp: workers pending_def waiting_def map_filter_def\<close>)
  qed
qed

lemma on_track_finish:
  assumes "ctl_reach sv env buffer n s" "on_track sv env s j"
    and workers: "ctl_workers s = ws @ (k, Writing []) # ws'"
  shows "on_track sv env (s\<lparr>ctl_workers := ws @ ws', ctl_queue := queue_done k (ctl_queue s)\<rparr>) j"
proof (cases "j = k")
  case True
  have "k \<notin> fst ` set (ws @ ws')" using ctl_reach_facts(1) [OF assms(1)] workers by auto
  moreover have "k \<in> pending s \<or> k \<in> waiting s \<or> settled sv env (ctl_store s) k"
    using on_track_worker [OF assms(1), of k "Writing []"] assms(2) True workers
    by (auto simp: up_to_date_def carries_nil)
  ultimately show ?thesis using True
    by (auto simp: on_track_def pending_def waiting_def queue_done_def)
next
  case False
  then show ?thesis
    by (intro on_track_transfer [OF assms(2)])
      (auto simp: workers pending_def waiting_def queue_done_def same_bindings_refl)
qed

lemma on_track_list:
  assumes "\<And>spec. is_ok (env_to_vec env spec)" "key_service_account_name j \<noteq> []" "on_track sv env s j"
    and workers: "ctl_workers s = ws @ (k, Fetching) # ws'"
    and cs: "cs = plan (env\<lparr>env_clock := clock\<rparr>) k (sv_list sv (ctl_store s) (key_namespace k))"
  shows "on_track sv env (s\<lparr>ctl_workers := ws @ (k, Writing cs) # ws'\<rparr>) j"
proof (cases "j = k")
  case True
  have "carries sv env (ctl_store s) k cs"
    using carries_plan [OF assms(1), of k sv "ctl_store s" clock] assms(2) True cs by simp
  then show ?thesis using True by (auto simp: on_track_def up_to_date_def)
next
  case False
  then show ?thesis
    by (intro on_track_transfer [OF assms(3)])
      (auto simp: workers pending_def waiting_def same_bindings_refl)
qed

lemma on_track_change:
  assumes "on_track sv env s j"
    and "event_key ev \<noteq> Some j \<Longrightarrow>
       list_all2 same_object (bindings sv (ctl_store s) j) (bindings sv st j)"
    and "sv_rcrb sv st = sv_rcrb sv (ctl_store s)"
  shows "on_track sv env (s\<lparr>ctl_store := st, ctl_stream := ctl_stream s @ [ev]\<rparr>) j"
proof (cases "event_key ev = Some j")
  case True
  then show ?thesis by (simp add: on_track_def pending_def map_filter_def)
next
  case False
  with assms(2,3) show ?thesis
    by (intro on_track_transfer [OF assms(1)]) (auto simp: pending_def waiting_def map_filter_def)
qed

lemma on_track_step:
  assumes "ctl_step sv env n a s t" "lossless sv env a s t" "ctl_reach sv env buffer n s"
    and laws: "server_laws sv" and vec: "\<And>spec. is_ok (env_to_vec env spec)"
    and track: "on_track sv env s j" and j: "key_service_account_name j \<noteq> []"
  shows "on_track sv env t j"
proof -
  note keep = on_track_transfer [OF track]
  show ?thesis
    using assms(1)
  proof (cases rule: ctl_step.cases)
    case (change st ev)
    then show ?thesis using on_track_change [OF track] assms(2) by (simp add: lossless_def)
  next
    case (pass ev evs)
    show ?thesis
      by (rule keep) (auto simp: pass pending_def waiting_def map_filter_def same_bindings_refl)
  next
    case (skip ev evs k)
    then show ?thesis using on_track_skip [OF assms(3) _ _ _ track] assms(2) by (simp add: lossless_def)
  next
    case (claim ev evs k q)
    show ?thesis
      by (rule keep)
        (use claim in \<open>auto simp: pending_def waiting_def map_filter_def same_bindings_refl enqueue_claim_def
          split: if_splits\<close>)
  next
    case (send k q)
    show ?thesis
      by (rule keep)
        (use send in \<open>auto simp: pending_def waiting_def same_bindings_refl enqueue_send_def split: if_splits\<close>)
  next
    case (take k q)
    show ?thesis
    proof (cases "j = k")
      case True
      with take show ?thesis by (auto simp: on_track_def up_to_date_def)
    next
      case False
      with take show ?thesis
        by (intro keep) (auto simp: pending_def waiting_def same_bindings_refl recv_def split: if_splits list.splits)
    qed
  next
    case (list ws k ws' cs clock)
    then show ?thesis using on_track_list [OF vec j track] by simp
  next
    case (put ws k c cs ws' st evs)
    then show ?thesis using on_track_put [OF assms(3) laws track] by simp
  next
    case (fail ws k p ws')
    with assms(2) show ?thesis by (simp add: lossless_def)
  next
    case (finish ws k ws')
    then show ?thesis using on_track_finish [OF assms(3) track] by simp
  qed
qed

lemma lossless_on_track:
  assumes "server_laws sv" "\<And>spec. is_ok (env_to_vec env spec)"
  shows "lossless_reach sv env buffer n s \<Longrightarrow> key_service_account_name k \<noteq> [] \<Longrightarrow> on_track sv env s k"
proof (induction arbitrary: k rule: lossless_reach.induct)
  case (start st evs)
  show ?case
  proof (cases "k \<in> pending (ctl_init buffer st evs)")
    case False
    then have "Some k \<notin> event_key ` set evs"
      by (simp add: pending_def ctl_init_def in_map_filter)
    with start have "bindings sv st k = [] \<and> sv_rcrb sv st k = None" unfolding announces_def by blast
    then have "settled sv env st k" by (simp add: settled_def)
    then show ?thesis by (simp add: on_track_def ctl_init_def)
  qed (simp add: on_track_def)
next
  case (step s a t)
  show ?case
    by (rule on_track_step [OF step.hyps(2,3) lossless_reach_ctl_reach [OF step.hyps(1)] assms step.IH [OF step.prems] step.prems])
qed

definition idle :: "'s ctl \<Rightarrow> bool" where
  "idle s \<longleftrightarrow> ctl_stream s = [] \<and> ctl_sending s = None \<and> channel (ctl_queue s) = [] \<and> ctl_workers s = []"

lemma lossless_settled:
  assumes "server_laws sv" "\<And>spec. is_ok (env_to_vec env spec)" "lossless_reach sv env buffer n s"
    and "idle s" "key_service_account_name k \<noteq> []"
  shows "settled sv env (ctl_store s) k"
  using lossless_on_track [OF assms(1,2,3,5)] assms(4)
  by (simp add: on_track_def idle_def pending_def waiting_def map_filter_def)

text \<open>
  C12: The control loop keeps the resolutions up to date. Against any API server that keeps
  its documented laws, when no reconciliation fails, every change is announced under its key
  and no event is skipped for a worker whose list is outdated, then whenever watcher, queue
  and workers are idle the resolution the server holds for a ServiceAccount reports the
  merge of its current bindings, and there is none only if there are no bindings.
\<close>

theorem no_lost_update:
  assumes "server_laws sv" "\<And>spec. is_ok (env_to_vec env spec)" "lossless_reach sv env buffer n s"
    and "idle s" "key_service_account_name k \<noteq> []"
  shows "settled sv env (ctl_store s) k"
  by (rule lossless_settled [OF assms])

end
