(* ===== verification/Lost_Updates.thy ===== *)
theory Lost_Updates
  imports Convergence
begin

text \<open>
  What the control loop does not guarantee: a change made while a worker holds the key is
  lost, so is one whose reconciliation fails, a reader may see a resolution between the two
  writes that publish it, and a resolution whose last binding is deleted while the webhook is
  down stays for good. Each is shown for every server that keeps its laws.
\<close>

section \<open>Runs\<close>

inductive ctl_exec ::
  "'s server \<Rightarrow> reconcile_env \<Rightarrow> nat \<Rightarrow> 's ctl \<Rightarrow> action list \<Rightarrow> 's ctl \<Rightarrow> bool"
  for sv :: "'s server" and env :: reconcile_env and n :: nat where
  e_nil: "ctl_exec sv env n s [] s"
| e_cons: "ctl_step sv env n a s t \<Longrightarrow> ctl_exec sv env n t as u \<Longrightarrow> ctl_exec sv env n s (a # as) u"

lemma e_one: "ctl_step sv env n a s t \<Longrightarrow> ctl_exec sv env n s [a] t"
  by (rule e_cons [OF _ e_nil])

lemma e_append: "ctl_exec sv env n s as t \<Longrightarrow> ctl_exec sv env n t bs u \<Longrightarrow> ctl_exec sv env n s (as @ bs) u"
  by (induction rule: ctl_exec.induct) (auto intro: e_cons)

lemma ctl_exec_reach:
  "ctl_exec sv env n s as t \<Longrightarrow> ctl_reach sv env buffer n s \<Longrightarrow> ctl_reach sv env buffer n t"
  by (induction rule: ctl_exec.induct) (auto intro: ctl_reach.step)

text \<open>Steps that never lose anything.\<close>

definition certain :: "action \<Rightarrow> bool" where
  "certain a = (case a of Change _ \<Rightarrow> False | Skip _ \<Rightarrow> False | Fail _ \<Rightarrow> False | _ \<Rightarrow> True)"

lemma certain_lossless: "certain a \<Longrightarrow> lossless sv env a s t"
  by (cases a) (simp_all add: certain_def lossless_def)

lemma certain_step:
  "lossless_reach sv env buffer n s \<Longrightarrow> ctl_step sv env n a s t \<Longrightarrow> certain a \<Longrightarrow> lossless_reach sv env buffer n t"
  using lossless_reach.step certain_lossless by metis

lemma exec_lossless:
  "ctl_exec sv env n s as t \<Longrightarrow> list_all certain as \<Longrightarrow> lossless_reach sv env buffer n s \<Longrightarrow>
     lossless_reach sv env buffer n t"
  by (induction rule: ctl_exec.induct) (auto intro: lossless_reach.step certain_lossless)

definition no_failure :: "action list \<Rightarrow> bool" where
  "no_failure as \<longleftrightarrow> list_all (\<lambda>a. \<forall>k. a \<noteq> Fail k) as"

lemma no_failure_simps [simp]:
  "no_failure []" "no_failure (a # as) \<longleftrightarrow> (\<forall>k. a \<noteq> Fail k) \<and> no_failure as"
  "no_failure (as @ bs) \<longleftrightarrow> no_failure as \<and> no_failure bs"
  by (simp_all add: no_failure_def)

text \<open>The server grants these writes one after the other.\<close>

fun serves :: "'s server \<Rightarrow> kube_call list \<Rightarrow> 's \<Rightarrow> 's option" where
  "serves sv [] st = Some st"
| "serves sv (c # cs) st =
     (case sv_write sv c st of None \<Rightarrow> None | Some (st', evs) \<Rightarrow> serves sv cs st')"

lemma serves_append: "serves sv (cs @ ds) st = Option.bind (serves sv cs st) (serves sv ds)"
  by (induction cs arbitrary: st) (auto split: option.split)

lemma serves_same_bindings:
  assumes "server_laws sv"
  shows "serves sv cs st = Some st' \<Longrightarrow> list_all (writes_for k) cs \<Longrightarrow>
     list_all2 same_object (bindings sv st j) (bindings sv st' j)"
proof (induction cs arbitrary: st)
  case (Cons c cs)
  then obtain st1 evs where w: "sv_write sv c st = Some (st1, evs)" "serves sv cs st1 = Some st'"
    "writes_for k c" "list_all (writes_for k) cs"
    by (auto split: option.splits)
  have "list_all2 same_object (bindings sv st j) (bindings sv st1 j)"
    by (rule bindings_same [OF write_effect(1) [OF assms w(3,1)]])
  from list_all2_trans [OF _ this Cons.IH [OF w(2,4)]] show ?case
    by (simp add: same_object_def)
qed (simp add: same_bindings_refl)

text \<open>A state in which one worker is busy and nothing else is under way.\<close>

definition busy :: "nat \<Rightarrow> 's \<Rightarrow> Key \<Rightarrow> phase \<Rightarrow> 's ctl" where
  "busy buffer st k p =
     \<lparr>ctl_store = st, ctl_stream = [], ctl_queue = (queue_new buffer)\<lparr>in_flight := {k}\<rparr>,
      ctl_sending = None, ctl_workers = [(k, p)]\<rparr>"

lemma busy_skip:
  "\<forall>ev \<in> set evs. event_key ev = Some k \<Longrightarrow>
     \<exists>as. ctl_exec sv env n (busy buffer st k p\<lparr>ctl_stream := evs\<rparr>) as (busy buffer st k p) \<and> no_failure as"
proof (induction evs)
  case Nil
  have "busy buffer st k p\<lparr>ctl_stream := []\<rparr> = busy buffer st k p" by (simp add: busy_def)
  then show ?case using e_nil no_failure_simps(1) by metis
next
  case (Cons ev evs)
  let ?s = "busy buffer st k p\<lparr>ctl_stream := ev # evs\<rparr>"
  have "ctl_step sv env n (Skip k) ?s (?s\<lparr>ctl_stream := evs\<rparr>)"
    by (rule skip) (use Cons.prems in \<open>auto simp: busy_def enqueue_claim_def\<close>)
  moreover obtain as where "ctl_exec sv env n (busy buffer st k p\<lparr>ctl_stream := evs\<rparr>) as (busy buffer st k p)"
    "no_failure as"
    using Cons by auto
  ultimately have "ctl_exec sv env n ?s (Skip k # as) (busy buffer st k p) \<and> no_failure (Skip k # as)"
    by (auto intro: e_cons)
  then show ?case by blast
qed

lemma busy_writes:
  assumes "server_laws sv"
  shows "serves sv cs st = Some st' \<Longrightarrow> list_all (writes_for k) cs \<Longrightarrow>
     \<exists>as. ctl_exec sv env n (busy buffer st k (Writing (cs @ rest))) as (busy buffer st' k (Writing rest)) \<and>
       no_failure as"
proof (induction cs arbitrary: st)
  case Nil
  then show ?case using e_nil no_failure_simps(1) by fastforce
next
  case (Cons c cs)
  then obtain st1 evs where w: "sv_write sv c st = Some (st1, evs)" "serves sv cs st1 = Some st'"
    "writes_for k c" "list_all (writes_for k) cs"
    by (auto split: option.splits)
  let ?s = "busy buffer st k (Writing ((c # cs) @ rest))"
  let ?t = "busy buffer st1 k (Writing (cs @ rest))"
  have "ctl_step sv env n (Write k c) ?s (?t\<lparr>ctl_stream := evs\<rparr>)"
    using put [of ?s "[]" k c "cs @ rest" "[]" sv st1 evs env n] w(1) by (simp add: busy_def)
  moreover obtain as where "ctl_exec sv env n (?t\<lparr>ctl_stream := evs\<rparr>) as ?t" "no_failure as"
    using busy_skip [of evs k] write_effect(3) [OF assms w(3,1)] by metis
  moreover obtain bs where "ctl_exec sv env n ?t bs (busy buffer st' k (Writing rest))" "no_failure bs"
    using Cons.IH [OF w(2,4)] by blast
  ultimately have "ctl_exec sv env n ?s (Write k c # as @ bs) (busy buffer st' k (Writing rest)) \<and>
      no_failure (Write k c # as @ bs)"
    by (auto intro: e_cons e_append)
  then show ?case by blast
qed

text \<open>From rest, a change brings a worker to its plan.\<close>

lemma idle_shape:
  assumes "ctl_reach sv env buffer n s" "idle s"
  shows "s = \<lparr>ctl_store = ctl_store s, ctl_stream = [], ctl_queue = queue_new buffer,
    ctl_sending = None, ctl_workers = []\<rparr>"
proof -
  have "capacity (ctl_queue s) = buffer"
    using qsys_invD(3) [OF qreach_inv [OF ctl_reach_qreach [OF assms(1)]]] by simp
  moreover have "in_flight (ctl_queue s) = {}"
    using ctl_reach_facts(2) [OF assms(1)] assms(2) by (simp add: idle_def)
  moreover note ctl_reach_open [OF assms(1)] assms(2)
  ultimately show ?thesis by (cases s; cases "ctl_queue s") (simp add: idle_def queue_new_def)
qed

lemma event_to_plan:
  assumes "0 < n" "0 < buffer" "event_key ev = Some k"
  shows "ctl_exec sv env n (ctl_init buffer st [ev]) [Claim k, Send k, Take k, List k]
    (busy buffer st k (Writing (plan env k (sv_list sv st (key_namespace k)))))"
proof -
  let ?q = "queue_new buffer :: Key queue"
  let ?s1 = "ctl_init buffer st [ev]"
  let ?s2 = "?s1\<lparr>ctl_stream := [], ctl_queue := ?q\<lparr>in_flight := {k}\<rparr>, ctl_sending := Some k\<rparr>"
  let ?s3 = "?s2\<lparr>ctl_queue := ?q\<lparr>in_flight := {k}, channel := [k]\<rparr>, ctl_sending := None\<rparr>"
  note defs = ctl_init_def queue_new_def busy_def
  have "ctl_step sv env n (Claim k) ?s1 ?s2"
    using claim [of ?s1 ev "[]" k _ sv env n] assms(3) by (simp add: enqueue_claim_def defs)
  moreover have "ctl_step sv env n (Send k) ?s2 ?s3"
    using send [of ?s2 k _ sv env n] assms(2) by (simp add: enqueue_send_def defs)
  moreover have "ctl_step sv env n (Take k) ?s3 (busy buffer st k Fetching)"
    using take [of ?s3 n k _ sv env] assms(1) by (simp add: recv_def defs)
  moreover have "ctl_step sv env n (List k) (busy buffer st k Fetching)
      (busy buffer st k (Writing (plan env k (sv_list sv st (key_namespace k)))))"
    using list [where s = "busy buffer st k Fetching" and ws = "[]" and ws' = "[]" and k = k and
        clock = "env_clock env" and env = env and sv = sv and n = n]
    by (simp add: busy_def)
  ultimately show ?thesis by (blast intro: e_cons e_nil)
qed

lemma change_to_plan:
  assumes "ctl_reach sv env buffer n s" "idle s" "0 < n" "0 < buffer"
    and "event_key ev = Some k" "sv_rcrb sv st = sv_rcrb sv (ctl_store s)"
  shows "ctl_exec sv env n s [Change ev, Claim k, Send k, Take k, List k]
    (busy buffer st k (Writing (plan env k (sv_list sv st (key_namespace k)))))"
proof (rule e_cons [OF _ event_to_plan [OF assms(3-5)]])
  have "s = ctl_init buffer (ctl_store s) []"
    using idle_shape [OF assms(1,2)] by (simp add: ctl_init_def)
  then have "s\<lparr>ctl_store := st, ctl_stream := ctl_stream s @ [ev]\<rparr> = ctl_init buffer st [ev]"
    by (cases s) (simp add: ctl_init_def)
  then show "ctl_step sv env n (Change ev) s (ctl_init buffer st [ev])"
    using change [of sv st s env n ev] assms(6) by simp
qed

text \<open>A worker whose writes are all granted publishes what it has listed.\<close>

lemma serves_publishes:
  assumes "server_laws sv" "\<And>spec. is_ok (env_to_vec env spec)" "key_service_account_name k \<noteq> []"
    and "serves sv (plan env k (sv_list sv st (key_namespace k))) st = Some st'"
  shows "settled sv env st' k" "sv_rcrb sv st' k \<noteq> None"
proof -
  have *: "settled sv env u' k \<and> sv_rcrb sv u' k \<noteq> None"
    if "carries sv env u k cs" "serves sv cs u = Some u'" "list_all (writes_for k) cs" for cs u u'
    using that
  proof (induction cs arbitrary: u)
    case (Cons c cs)
    then obtain u1 evs where w: "sv_write sv c u = Some (u1, evs)" "serves sv cs u1 = Some u'"
      "writes_for k c" "list_all (writes_for k) cs"
      by (auto split: option.splits)
    from carries_write [OF assms(1) Cons.prems(1) w(3,1)] show ?case
    proof
      assume "carries sv env u1 k cs"
      from Cons.IH [OF this w(2,4)] show ?thesis .
    next
      assume last: "cs = [] \<and> settled sv env u1 k"
      with Cons.prems(1) obtain r where "c = ApplyRcrbStatus (key_namespace k) (key_service_account_name k) r"
        unfolding carries_def by auto
      with server_apply_status(3) [OF assms(1)] w(1) last w(2) show ?thesis by fastforce
    qed
  qed (simp add: carries_nil)
  have "carries sv env st k (plan env k (sv_list sv st (key_namespace k)))"
    using carries_plan [OF assms(2,3), of sv st "env_clock env"] by simp
  from * [OF this assms(4) plan_writes_for [OF assms(1)]]
  show "settled sv env st' k" "sv_rcrb sv st' k \<noteq> None" by simp_all
qed

lemma settled_Some:
  "settled sv env st k \<Longrightarrow> sv_rcrb sv st k \<noteq> None \<Longrightarrow>
     \<exists>obj. sv_rcrb sv st k = Some obj \<and> published env k (bindings sv st k) obj"
  by (auto simp: settled_def split: option.splits)

lemma published_same: "list_all2 same_object crbs crbs' \<Longrightarrow> published env k crbs = published env k crbs'"
  by (intro ext) (simp add: published_def reports_same)

lemma published_spec:
  assumes "published env k crbs obj" "merge_inputs (key_service_account_name k) crbs = Inr spec"
  shows "rcrb_spec obj = spec" "is_ready obj"
  using assms by (auto simp: published_def reports_def is_ready_def)

lemma published_differs:
  assumes "published env k crbs obj" "merge_inputs (key_service_account_name k) crbs = Inr spec"
    and "merge_inputs (key_service_account_name k) crbs' \<noteq> Inr spec"
  shows "\<not> published env k crbs' obj"
proof
  assume p: "published env k crbs' obj"
  show False
  proof (cases "merge_inputs (key_service_account_name k) crbs'")
    case (Inl i)
    with p have "\<not> is_ready obj" by (auto simp: published_def reports_def is_ready_def)
    with published_spec(2) [OF assms(1,2)] show False by simp
  next
    case (Inr spec')
    with published_spec(1) [OF p] published_spec(1) [OF assms(1,2)] assms(3) show False by simp
  qed
qed

text \<open>Such a worker loses nothing while it is alone, as the events of its own writes find
  it up to date.\<close>

lemma busy_skip_lossless:
  assumes "\<forall>ev \<in> set evs. event_key ev = Some k" "up_to_date sv env (busy buffer st k p) k p"
    and "lossless_reach sv env buffer n (busy buffer st k p\<lparr>ctl_stream := evs\<rparr>)"
  shows "lossless_reach sv env buffer n (busy buffer st k p)"
  using assms(1,3)
proof (induction evs)
  case Nil
  then show ?case by (simp add: busy_def)
next
  case (Cons ev evs)
  let ?s = "busy buffer st k p\<lparr>ctl_stream := ev # evs\<rparr>"
  have "ctl_step sv env n (Skip k) ?s (?s\<lparr>ctl_stream := evs\<rparr>)"
    by (rule skip) (use Cons.prems in \<open>auto simp: busy_def enqueue_claim_def\<close>)
  moreover have "lossless sv env (Skip k) ?s (?s\<lparr>ctl_stream := evs\<rparr>)"
    using assms(2) by (auto simp: lossless_def up_to_date_def busy_def split: phase.splits)
  ultimately have "lossless_reach sv env buffer n (busy buffer st k p\<lparr>ctl_stream := evs\<rparr>)"
    using lossless_reach.step [OF Cons.prems(2)] by simp
  with Cons show ?case by simp
qed

lemma busy_writes_lossless:
  assumes "server_laws sv"
  shows "serves sv cs st = Some st' \<Longrightarrow> list_all (writes_for k) cs \<Longrightarrow> carries sv env st k cs \<Longrightarrow>
     lossless_reach sv env buffer n (busy buffer st k (Writing cs)) \<Longrightarrow>
     lossless_reach sv env buffer n (busy buffer st' k (Writing []))"
proof (induction cs arbitrary: st)
  case Nil
  then show ?case by (simp add: carries_nil)
next
  case (Cons c cs)
  then obtain st1 evs where w: "sv_write sv c st = Some (st1, evs)" "serves sv cs st1 = Some st'"
    "writes_for k c" "list_all (writes_for k) cs"
    by (auto split: option.splits)
  let ?s = "busy buffer st k (Writing (c # cs))" and ?t = "busy buffer st1 k (Writing cs)"
  have "ctl_step sv env n (Write k c) ?s (?t\<lparr>ctl_stream := evs\<rparr>)"
    using put [of ?s "[]" k c cs "[]" sv st1 evs env n] w(1) by (simp add: busy_def)
  from certain_step [OF Cons.prems(4) this]
  have "lossless_reach sv env buffer n (?t\<lparr>ctl_stream := evs\<rparr>)" by (simp add: certain_def)
  moreover have next_carries: "carries sv env st1 k cs \<or> cs = [] \<and> settled sv env st1 k"
    by (rule carries_write [OF assms Cons.prems(3) w(3,1)])
  then have "up_to_date sv env ?t k (Writing cs)" by (simp add: up_to_date_def busy_def)
  ultimately have t: "lossless_reach sv env buffer n ?t"
    using busy_skip_lossless write_effect(3) [OF assms w(3,1)] by metis
  from next_carries show ?case
  proof
    assume "carries sv env st1 k cs"
    from Cons.IH [OF w(2,4) this t] show ?thesis .
  qed (use w(2) t in simp)
qed

text \<open>A first event of a key is reconciled without a loss.\<close>

lemma lossless_run:
  assumes "server_laws sv" "\<And>spec. is_ok (env_to_vec env spec)" "0 < n" "0 < buffer"
    and "key_service_account_name k \<noteq> []" "event_key ev = Some k" "announces sv st [ev]"
    and "serves sv (plan env k (sv_list sv st (key_namespace k))) st = Some st'"
  shows "lossless_reach sv env buffer n (ctl_init buffer st' [])"
proof -
  let ?cs = "plan env k (sv_list sv st (key_namespace k))"
  have "lossless_reach sv env buffer n (busy buffer st k (Writing ?cs))"
    by (rule exec_lossless [OF event_to_plan [OF assms(3,4,6)] _ lossless_reach.start [OF assms(7)]])
      (simp add: certain_def)
  then have "lossless_reach sv env buffer n (busy buffer st' k (Writing []))"
    using busy_writes_lossless [OF assms(1,8) plan_writes_for [OF assms(1)]]
      carries_plan [OF assms(2,5), of sv st "env_clock env"] by simp
  moreover have "ctl_step sv env n (Done k) (busy buffer st' k (Writing [])) (ctl_init buffer st' [])"
    using finish [of "busy buffer st' k (Writing [])" "[]" k "[]" sv env n]
    by (simp add: busy_def ctl_init_def queue_done_def queue_new_def)
  ultimately show ?thesis by (rule certain_step) (simp add: certain_def)
qed

section \<open>A change during a reconciliation\<close>

text \<open>At rest only a new change goes on.\<close>

lemma idle_waits: "idle s \<Longrightarrow> ctl_step sv env n a s t \<Longrightarrow> \<exists>ev. a = Change ev"
  by (erule ctl_step.cases) (auto simp: idle_def recv_def split: if_splits)

text \<open>A worker that has published, and a change that comes before it gives the key back.\<close>

lemma change_before_done:
  assumes "event_key ev = Some k" "sv_rcrb sv st' = sv_rcrb sv st"
  shows "ctl_exec sv env n (busy buffer st k (Writing [])) [Change ev, Skip k, Done k] (ctl_init buffer st' [])"
proof -
  let ?b = "busy buffer st' k (Writing [])"
  have "ctl_step sv env n (Change ev) (busy buffer st k (Writing [])) (?b\<lparr>ctl_stream := [ev]\<rparr>)"
    using change [of sv st' "busy buffer st k (Writing [])" env n ev] assms(2) by (simp add: busy_def)
  moreover have "ctl_step sv env n (Skip k) (?b\<lparr>ctl_stream := [ev]\<rparr>) ?b"
    using skip [of "?b\<lparr>ctl_stream := [ev]\<rparr>" ev "[]" k sv env n] assms(1)
    by (simp add: busy_def enqueue_claim_def)
  moreover have "ctl_step sv env n (Done k) ?b (ctl_init buffer st' [])"
    using finish [of ?b "[]" k "[]" sv env n] by (simp add: busy_def ctl_init_def queue_done_def queue_new_def)
  ultimately show ?thesis by (intro e_cons [OF _ e_cons [OF _ e_one]])
qed

text \<open>
  C13: From any reachable idle state, a change of the bindings of a ServiceAccount, if they
  merge and the server grants the writes, leads without any failure to a state in which the
  worker has published them and still holds the key. When the bindings change again at this
  point, the run goes on with the watcher dropping the event, as the key is in flight, and
  the worker giving the key back: the control loop is idle with a resolution that does not
  report the current bindings, and nothing happens any more until a new change comes.
\<close>

theorem update_during_reconcile_is_lost:
  assumes "server_laws sv" "\<And>spec. is_ok (env_to_vec env spec)" "ctl_reach sv env buffer n s" "idle s"
    and "0 < n" "0 < buffer" "key_service_account_name k \<noteq> []"
    and "event_key ev1 = Some k" "sv_rcrb sv st1 = sv_rcrb sv (ctl_store s)"
    and "serves sv (plan env k (sv_list sv st1 (key_namespace k))) st1 = Some st2"
    and "event_key ev2 = Some k" "sv_rcrb sv st3 = sv_rcrb sv st2"
    and "merge_inputs (key_service_account_name k) (bindings sv st1 k) = Inr spec"
    and "merge_inputs (key_service_account_name k) (bindings sv st3 k) \<noteq> Inr spec"
  shows "\<exists>as mid t. ctl_exec sv env n s (Change ev1 # as) mid \<and> no_failure as \<and>
     (k, Writing []) \<in> set (ctl_workers mid) \<and> k \<in> in_flight (ctl_queue mid) \<and>
     settled sv env (ctl_store mid) k \<and>
     ctl_exec sv env n mid [Change ev2, Skip k, Done k] t \<and>
     ctl_store t = st3 \<and> \<not> settled sv env st3 k \<and>
     idle t \<and> (\<forall>a u. ctl_step sv env n a t u \<longrightarrow> (\<exists>ev. a = Change ev))"
proof -
  let ?cs = "plan env k (sv_list sv st1 (key_namespace k))"
  let ?mid = "busy buffer st2 k (Writing [])" and ?t = "ctl_init buffer st3 [] :: 'a ctl"
  obtain as where as: "ctl_exec sv env n (busy buffer st1 k (Writing ?cs)) as ?mid" "no_failure as"
    using busy_writes [OF assms(1,10) plan_writes_for [OF assms(1)], of env n buffer "[]"] by auto
  let ?as = "[Claim k, Send k, Take k, List k] @ as"
  have "ctl_exec sv env n s (Change ev1 # ?as) ?mid"
    using e_append [OF change_to_plan [OF assms(3-6,8,9)] as(1)] by simp
  moreover have "no_failure ?as" using as(2) by simp
  moreover have "(k, Writing []) \<in> set (ctl_workers ?mid)" "k \<in> in_flight (ctl_queue ?mid)" "ctl_store ?mid = st2"
    by (simp_all add: busy_def)
  moreover note published = serves_publishes [OF assms(1,2,7,10)]
  moreover have "ctl_exec sv env n ?mid [Change ev2, Skip k, Done k] ?t"
    by (rule change_before_done [OF assms(11,12)])
  moreover have "idle ?t" "ctl_store ?t = st3" by (simp_all add: idle_def ctl_init_def queue_new_def)
  moreover note idle_waits [OF this(1)]
  moreover have "\<not> settled sv env st3 k"
  proof -
    obtain obj where obj: "sv_rcrb sv st2 k = Some obj" "published env k (bindings sv st2 k) obj"
      using settled_Some [OF published] by blast
    have "published env k (bindings sv st1 k) obj"
      using obj(2) published_same [OF serves_same_bindings [OF assms(1,10) plan_writes_for [OF assms(1)]]] by simp
    from published_differs [OF this assms(13,14)] obj(1) assms(12) show ?thesis by (simp add: settled_def)
  qed
  ultimately show ?thesis by (intro exI [of _ ?as] exI [of _ ?mid] exI [of _ ?t]) simp
qed

section \<open>A reconciliation that fails\<close>

text \<open>The error is logged and the key given back; nothing puts it into the queue again.\<close>

lemma failed_reconcile_is_not_retried:
  assumes "\<And>spec. is_ok (env_to_vec env spec)" "ctl_reach sv env buffer n s" "idle s"
    and "0 < n" "0 < buffer" "key_service_account_name k \<noteq> []"
    and "event_key ev = Some k" "sv_rcrb sv st = sv_rcrb sv (ctl_store s)" "\<not> settled sv env st k"
  shows "\<exists>t. ctl_exec sv env n s [Change ev, Claim k, Send k, Take k, List k, Fail k, Done k] t \<and>
     idle t \<and> \<not> settled sv env (ctl_store t) k"
proof -
  let ?cs = "plan env k (sv_list sv st (key_namespace k))"
  let ?b = "busy buffer st k (Writing [])"
  have "?cs \<noteq> []"
    using plan_shape [OF assms(1,6), of "sv_list sv st (key_namespace k)"] by auto
  then have "ctl_step sv env n (Fail k) (busy buffer st k (Writing ?cs)) ?b"
    using fail [of "busy buffer st k (Writing ?cs)" "[]" k "Writing ?cs" "[]" sv env n]
    by (simp add: busy_def)
  moreover have "ctl_step sv env n (Done k) ?b (ctl_init buffer st [])"
    using finish [of ?b "[]" k "[]" sv env n]
    by (simp add: busy_def ctl_init_def queue_done_def queue_new_def)
  ultimately have "ctl_exec sv env n s ([Change ev, Claim k, Send k, Take k, List k] @ [Fail k, Done k])
      (ctl_init buffer st [])"
    by (intro e_append [OF change_to_plan [OF assms(2-5,7,8)]] e_cons [OF _ e_one])
  moreover have "idle (ctl_init buffer st [])" "ctl_store (ctl_init buffer st []) = st"
    by (simp_all add: idle_def ctl_init_def queue_new_def)
  ultimately show ?thesis using assms(9) by fastforce
qed

section \<open>Between the two writes of a resolution\<close>

text \<open>A resolution with the spec of the new bindings and the status, the hash
  included, of the old ones.\<close>

lemma resolution_torn_between_writes:
  assumes "server_laws sv" "\<And>spec. is_ok (env_to_vec env spec)" "ctl_reach sv env buffer n s" "idle s"
    and "0 < n" "0 < buffer" "key_service_account_name k \<noteq> []"
    and "event_key ev = Some k" "sv_rcrb sv st1 = sv_rcrb sv (ctl_store s)"
    and "serves sv (butlast (plan env k (sv_list sv st1 (key_namespace k)))) st1 = Some st2"
    and "sv_rcrb sv (ctl_store s) k = Some old"
    and "merge_inputs (key_service_account_name k) (bindings sv st1 k) = Inr spec"
  shows "\<exists>as t obj. ctl_exec sv env n s as t \<and> no_failure as \<and>
     sv_rcrb sv (ctl_store t) k = Some obj \<and> rcrb_spec obj = spec \<and> rcrb_status obj = rcrb_status old"
proof -
  let ?cs = "plan env k (sv_list sv st1 (key_namespace k))"
  let ?A = "ApplyRcrb (key_namespace k) (key_service_account_name k)"
  let ?S = "ApplyRcrbStatus (key_namespace k) (key_service_account_name k)"
  obtain ms r where cs: "?cs = ms @ [?A r, ?S r]" "list_all (marks_one k (bindings sv st1 k)) ms"
    "reports env k (bindings sv st1 k) r"
    using plan_shape [OF assms(2,7), of "sv_list sv st1 (key_namespace k)"] unfolding bindings_def by blast
  have own: "list_all (writes_for k) (ms @ [?A r])" "?cs = (ms @ [?A r]) @ [?S r]"
    using plan_writes_for [OF assms(1), of k env st1] cs(1) by simp_all
  have "serves sv (ms @ [?A r]) st1 = Some st2" using assms(10) cs(1) by (simp add: butlast_append)
  then obtain st where st: "serves sv ms st1 = Some st" "\<exists>evs. sv_write sv (?A r) st = Some (st2, evs)"
    by (auto simp: serves_append bind_eq_Some_conv split: option.splits)
  have marks_keep: "sv_rcrb sv u' = sv_rcrb sv u"
    if "serves sv xs u = Some u'" "list_all (marks_one k crbs) xs" for xs u u' crbs
    using that
  proof (induction xs arbitrary: u)
    case (Cons x xs)
    then obtain u1 evs where "sv_write sv x u = Some (u1, evs)" "serves sv xs u1 = Some u'"
      "marks_one k crbs x" "list_all (marks_one k crbs) xs"
      by (auto split: option.splits)
    with Cons.IH server_status(2) [OF assms(1)] show ?case by (fastforce simp: marks_one_def)
  qed simp
  have "sv_rcrb sv st k = Some old" using marks_keep [OF st(1) cs(2)] assms(9,11) by simp
  with st(2) server_apply(3) [OF assms(1)] obtain obj where obj: "sv_rcrb sv st2 k = Some obj"
    "rcrb_spec obj = rcrb_spec r" "rcrb_status obj = rcrb_status old"
    by fastforce
  moreover have "rcrb_spec r = spec" using cs(3) assms(12) by (simp add: reports_def)
  moreover obtain as where "ctl_exec sv env n (busy buffer st1 k (Writing ?cs)) as (busy buffer st2 k (Writing [?S r]))"
    "no_failure as"
    using busy_writes [OF assms(1) \<open>serves sv (ms @ [?A r]) st1 = Some st2\<close> own(1), of env n buffer "[?S r]"] own(2) by auto
  moreover have "ctl_exec sv env n s ([Change ev, Claim k, Send k, Take k, List k] @ as)
      (busy buffer st2 k (Writing [?S r]))"
    by (rule e_append [OF change_to_plan [OF assms(3-6,8,9)] calculation(5)])
  moreover have "ctl_store (busy buffer st2 k (Writing [?S r])) = st2" by (simp add: busy_def)
  ultimately show ?thesis by (metis no_failure_simps action.distinct)
qed

section \<open>A resolution without bindings\<close>

definition untouched :: "'s ctl \<Rightarrow> Key \<Rightarrow> bool" where
  "untouched s k \<longleftrightarrow> k \<notin> pending s \<and> k \<notin> waiting s \<and> k \<notin> fst ` set (ctl_workers s)"

lemma untouched_step:
  assumes "ctl_step sv env n a s t" "server_laws sv" "own_plans s" "untouched s k"
    and "\<And>ev. a = Change ev \<Longrightarrow> event_key ev \<noteq> Some k"
  shows "untouched t k \<and> sv_rcrb sv (ctl_store t) k = sv_rcrb sv (ctl_store s) k"
  using assms(1)
proof (cases rule: ctl_step.cases)
  case (put ws j c cs ws' st evs)
  have "writes_for j c"
    using put(3) assms(3) unfolding own_plans_def by (metis in_set_conv_decomp list.pred_inject(2))
  moreover have "k \<noteq> j" using put assms(4) by (auto simp: untouched_def)
  moreover note write_effect [OF assms(2) calculation(1) put(4)]
  ultimately show ?thesis using put assms(4) by (auto simp: untouched_def pending_def waiting_def in_map_filter)
qed (use assms(4,5) in \<open>auto simp: untouched_def pending_def waiting_def map_filter_def
  enqueue_claim_def enqueue_send_def recv_def queue_done_def split: if_splits list.splits\<close>)

text \<open>
  C16: The control loop writes the resolution of a ServiceAccount only after an event of one
  of its bindings: if no event names the key, in the initial listing or later, the
  resolution stays as it is, so one whose last binding was deleted while the webhook was
  down is never withdrawn.
\<close>

theorem unannounced_resolution_is_kept:
  assumes "server_laws sv" "ctl_exec sv env n (ctl_init buffer st evs) as t"
    and "Some k \<notin> event_key ` set evs" "\<forall>ev. Change ev \<in> set as \<longrightarrow> event_key ev \<noteq> Some k"
  shows "sv_rcrb sv (ctl_store t) k = sv_rcrb sv st k"
proof -
  have "sv_rcrb sv (ctl_store t) k = sv_rcrb sv (ctl_store s) k"
    if "ctl_exec sv env n s as t" "untouched s k" "own_plans s"
      "\<forall>ev. Change ev \<in> set as \<longrightarrow> event_key ev \<noteq> Some k" for s
    using that
  proof (induction rule: ctl_exec.induct)
    case (e_cons a s t as u)
    then show ?case using untouched_step [OF e_cons.hyps(1) assms(1), of k] own_plans_step [OF e_cons.hyps(1) assms(1)]
      by simp
  qed simp
  from this [OF assms(2)] assms(3,4) own_plans_init show ?thesis
    by (simp add: untouched_def pending_def waiting_def in_map_filter ctl_init_def queue_new_def own_plans_def)
qed

end
