(* ===== verification/Crd_Json.thy ===== *)
theory Crd_Json
  imports Json Crds "HOL-Library.Monad_Syntax"
begin

text \<open>
  The JSON form of the specs of \<open>kif-api/src/crds.rs\<close>, as serde derives it from the
  attributes there: names in camelCase, absent options left out, \<open>stsRegionalEndpoints\<close>
  and \<open>providers\<close> with a default. Each struct is one instance of the interface \<open>codec\<close>
  (theory Json), whose proof uses the instances of its fields.
\<close>

definition aws_json :: "AwsProviderSpec \<Rightarrow> json" where
  "aws_json a = JObj
     ([(''roleArn'', JStr (role_arn a))] @
      skip_none ''region'' JStr (aws_region a) @
      [(''stsRegionalEndpoints'', JBool (sts_regional_endpoints a))] @
      skip_none ''audience'' JStr (aws_audience a) @
      skip_none ''maxSessionDurationSeconds'' enc_u64 (max_session_duration_seconds a))"

definition aws_of_json :: "json \<Rightarrow> AwsProviderSpec option" where
  "aws_of_json j = do {
     fs \<leftarrow> as_fields [''roleArn'', ''region'', ''stsRegionalEndpoints'', ''audience'',
              ''maxSessionDurationSeconds''] j;
     arn \<leftarrow> required dec_str ''roleArn'' fs;
     region \<leftarrow> defaulted None (opt_dec dec_str) ''region'' fs;
     regional \<leftarrow> defaulted True dec_bool ''stsRegionalEndpoints'' fs;
     audience \<leftarrow> defaulted None (opt_dec dec_str) ''audience'' fs;
     duration \<leftarrow> defaulted None (opt_dec dec_u64) ''maxSessionDurationSeconds'' fs;
     Some \<lparr>role_arn = arn, aws_region = region, sts_regional_endpoints = regional,
           aws_audience = audience, max_session_duration_seconds = duration\<rparr> }"

definition azure_json :: "AzureProviderSpec \<Rightarrow> json" where
  "azure_json a = JObj
     ([(''tenantId'', JStr (tenant_id a)), (''clientId'', JStr (client_id a))] @
      skip_none ''audience'' JStr (azure_audience a))"

definition azure_of_json :: "json \<Rightarrow> AzureProviderSpec option" where
  "azure_of_json j = do {
     fs \<leftarrow> as_fields [''tenantId'', ''clientId'', ''audience''] j;
     tenant \<leftarrow> required dec_str ''tenantId'' fs;
     client \<leftarrow> required dec_str ''clientId'' fs;
     audience \<leftarrow> defaulted None (opt_dec dec_str) ''audience'' fs;
     Some \<lparr>tenant_id = tenant, client_id = client, azure_audience = audience\<rparr> }"

definition gcp_json :: "GcpProviderSpec \<Rightarrow> json" where
  "gcp_json g = JObj
     ([(''workloadIdentityProvider'', JStr (workload_identity_provider g)),
       (''serviceAccountEmail'', JStr (service_account_email g))] @
      skip_none ''audience'' JStr (gcp_audience g) @
      skip_none ''projectId'' JStr (project_id g))"

definition gcp_of_json :: "json \<Rightarrow> GcpProviderSpec option" where
  "gcp_of_json j = do {
     fs \<leftarrow> as_fields [''workloadIdentityProvider'', ''serviceAccountEmail'', ''audience'', ''projectId''] j;
     provider \<leftarrow> required dec_str ''workloadIdentityProvider'' fs;
     email \<leftarrow> required dec_str ''serviceAccountEmail'' fs;
     audience \<leftarrow> defaulted None (opt_dec dec_str) ''audience'' fs;
     project \<leftarrow> defaulted None (opt_dec dec_str) ''projectId'' fs;
     Some \<lparr>workload_identity_provider = provider, service_account_email = email,
           gcp_audience = audience, project_id = project\<rparr> }"

definition providers_json :: "ProvidersSpec \<Rightarrow> json" where
  "providers_json p = JObj
     (skip_none ''aws'' aws_json (prov_aws p) @ skip_none ''azure'' azure_json (prov_azure p) @
      skip_none ''gcp'' gcp_json (prov_gcp p))"

definition providers_of_json :: "json \<Rightarrow> ProvidersSpec option" where
  "providers_of_json j = do {
     fs \<leftarrow> as_fields [''aws'', ''azure'', ''gcp''] j;
     aws \<leftarrow> defaulted None (opt_dec aws_of_json) ''aws'' fs;
     azure \<leftarrow> defaulted None (opt_dec azure_of_json) ''azure'' fs;
     gcp \<leftarrow> defaulted None (opt_dec gcp_of_json) ''gcp'' fs;
     Some \<lparr>prov_aws = aws, prov_azure = azure, prov_gcp = gcp\<rparr> }"

definition attributes_json :: "AttributesSpec \<Rightarrow> json" where
  "attributes_json a = JObj
     (skip_none ''includeProvenance'' JBool (include_provenance a) @
      skip_none ''extra'' enc_map (extra_attrs a))"

definition attributes_of_json :: "json \<Rightarrow> AttributesSpec option" where
  "attributes_of_json j = do {
     fs \<leftarrow> as_fields [''includeProvenance'', ''extra''] j;
     prov \<leftarrow> defaulted None (opt_dec dec_bool) ''includeProvenance'' fs;
     extra \<leftarrow> defaulted None (opt_dec dec_map) ''extra'' fs;
     Some \<lparr>include_provenance = prov, extra_attrs = extra\<rparr> }"

definition subject_json :: "SubjectRef \<Rightarrow> json" where
  "subject_json s = JObj [(''serviceAccountName'', JStr (service_account_name s))]"

definition subject_of_json :: "json \<Rightarrow> SubjectRef option" where
  "subject_of_json j = do {
     fs \<leftarrow> as_fields [''serviceAccountName''] j;
     name \<leftarrow> required dec_str ''serviceAccountName'' fs;
     Some \<lparr>service_account_name = name\<rparr> }"

definition crb_spec_json :: "CloudRoleBindingSpec \<Rightarrow> json" where
  "crb_spec_json s = JObj
     ([(''subject'', subject_json (crb_subject s))] @
      skip_none ''attributes'' attributes_json (crb_attributes s) @
      [(''providers'', providers_json (crb_providers s))])"

definition crb_spec_of_json :: "json \<Rightarrow> CloudRoleBindingSpec option" where
  "crb_spec_of_json j = do {
     fs \<leftarrow> as_fields [''subject'', ''attributes'', ''providers''] j;
     subject \<leftarrow> required subject_of_json ''subject'' fs;
     attributes \<leftarrow> defaulted None (opt_dec attributes_of_json) ''attributes'' fs;
     providers \<leftarrow> defaulted default_ProvidersSpec providers_of_json ''providers'' fs;
     Some \<lparr>crb_subject = subject, crb_attributes = attributes, crb_providers = providers\<rparr> }"

definition rcrb_spec_json :: "ResolvedCloudRoleBindingSpec \<Rightarrow> json" where
  "rcrb_spec_json s = JObj
     ([(''subject'', subject_json (rcrb_subject s))] @
      skip_none ''attributes'' attributes_json (rcrb_attributes s) @
      [(''providers'', providers_json (rcrb_providers s))])"

definition rcrb_spec_of_json :: "json \<Rightarrow> ResolvedCloudRoleBindingSpec option" where
  "rcrb_spec_of_json j = do {
     fs \<leftarrow> as_fields [''subject'', ''attributes'', ''providers''] j;
     subject \<leftarrow> required subject_of_json ''subject'' fs;
     attributes \<leftarrow> defaulted None (opt_dec attributes_of_json) ''attributes'' fs;
     providers \<leftarrow> defaulted default_ProvidersSpec providers_of_json ''providers'' fs;
     Some \<lparr>rcrb_subject = subject, rcrb_attributes = attributes, rcrb_providers = providers\<rparr> }"

section \<open>Each struct is a codec\<close>

interpretation aws: codec aws_json aws_of_json "\<lambda>_. True"
proof unfold_locales
  fix a :: AwsProviderSpec
  show "aws_of_json (aws_json a) = Some a"
    by (cases a; cases "aws_region a"; cases "aws_audience a"; cases "max_session_duration_seconds a")
      (simp_all add: aws_json_def aws_of_json_def field_defs u64.dec_enc u64.enc_not_null)
qed (simp add: aws_json_def)

interpretation azure: codec azure_json azure_of_json "\<lambda>_. True"
proof unfold_locales
  fix a :: AzureProviderSpec
  show "azure_of_json (azure_json a) = Some a"
    by (cases a; cases "azure_audience a") (simp_all add: azure_json_def azure_of_json_def field_defs)
qed (simp add: azure_json_def)

interpretation gcp: codec gcp_json gcp_of_json "\<lambda>_. True"
proof unfold_locales
  fix g :: GcpProviderSpec
  show "gcp_of_json (gcp_json g) = Some g"
    by (cases g; cases "gcp_audience g"; cases "project_id g")
      (simp_all add: gcp_json_def gcp_of_json_def field_defs)
qed (simp add: gcp_json_def)

interpretation providers: codec providers_json providers_of_json "\<lambda>_. True"
proof unfold_locales
  fix p :: ProvidersSpec
  show "providers_of_json (providers_json p) = Some p"
    by (cases p; cases "prov_aws p"; cases "prov_azure p"; cases "prov_gcp p")
      (simp_all add: providers_json_def providers_of_json_def field_defs aws.dec_enc aws.enc_not_null
        azure.dec_enc azure.enc_not_null gcp.dec_enc gcp.enc_not_null)
qed (simp add: providers_json_def)

definition attributes_wf :: "AttributesSpec \<Rightarrow> bool" where
  "attributes_wf a \<longleftrightarrow> pred_option bt_wf (extra_attrs a)"

interpretation attributes: codec attributes_json attributes_of_json attributes_wf
proof unfold_locales
  fix a :: AttributesSpec
  assume "attributes_wf a"
  then show "attributes_of_json (attributes_json a) = Some a"
    by (cases a; cases "include_provenance a"; cases "extra_attrs a")
      (simp_all add: attributes_json_def attributes_of_json_def field_defs attributes_wf_def
        bmap.dec_enc bmap.enc_not_null)
qed (simp add: attributes_json_def)

interpretation subject: codec subject_json subject_of_json "\<lambda>_. True"
  by unfold_locales (simp_all add: subject_json_def subject_of_json_def field_defs)

definition crb_spec_wf :: "CloudRoleBindingSpec \<Rightarrow> bool" where
  "crb_spec_wf s \<longleftrightarrow> pred_option attributes_wf (crb_attributes s)"

definition rcrb_spec_wf :: "ResolvedCloudRoleBindingSpec \<Rightarrow> bool" where
  "rcrb_spec_wf s \<longleftrightarrow> pred_option attributes_wf (rcrb_attributes s)"

lemmas part_codecs = subject.dec_enc providers.dec_enc attributes.dec_enc attributes.enc_not_null

interpretation crb: codec crb_spec_json crb_spec_of_json crb_spec_wf
proof unfold_locales
  fix s :: CloudRoleBindingSpec
  assume "crb_spec_wf s"
  then show "crb_spec_of_json (crb_spec_json s) = Some s"
    by (cases s; cases "crb_attributes s")
      (simp_all add: crb_spec_json_def crb_spec_of_json_def field_defs crb_spec_wf_def part_codecs)
qed (simp add: crb_spec_json_def)

interpretation rcrb: codec rcrb_spec_json rcrb_spec_of_json rcrb_spec_wf
proof unfold_locales
  fix s :: ResolvedCloudRoleBindingSpec
  assume "rcrb_spec_wf s"
  then show "rcrb_spec_of_json (rcrb_spec_json s) = Some s"
    by (cases s; cases "rcrb_attributes s")
      (simp_all add: rcrb_spec_json_def rcrb_spec_of_json_def field_defs rcrb_spec_wf_def part_codecs)
qed (simp add: rcrb_spec_json_def)

section \<open>What is read is well-formed, and how deep it is\<close>

lemma opt_dec_wf:
  assumes "opt_dec dec j = Some x" "\<And>j v. dec j = Some v \<Longrightarrow> P v"
  shows "pred_option P x"
  using assms(1) by (auto simp: opt_dec_def assms(2) split: if_splits)

lemma defaulted_wf:
  assumes "defaulted None (opt_dec dec) n fs = Some x" "\<And>j v. dec j = Some v \<Longrightarrow> P v"
  shows "pred_option P x"
proof (cases "map_of (entries fs) n")
  case None
  with assms(1) show ?thesis by (simp add: defaulted_def)
next
  case (Some j)
  with assms(1) have "opt_dec dec j = Some x" by (simp add: defaulted_def)
  then show ?thesis by (rule opt_dec_wf) (rule assms(2))
qed

lemma attributes_of_json_wf:
  assumes "attributes_of_json j = Some a"
  shows "attributes_wf a"
proof -
  from assms obtain fs prov extra where "defaulted None (opt_dec dec_map) ''extra'' fs = Some extra"
    "Some \<lparr>include_provenance = prov, extra_attrs = extra\<rparr> = Some a"
    unfolding attributes_of_json_def bind_eq_Some_conv by blast
  then have "defaulted None (opt_dec dec_map) ''extra'' fs = Some (extra_attrs a)" by auto
  then show ?thesis unfolding attributes_wf_def by (rule defaulted_wf) (rule dec_map_wf)
qed

lemma crb_spec_of_json_wf:
  assumes "crb_spec_of_json j = Some s"
  shows "crb_spec_wf s"
proof -
  from assms obtain fs subject attributes providers where
    "defaulted None (opt_dec attributes_of_json) ''attributes'' fs = Some attributes"
    "Some \<lparr>crb_subject = subject, crb_attributes = attributes, crb_providers = providers\<rparr> = Some s"
    unfolding crb_spec_of_json_def bind_eq_Some_conv by blast
  then have "defaulted None (opt_dec attributes_of_json) ''attributes'' fs = Some (crb_attributes s)" by auto
  then show ?thesis unfolding crb_spec_wf_def by (rule defaulted_wf) (rule attributes_of_json_wf)
qed

text \<open>
  C30: Whatever JSON value the spec of a CloudRoleBinding is read from (unknown entries,
  absent or null options, defaults left out, arrays in place of objects), writing it and
  reading it again gives the same spec.
\<close>

theorem crb_spec_reads_back:
  assumes "crb_spec_of_json j = Some s"
  shows "crb_spec_of_json (crb_spec_json s) = Some s"
  using crb_spec_of_json_wf [OF assms] by (rule crb.dec_enc)

lemma provider_depths:
  "json_depth (aws_json a) \<le> 1" "json_depth (azure_json z) \<le> 1" "json_depth (gcp_json g) \<le> 1"
  unfolding aws_json_def azure_json_def gcp_json_def One_nat_def
  by (rule depth_obj; auto simp: skip_none_def split: option.splits)+

lemma part_depths:
  "json_depth (providers_json p) \<le> 2" "json_depth (attributes_json t) \<le> 2" "json_depth (subject_json s) \<le> 2"
  unfolding providers_json_def attributes_json_def subject_json_def numeral_2_eq_2
  by (rule depth_obj; use provider_depths in \<open>auto simp: skip_none_def split: option.splits\<close>)+

lemma rcrb_spec_depth: "json_depth (rcrb_spec_json s) \<le> 127"
proof -
  have "json_depth (rcrb_spec_json s) \<le> Suc 2" unfolding rcrb_spec_json_def
    by (rule depth_obj; use part_depths in \<open>auto simp: skip_none_def split: option.splits\<close>)
  then show ?thesis by simp
qed

end
