(* ===== verification/Config_Hash.thy ===== *)
theory Config_Hash
  imports Crd_Json Reconcile
begin

text \<open>
  The configuration hash of \<open>build_resolved_from_spec\<close>: the digest of the JSON text of
  the merged spec. It identifies the spec, as the JSON form loses nothing; two specs share a
  hash only where the digest of their texts collides.
\<close>

text \<open>\<open>env_to_vec\<close> is \<open>serde_json::to_vec\<close> at the type of the spec.\<close>

definition serde_env :: "json_text \<Rightarrow> reconcile_env \<Rightarrow> bool" where
  "serde_env jt env \<longleftrightarrow> reads_back jt \<and> env_to_vec env = (\<lambda>s. Inr (jt_print jt (rcrb_spec_json s)))"

definition collides :: "json_text \<Rightarrow> reconcile_env \<Rightarrow> ResolvedCloudRoleBindingSpec \<Rightarrow> ResolvedCloudRoleBindingSpec \<Rightarrow> bool" where
  "collides jt env s s' \<longleftrightarrow>
     jt_print jt (rcrb_spec_json s) \<noteq> jt_print jt (rcrb_spec_json s') \<and>
     env_sha256_hex env (jt_print jt (rcrb_spec_json s)) = env_sha256_hex env (jt_print jt (rcrb_spec_json s'))"

lemma merged_spec_wf: "rcrb_spec_wf (merged_spec sa crbs)"
  by (simp add: merged_spec_def Let_def rcrb_spec_wf_def attributes_wf_def btm.invar_fold btm.invar_empty)

lemma merge_inputs_wf: "merge_inputs sa crbs = Inr s \<Longrightarrow> rcrb_spec_wf s"
  using merged_spec_wf merge_inputs_Inr by metis

lemma reports_hash:
  assumes "serde_env jt env" "reports env key crbs r" "merge_inputs (key_service_account_name key) crbs = Inr s"
  shows "status_hash r = Some (env_sha256_hex env (jt_print jt (rcrb_spec_json s)))" "rcrb_spec r = s"
  using assms by (auto simp: serde_env_def reports_def)

lemma hash_iff_spec:
  assumes "serde_env jt env" "reports env key crbs r" "reports env key crbs' r'"
    and "merge_inputs (key_service_account_name key) crbs = Inr s"
    and "merge_inputs (key_service_account_name key) crbs' = Inr s'" "\<not> collides jt env s s'"
  shows "status_hash r = status_hash r' \<longleftrightarrow> s = s'"
proof -
  have jt: "reads_back jt" using assms(1) by (simp add: serde_env_def)
  have "jt_print jt (rcrb_spec_json s) = jt_print jt (rcrb_spec_json s') \<longleftrightarrow> s = s'"
    unfolding print_inject [OF jt rcrb_spec_depth rcrb_spec_depth]
    by (rule rcrb.enc_inject [OF merge_inputs_wf [OF assms(4)] merge_inputs_wf [OF assms(5)]])
  then show ?thesis
    using assms(6) reports_hash(1) [OF assms(1,2,4)] reports_hash(1) [OF assms(1,3,5)]
    by (auto simp: collides_def)
qed


end
