(* ===== verification/Schema.thy ===== *)
theory Schema
  imports Reconcile
begin

text \<open>
  What the API server demands of the two custom resources: the constraints that the
  \<open>schemars\<close> attributes of \<open>kif-api/src/crds.rs\<close> put into their schemas (minimal lengths and
  patterns), and its own rules for the names of objects. The patterns are anchored; a dot matches
  every character but a newline, and \<open>\s\<close> the five ASCII white-space characters of the
  server's regular expressions.
\<close>

section \<open>The patterns\<close>

definition is_digit :: "char \<Rightarrow> bool" where
  "is_digit c \<longleftrightarrow> 0x30 \<le> (of_char c :: nat) \<and> (of_char c :: nat) \<le> 0x39"

definition is_hex :: "char \<Rightarrow> bool" where
  "is_hex c \<longleftrightarrow> is_digit c \<or> 0x41 \<le> (of_char c :: nat) \<and> (of_char c :: nat) \<le> 0x46 \<or>
     0x61 \<le> (of_char c :: nat) \<and> (of_char c :: nat) \<le> 0x66"

definition arn_prefix :: string where
  "arn_prefix = ''arn:aws:iam::''"

text \<open>\<open>^arn:aws:iam::\d{12}:role\/.+$\<close>\<close>

definition re_role_arn :: "string \<Rightarrow> bool" where
  "re_role_arn s \<longleftrightarrow>
     (let account = take 12 (drop (length arn_prefix) s);
          rest = drop (length arn_prefix + 12) s;
          path = drop (length '':role/'') rest
      in starts_with s arn_prefix \<and> length account = 12 \<and> list_all is_digit account \<and>
         starts_with rest '':role/'' \<and> path \<noteq> [] \<and> CHR 0x0A \<notin> set path)"

text \<open>\<open>^[0-9a-fA-F-]{36}$\<close>\<close>

definition re_uuid :: "string \<Rightarrow> bool" where
  "re_uuid s \<longleftrightarrow> length s = 36 \<and> list_all (\<lambda>c. is_hex c \<or> c = CHR ''-'') s"

text \<open>\<open>^[^@\s]+@[^@\s]+\.iam\.gserviceaccount\.com$\<close>\<close>

definition re_gcp_email :: "string \<Rightarrow> bool" where
  "re_gcp_email s \<longleftrightarrow>
     (let ok = (\<lambda>c. c \<noteq> CHR ''@'' \<and> c \<notin> {CHR 0x09, CHR 0x0A, CHR 0x0C, CHR 0x0D, CHR 0x20});
          user = takeWhile ok s; rest = dropWhile ok s; domain = drop 1 rest;
          suffix = ''.iam.gserviceaccount.com''
      in user \<noteq> [] \<and> take 1 rest = ''@'' \<and> list_all ok domain \<and>
         starts_with (rev domain) (rev suffix) \<and> length suffix < length domain)"

section \<open>The schemas\<close>

definition min1 :: "string option \<Rightarrow> bool" where
  "min1 x \<longleftrightarrow> x \<noteq> Some []"

definition valid_aws :: "AwsProviderSpec \<Rightarrow> bool" where
  "valid_aws a \<longleftrightarrow> role_arn a \<noteq> [] \<and> re_role_arn (role_arn a) \<and> min1 (aws_region a) \<and> min1 (aws_audience a)"

definition valid_azure :: "AzureProviderSpec \<Rightarrow> bool" where
  "valid_azure a \<longleftrightarrow> tenant_id a \<noteq> [] \<and> re_uuid (tenant_id a) \<and> client_id a \<noteq> [] \<and>
     re_uuid (client_id a) \<and> min1 (azure_audience a)"

definition valid_gcp :: "GcpProviderSpec \<Rightarrow> bool" where
  "valid_gcp g \<longleftrightarrow> workload_identity_provider g \<noteq> [] \<and> service_account_email g \<noteq> [] \<and>
     re_gcp_email (service_account_email g) \<and> min1 (gcp_audience g) \<and> min1 (project_id g)"

definition valid_providers :: "ProvidersSpec \<Rightarrow> bool" where
  "valid_providers p \<longleftrightarrow> pred_option valid_aws (prov_aws p) \<and> pred_option valid_azure (prov_azure p) \<and>
     pred_option valid_gcp (prov_gcp p)"

definition valid_subject :: "SubjectRef \<Rightarrow> bool" where
  "valid_subject s \<longleftrightarrow> service_account_name s \<noteq> []"

definition valid_crb_spec :: "CloudRoleBindingSpec \<Rightarrow> bool" where
  "valid_crb_spec s \<longleftrightarrow> valid_subject (crb_subject s) \<and> valid_providers (crb_providers s)"

definition valid_rcrb_spec :: "ResolvedCloudRoleBindingSpec \<Rightarrow> bool" where
  "valid_rcrb_spec s \<longleftrightarrow> valid_subject (rcrb_subject s) \<and> valid_providers (rcrb_providers s)"

definition valid_condition :: "Condition \<Rightarrow> bool" where
  "valid_condition c \<longleftrightarrow> cond_message c \<noteq> []"

definition valid_crb_status :: "CloudRoleBindingStatus \<Rightarrow> bool" where
  "valid_crb_status st \<longleftrightarrow> list_all valid_condition (crb_conditions st)"

definition valid_ref :: "CloudRoleBindingRef \<Rightarrow> bool" where
  "valid_ref r \<longleftrightarrow> ref_name r \<noteq> []"

definition valid_rcrb_status :: "ResolvedCloudRoleBindingStatus \<Rightarrow> bool" where
  "valid_rcrb_status st \<longleftrightarrow> list_all valid_condition (rcrb_conditions st) \<and> list_all valid_ref (sources st)"

definition valid_crb :: "CloudRoleBinding \<Rightarrow> bool" where
  "valid_crb crb \<longleftrightarrow> valid_crb_spec (crb_spec crb) \<and> pred_option valid_crb_status (crb_status crb)"

definition valid_rcrb :: "ResolvedCloudRoleBinding \<Rightarrow> bool" where
  "valid_rcrb r \<longleftrightarrow> valid_rcrb_spec (rcrb_spec r) \<and> pred_option valid_rcrb_status (rcrb_status r)"

section \<open>A valid role can be injected\<close>

lemma strip_words_step:
  assumes "find (\<lambda>w. w \<noteq> [] \<and> starts_with s w) ws = Some w"
  shows "strip_words ws s = strip_words ws (drop (length w) s)" "w \<in> set ws" "w \<noteq> []"
    "s = w @ drop (length w) s"
proof -
  show "strip_words ws s = strip_words ws (drop (length w) s)"
    using assms by (subst strip_words.simps) simp
  show "w \<in> set ws" "w \<noteq> []" "s = w @ drop (length w) s"
    using find_Some_in [OF assms] starts_with_drop by blast+
qed

lemma strip_words_chars: "strip_words ws s = [] \<Longrightarrow> set s \<subseteq> (\<Union>w \<in> set ws. set w)"
proof (induction s rule: length_induct)
  case (1 s)
  show ?case
  proof (cases "find (\<lambda>w. w \<noteq> [] \<and> starts_with s w) ws")
    case None
    then have "strip_words ws s = s" by (subst strip_words.simps) simp
    with 1 show ?thesis by simp
  next
    case (Some w)
    note w = strip_words_step [OF this]
    define r where "r = drop (length w) s"
    have "length r < length s" using w(3,4) unfolding r_def by (metis length_append less_add_same_cancel2 length_greater_0_conv)
    with 1 w(1) have "set r \<subseteq> (\<Union>w \<in> set ws. set w)" unfolding r_def [symmetric] by simp
    moreover have "set s = set w \<union> set r" using w(4) unfolding r_def [symmetric] by (metis set_append)
    ultimately show ?thesis using w(2) by blast
  qed
qed

lemma white_space_bytes: "CHR ''a'' \<notin> (\<Union>w \<in> set white_space. set w)"
  by (simp add: white_space_def)

lemma trim_a: "s = CHR ''a'' # t \<Longrightarrow> trim s \<noteq> []"
proof
  assume s: "s = CHR ''a'' # t" and "trim s = []"
  have "\<forall>w \<in> set white_space. w \<noteq> [] \<longrightarrow> \<not> starts_with s w"
    using white_space_bytes by (fastforce simp: s starts_with_iff Cons_eq_append_conv)
  from strip_words_stop [OF this] \<open>trim s = []\<close> have "strip_words (map rev white_space) (rev s) = []"
    by (simp add: trim_def)
  from strip_words_chars [OF this] white_space_bytes show False by (auto simp: s)
qed

lemma valid_role: "valid_aws a \<Longrightarrow> trim (role_arn a) \<noteq> []"
proof -
  assume "valid_aws a"
  then have "starts_with (role_arn a) arn_prefix" by (simp add: valid_aws_def re_role_arn_def Let_def)
  then obtain t where "role_arn a = CHR ''a'' # t" by (auto simp: starts_with_iff arn_prefix_def)
  then show ?thesis by (rule trim_a)
qed

section \<open>The names of objects\<close>

text \<open>Kubernetes names (RFC 1123): a custom resource is named by a DNS subdomain, a namespace by
  a DNS label.\<close>

definition is_lower_alnum :: "char \<Rightarrow> bool" where
  "is_lower_alnum c \<longleftrightarrow> is_digit c \<or> 0x61 \<le> (of_char c :: nat) \<and> (of_char c :: nat) \<le> 0x7A"

definition dns_part :: "string \<Rightarrow> bool" where
  "dns_part s \<longleftrightarrow> s \<noteq> [] \<and> is_lower_alnum (hd s) \<and> is_lower_alnum (last s) \<and>
     list_all (\<lambda>c. is_lower_alnum c \<or> c = CHR ''-'') s"

definition dns_label :: "string \<Rightarrow> bool" where
  "dns_label s \<longleftrightarrow> length s \<le> 63 \<and> dns_part s"

definition dns_subdomain :: "string \<Rightarrow> bool" where
  "dns_subdomain s \<longleftrightarrow> length s \<le> 253 \<and> list_all dns_part (split_on CHR ''.'' s)"

lemma dns_subdomain_not_Nil: "dns_subdomain s \<Longrightarrow> s \<noteq> []"
  by (auto simp: dns_subdomain_def dns_part_def)

text \<open>The name and the namespace of a request are those of its object, and allowed.\<close>

definition stored_as :: "string \<Rightarrow> string \<Rightarrow> ObjectMeta \<Rightarrow> bool" where
  "stored_as ns n m \<longleftrightarrow> meta_namespace m = Some ns \<and> meta_name m = Some n \<and> dns_label ns \<and> dns_subdomain n"

section \<open>What a reconciliation writes conforms\<close>

definition conforms :: "kube_call \<Rightarrow> bool" where
  "conforms c =
     (case c of
        ReplaceCrbStatus ns n crb \<Rightarrow> valid_crb crb \<and> stored_as ns n (crb_metadata crb)
      | ApplyRcrb ns n r \<Rightarrow> valid_rcrb r \<and> stored_as ns n (rcrb_metadata r)
      | ApplyRcrbStatus ns n r \<Rightarrow> valid_rcrb r \<and> stored_as ns n (rcrb_metadata r)
      | _ \<Rightarrow> True)"

definition writes_resolution :: "kube_call \<Rightarrow> bool" where
  "writes_resolution c = (case c of ApplyRcrb _ _ _ \<Rightarrow> True | ApplyRcrbStatus _ _ _ \<Rightarrow> True | _ \<Rightarrow> False)"

text \<open>A resolution is named after the ServiceAccount, so its writes conform just when this is a
  name; all other writes do.\<close>

definition conforms_if_named :: "Key \<Rightarrow> kube_call \<Rightarrow> bool" where
  "conforms_if_named key c \<longleftrightarrow>
     (conforms c \<longleftrightarrow> (writes_resolution c \<longrightarrow> dns_subdomain (key_service_account_name key)))"

text \<open>What the API server has checked of a binding it lists.\<close>

definition stored_binding :: "Key \<Rightarrow> CloudRoleBinding \<Rightarrow> bool" where
  "stored_binding key crb \<longleftrightarrow> valid_crb crb \<and> stored_as (key_namespace key) (crb_name crb) (crb_metadata crb)"

lemma merged_aws_valid:
  assumes "merge_inputs sa crbs = Inr merged" "list_all (valid_crb_spec \<circ> crb_spec) crbs"
  obtains aws where "rcrb_providers merged = \<lparr>prov_aws = Some aws, prov_azure = None, prov_gcp = None\<rparr>"
    "valid_aws aws"
proof -
  from assms(1) have m: "mergeable crbs" "merged = merged_spec sa crbs" by (simp_all add: merge_inputs_Inr)
  then have "awses crbs \<noteq> []" by (auto simp: mergeable_def)
  then have "hd (awses crbs) \<in> set (awses crbs)" by simp
  then obtain c where "c \<in> set crbs" "crb_aws c = Some (hd (awses crbs))"
    by (auto simp: awses_def map_filter_def)
  with assms(2) have "valid_aws (hd (awses crbs))"
    by (auto simp: list_all_iff valid_crb_spec_def valid_providers_def crb_aws_def)
  with m(2) that show ?thesis by (simp add: merged_spec_def Let_def)
qed

lemma merged_valid:
  assumes "merge_inputs sa crbs = Inr merged" "sa \<noteq> []" "list_all valid_crb crbs"
  shows "valid_rcrb_spec merged"
proof -
  have "service_account_name (rcrb_subject merged) = sa"
    using assms(1) by (auto simp: merge_inputs_Inr merged_spec_def Let_def)
  moreover have "valid_providers (rcrb_providers merged)"
    using assms(1) by (rule merged_aws_valid)
      (use assms(3) in \<open>auto simp: valid_providers_def valid_crb_def list_all_iff\<close>)
  ultimately show ?thesis using assms(2) by (simp add: valid_rcrb_spec_def valid_subject_def)
qed

lemma status_valid:
  "(\<And>i. issue = Some i \<Longrightarrow> issue_message i \<noteq> []) \<Longrightarrow> valid_crb_status (build_crb_status now crb ready issue)"
  using build_crb_status_wf [of issue now crb ready]
  by (simp add: status_wf_def valid_crb_status_def valid_condition_def [abs_def])

lemma restatus_conforms:
  assumes "stored_binding key crb" "\<And>i. issue = Some i \<Longrightarrow> issue_message i \<noteq> []"
  shows "conforms_if_named key (ReplaceCrbStatus (key_namespace key) (crb_name crb)
    (crb\<lparr>crb_status := Some (build_crb_status now crb ready issue)\<rparr>))"
  using assms(1) status_valid [OF assms(2)]
  by (simp add: conforms_if_named_def writes_resolution_def conforms_def valid_crb_def stored_binding_def)

lemma refs_valid: "list_all (stored_binding key) crbs \<Longrightarrow> list_all valid_ref (map crb_ref crbs)"
  by (auto simp: list_all_iff valid_ref_def crb_ref_def stored_binding_def stored_as_def dest: dns_subdomain_not_Nil)

lemma resolved_valid:
  assumes "build_resolved_from_spec to_vec sha now ns sa refs merged = Inr r" "valid_rcrb_spec merged"
    and "list_all valid_ref refs"
  shows "valid_rcrb r"
  using assms
  by (auto simp: build_resolved_from_spec_def res_bind_eq_Inr valid_rcrb_def valid_rcrb_status_def valid_condition_def)

lemma failed_valid:
  assumes "issue_message i \<noteq> []" "sa \<noteq> []" "list_all valid_ref refs"
  shows "valid_rcrb (build_failed_resolved now ns sa refs i)"
  using assms by (simp add: build_failed_resolved_def valid_rcrb_def valid_rcrb_spec_def valid_subject_def
      valid_providers_def default_ProvidersSpec_def valid_rcrb_status_def valid_condition_def)

lemma first_part_valid:
  assumes "(case merge_inputs (key_service_account_name key) crbs of
      Inr merged \<Rightarrow> eff_bind (mark_ready env ns crbs) (\<lambda>_. resolve_merged env key (map crb_ref crbs) merged)
    | Inl issue \<Rightarrow> eff_bind (mark_affected env ns issue crbs)
        (\<lambda>_. resolve_failed env key (map crb_ref crbs) issue)) log = (Inr r, log')"
    and "list_all (stored_binding key) crbs" "key_service_account_name key \<noteq> []"
  shows "valid_rcrb r"
proof (cases "merge_inputs (key_service_account_name key) crbs")
  case (Inl issue)
  with assms(1) obtain now where "r = build_failed_resolved now (key_namespace key)
      (key_service_account_name key) (map crb_ref crbs) issue"
    by (auto simp: eff_bind_eq_Inr resolve_failed_def)
  with failed_valid [OF _ assms(3) refs_valid [OF assms(2)]]
    explained_issue_shape(3) [OF merge_inputs_Inl [OF Inl]] show ?thesis by simp
next
  case (Inr merged)
  with assms(1) obtain now where "build_resolved_from_spec (env_to_vec env) (env_sha256_hex env) now
      (key_namespace key) (key_service_account_name key) (map crb_ref crbs) merged = Inr r"
    by (auto simp: eff_bind_eq_Inr resolve_merged_def)
  moreover have "list_all valid_crb crbs"
    using assms(2) by (auto simp: list_all_iff stored_binding_def)
  ultimately show ?thesis
    by (auto intro: resolved_valid merged_valid [OF Inr assms(3)] refs_valid [OF assms(2)])
qed

lemma upsert_conforms:
  assumes "valid_rcrb r" "reports env key crbs r" "dns_label (key_namespace key)"
  shows "extends (conforms_if_named key) (upsert_resolved (env_api env) (key_namespace key) r)"
  using assms
  by (intro extends_upsert_resolved) (auto simp: conforms_if_named_def writes_resolution_def conforms_def stored_as_def reports_def)

lemma extends_conforms:
  assumes "list_all (stored_binding key) crbs" "key_service_account_name key \<noteq> []" "dns_label (key_namespace key)"
  shows "extends (conforms_if_named key) (publish env key crbs)"
proof -
  have stored: "stored_binding key crb" if "crb \<in> set crbs" for crb using assms(1) that by (simp add: list_all_iff)
  have "extends (conforms_if_named key) (mark_ready env (key_namespace key) crbs)"
    by (rule extends_mark_ready; rule restatus_conforms; simp add: stored)
  moreover have "extends (conforms_if_named key) (mark_affected env (key_namespace key) issue crbs)"
    if "merge_inputs (key_service_account_name key) crbs = Inl issue" for issue
    using explained_issue_shape(3) [OF merge_inputs_Inl [OF that]]
    by (intro extends_mark_affected restatus_conforms) (auto simp: stored)
  ultimately have first: "extends (conforms_if_named key)
      (case merge_inputs (key_service_account_name key) crbs of
         Inr merged \<Rightarrow> eff_bind (mark_ready env (key_namespace key) crbs)
           (\<lambda>_. resolve_merged env key (map crb_ref crbs) merged)
       | Inl issue \<Rightarrow> eff_bind (mark_affected env (key_namespace key) issue crbs)
           (\<lambda>_. resolve_failed env key (map crb_ref crbs) issue))"
    by (auto split: sum.split intro!: extends_bind extends_resolve)
  show ?thesis
    unfolding publish_def Let_def
  proof (rule extends_bind [OF first])
    fix log r log'
    assume run: "(case merge_inputs (key_service_account_name key) crbs of
         Inr merged \<Rightarrow> eff_bind (mark_ready env (key_namespace key) crbs)
           (\<lambda>_. resolve_merged env key (map crb_ref crbs) merged)
       | Inl issue \<Rightarrow> eff_bind (mark_affected env (key_namespace key) issue crbs)
           (\<lambda>_. resolve_failed env key (map crb_ref crbs) issue)) log = (Inr r, log')"
    show "extends (conforms_if_named key) (upsert_resolved (env_api env) (key_namespace key) r)"
      by (rule upsert_conforms [OF first_part_valid [OF run assms(1,2)] publish_reports [OF run] assms(3)])
  qed
qed

lemma reconcile_conforms:
  assumes "list_all (stored_binding key) (listed env key log)"
    and "key_service_account_name key \<noteq> []" "dns_label (key_namespace key)"
  shows "\<exists>cs. snd (reconcile env key log) = log @ ListCrbs (key_namespace key) # cs \<and>
     list_all (conforms_if_named key) cs"
proof (cases "api_list_crbs (env_api env) log (key_namespace key)")
  case (Inl e)
  then show ?thesis by (simp add: reconcile_unfold)
next
  case (Inr all)
  obtain r log' where run:
    "publish env key (listed env key log) (log @ [ListCrbs (key_namespace key)]) = (r, log')"
    by fastforce
  with extends_conforms [OF assms] obtain cs where "log' = (log @ [ListCrbs (key_namespace key)]) @ cs"
    "list_all (conforms_if_named key) cs"
    unfolding extends_def by blast
  with Inr run show ?thesis by (simp add: reconcile_unfold)
qed

text \<open>
  C25: When the listed bindings satisfy the schema of the custom resource (lengths and
  patterns) and the naming rules of the API server, every status that a reconciliation
  writes to a binding does so too; the two writes of the resolution satisfy its schema and
  the naming rules, and address it by its own name and namespace, exactly when the
  ServiceAccount's name is a DNS subdomain, which the schema of the bindings does not ask
  for.
\<close>

theorem reconcile_writes_conform:
  assumes "list_all (stored_binding key) (listed env key log)"
    and "key_service_account_name key \<noteq> []" "dns_label (key_namespace key)"
  shows "\<exists>cs. snd (reconcile env key log) = log @ ListCrbs (key_namespace key) # cs \<and>
     list_all (\<lambda>c. conforms c \<longleftrightarrow> (writes_resolution c \<longrightarrow> dns_subdomain (key_service_account_name key))) cs"
  using reconcile_conforms [OF assms] unfolding conforms_if_named_def [abs_def] .

end
