(* ===== verification/End_To_End.thy ===== *)
theory End_To_End
  imports Token_Trust Lost_Updates Config_Hash Schema
begin

text \<open>
  The properties that span components: from the bindings through the control loop to
  the admission of Pods and the tokens they get, from the injected container to the agent's
  configuration and probe, and from the agent to the federation service and back.
\<close>

section \<open>From bindings to admission\<close>

text \<open>What a published resolution shows of the merge it reports.\<close>

lemma reports_published: "reports env key crbs r \<Longrightarrow> published env key crbs r"
  by (auto simp: published_def)

lemma published_merged:
  assumes "published env key crbs r" "merge_inputs (key_service_account_name key) crbs = Inr merged"
  shows "is_ready r" "rcrb_spec r = merged" "rcrb_aws r = prov_aws (rcrb_providers merged)"
    "\<exists>b. env_to_vec env merged = Inr b \<and> status_hash r = Some (env_sha256_hex env b)"
  using assms by (auto simp: published_def reports_def is_ready_def rcrb_aws_def status_hash_def)

lemma published_failed:
  assumes "published env key crbs r" "merge_inputs (key_service_account_name key) crbs = Inl issue"
  shows "\<not> is_ready r" "status_hash r = None" "rcrb_aws r = None"
  using assms by (auto simp: published_def reports_def is_ready_def rcrb_aws_def status_hash_def)

lemma merged_has_aws:
  "merge_inputs sa crbs = Inr merged \<Longrightarrow> \<exists>aws. prov_aws (rcrb_providers merged) = Some aws"
  by (auto simp: merge_inputs_def merge_finish_def res_bind_eq_Inr split: option.splits)

lemma inject_succeeds:
  assumes "lib_total lib" "status_hash r = Some hash" "rcrb_aws r = Some aws" "usable_role aws"
    and "pod_spec pod \<noteq> None"
  shows "is_ok (inject lib cfg req pod sa r)"
proof -
  obtain spec where spec: "pod_spec pod = Some spec" using assms(5) by blast
  let ?agent = "build_agent_container (agent_image cfg) (agent_image_pull_policy cfg)
    (agent_port cfg) (webhook_federation_url cfg) sa hash"
  obtain original where o: "lib_to_value lib pod = Inr original"
    using assms(1) is_okE unfolding lib_total_def by metis
  let ?pod' = "pod\<lparr>pod_spec := Some (mutated_spec ?agent aws spec)\<rparr>"
  obtain modified where m: "lib_to_value lib ?pod' = Inr modified"
    using assms(1) is_okE unfolding lib_total_def by metis
  have "mutate_pod ?agent aws pod = Inr ?pod'"
    using assms(4) by (simp add: mutate_pod_eq spec)
  then have "build_pod_patch (lib_to_value lib) (lib_diff lib) pod (agent_image cfg)
      (agent_image_pull_policy cfg) (agent_port cfg) (webhook_federation_url cfg) sa hash aws =
      Inr (lib_diff lib original modified)"
    by (simp add: build_pod_patch_def o m)
  moreover obtain resp where "lib_with_patch lib (lib_diff lib original modified)
      ((lib_response_from lib req)\<lparr>resp_allowed := True\<rparr>) = Inr resp"
    using assms(1) is_okE unfolding lib_total_def by metis
  ultimately show ?thesis by (simp add: inject_def assms(2,3))
qed

lemma handle_governed:
  assumes "governing lib api log review = Some (req, pod, r)"
  shows "fst (handle lib api cfg review log) =
     (if is_ready r then inject lib cfg req pod (pod_sa_name pod) r
      else (case admission_failure_mode cfg of
          FailMode \<Rightarrow> Inr (lib_deny lib
            (not_ready_message (unwrap_or (req_namespace req) ''default'') (pod_sa_name pod))
            ((lib_response_from lib req)\<lparr>resp_allowed := False\<rparr>))
        | IgnoreMode \<Rightarrow> Inr ((lib_response_from lib req)\<lparr>resp_allowed := True\<rparr>)))"
  using assms
  by (simp add: governing_Some handle_unfold handle_create_unfold Let_def fail_or_skip_eq
      split: AdmissionFailureMode.split)

text \<open>The response to a Pod whose governing resolution reports the merge of \<open>crbs\<close>.\<close>

definition admitted_by ::
  "WebhookConfig \<Rightarrow> (MergeIssue + ResolvedCloudRoleBindingSpec) \<Rightarrow> 'patch AdmissionResponse \<Rightarrow> bool" where
  "admitted_by cfg merged resp \<longleftrightarrow>
     (if is_ok merged then resp_allowed resp \<and> resp_patch resp \<noteq> None
      else resp_patch resp = None \<and> (resp_allowed resp \<longleftrightarrow> admission_failure_mode cfg = IgnoreMode))"

lemma admission_follows_merge:
  assumes "response_laws lib" "lib_total lib"
    and "governing lib api log review = Some (req, pod, r)" "pod_spec pod \<noteq> None"
    and "published env key crbs r" "list_all (valid_crb_spec \<circ> crb_spec) crbs"
  shows "\<exists>resp. fst (handle lib api cfg review log) = Inr resp \<and>
     admitted_by cfg (merge_inputs (key_service_account_name key) crbs) resp"
proof (cases "merge_inputs (key_service_account_name key) crbs")
  case (Inl issue)
  show ?thesis
    using assms(1) handle_governed [OF assms(3), of cfg] published_failed(1) [OF assms(5) Inl]
    by (cases "admission_failure_mode cfg") (simp_all add: Inl response_laws_def admitted_by_def)
next
  case (Inr merged)
  obtain aws where aws: "prov_aws (rcrb_providers merged) = Some aws" "valid_aws aws"
    using merged_aws_valid [OF Inr assms(6)] by (metis ProvidersSpec.select_convs(1))
  from published_merged [OF assms(5) Inr] obtain b where r: "is_ready r" "rcrb_aws r = Some aws"
    "status_hash r = Some (env_sha256_hex env b)" by (auto simp: aws)
  have "usable_role aws" using valid_role [OF aws(2)] by (simp add: usable_role_def)
  then have "is_ok (inject lib cfg req pod (pod_sa_name pod) r)"
    by (rule inject_succeeds [OF assms(2) r(3,2) _ assms(4)])
  then obtain resp where resp: "inject lib cfg req pod (pod_sa_name pod) r = Inr resp" by (rule is_okE)
  then have "fst (handle lib api cfg review log) = Inr resp"
    using handle_governed [OF assms(3), of cfg] r(1) by simp
  with inject_response [OF assms(1) resp] show ?thesis by (simp add: Inr admitted_by_def)
qed

lemma handle_free:
  assumes "governing lib api log review = None" "lib_try_into lib review = Inr req" "req_object req = Some pod"
    and "\<And>ns sa. is_ok (api_get_rcrb_opt api log ns sa)"
  shows "fst (handle lib api cfg review log) = Inr ((lib_response_from lib req)\<lparr>resp_allowed := True\<rparr>)"
  using assms(1-3) assms(4) [of "unwrap_or (req_namespace req) ''default''" "pod_sa_name pod"]
  by (auto simp: governing_def handle_unfold handle_create_unfold Let_def split: if_splits sum.splits option.splits)

text \<open>Readers of resolutions are answered from the server of the control loop.\<close>

definition pod_key :: "AdmissionRequest \<Rightarrow> Pod \<Rightarrow> Key" where
  "pod_key req pod =
     \<lparr>key_namespace = unwrap_or (req_namespace req) ''default'', key_service_account_name = pod_sa_name pod\<rparr>"

definition reads_server :: "kube_api \<Rightarrow> 's server \<Rightarrow> 's \<Rightarrow> bool" where
  "reads_server api sv st \<longleftrightarrow>
     (\<forall>log ns sa. let found = sv_rcrb sv st \<lparr>key_namespace = ns, key_service_account_name = sa\<rparr> in
        api_get_rcrb_opt api log ns sa = Inr found \<and> res_ok (api_get_rcrb api log ns sa) = found)"

text \<open>
  C10: End to end from bindings to Pods: once the control loop has come to rest without
  having lost an event, the admission of a new Pod is decided by the current bindings of its
  ServiceAccount, with a patch if they merge, and otherwise unpatched and admitted or denied
  as the failure mode says; without a resolution there are no bindings, and the Pod is
  admitted as it is.
\<close>

theorem admission_follows_bindings:
  assumes "server_laws sv" "\<And>spec. is_ok (env_to_vec env spec)" "lossless_reach sv env buffer n s" "idle s"
    and "reads_server api sv (ctl_store s)" "response_laws lib" "lib_total lib"
    and "lib_try_into lib review = Inr req" "req_operation req = OpCreate" "req_object req = Some pod"
    and "pod_spec pod \<noteq> None" "\<not> pod_has_container pod ''kif-agent''" "pod_sa_name pod \<noteq> []"
    and "list_all (valid_crb_spec \<circ> crb_spec) (bindings sv (ctl_store s) (pod_key req pod))"
  shows "\<exists>resp. fst (handle lib api cfg review log) = Inr resp \<and>
     (if sv_rcrb sv (ctl_store s) (pod_key req pod) = None
      then bindings sv (ctl_store s) (pod_key req pod) = [] \<and> resp_allowed resp \<and> resp_patch resp = None
      else admitted_by cfg (merge_inputs (pod_sa_name pod) (bindings sv (ctl_store s) (pod_key req pod))) resp)"
proof -
  let ?k = "pod_key req pod"
  have settled: "settled sv env (ctl_store s) ?k"
    using lossless_settled [OF assms(1-4)] assms(13) by (simp add: pod_key_def)
  have read: "api_get_rcrb_opt api log (unwrap_or (req_namespace req) ''default'') (pod_sa_name pod) =
      Inr (sv_rcrb sv (ctl_store s) ?k)"
    using assms(5) by (simp add: reads_server_def Let_def pod_key_def)
  show ?thesis
  proof (cases "sv_rcrb sv (ctl_store s) ?k")
    case None
    with read assms(8-10,12) have "governing lib api log review = None" by (simp add: governing_def)
    from handle_free [OF this assms(8,10)] assms(5,6) None settled show ?thesis
      by (simp add: reads_server_def Let_def response_laws_def settled_def)
  next
    case (Some r)
    with read assms(8-10,12) have "governing lib api log review = Some (req, pod, r)" by (simp add: governing_def)
    moreover have "published env ?k (bindings sv (ctl_store s) ?k) r"
      using settled Some by (simp add: settled_def)
    moreover have "key_service_account_name ?k = pod_sa_name pod" by (simp add: pod_key_def)
    ultimately show ?thesis
      using admission_follows_merge [OF assms(6,7) _ assms(11) _ assms(14)] Some by fastforce
  qed
qed

lemma merge_nothing: "merge_inputs sa [] = Inl (no_providers_issue [])"
  by (simp add: merge_inputs_def merge_finish_def merge_init_def)

lemma deleting_last_binding_denies_pods:
  assumes "reports env key [] r" "response_laws lib"
    and "governing lib api log review = Some (req, pod, r)" "admission_failure_mode cfg = FailMode"
  shows "\<exists>resp. fst (handle lib api cfg review log) = Inr resp \<and> \<not> resp_allowed resp"
  using assms(2,4) handle_governed [OF assms(3), of cfg] published_failed(1) [OF reports_published [OF assms(1)] merge_nothing]
  by (simp add: response_laws_def)

section \<open>From bindings to tokens\<close>

definition requested_key :: "MintRequest \<Rightarrow> Key" where
  "requested_key req =
     \<lparr>key_namespace = mint_namespace req, key_service_account_name = mint_service_account_name req\<rparr>"

lemma settled_entitles:
  assumes "settled sv env st (requested_key req)" "reads_server api sv st"
  shows "api_get_rcrb api log (mint_namespace req) (mint_service_account_name req) = Inr r \<and>
       rcrb_aws r = Some aws \<and> status_hash r = Some (mint_config_hash req) \<longleftrightarrow>
     (\<exists>spec b. sv_rcrb sv st (requested_key req) = Some r \<and>
       merge_inputs (mint_service_account_name req) (bindings sv st (requested_key req)) = Inr spec \<and>
       rcrb_spec r = spec \<and> prov_aws (rcrb_providers spec) = Some aws \<and>
       env_to_vec env spec = Inr b \<and> mint_config_hash req = env_sha256_hex env b)"
proof -
  let ?k = "requested_key req"
  have sa: "key_service_account_name ?k = mint_service_account_name req" by (simp add: requested_key_def)
  have "res_ok (api_get_rcrb api log (mint_namespace req) (mint_service_account_name req)) = sv_rcrb sv st ?k"
    using assms(2) by (simp add: reads_server_def Let_def requested_key_def)
  then have read: "api_get_rcrb api log (mint_namespace req) (mint_service_account_name req) = Inr r \<longleftrightarrow>
      sv_rcrb sv st ?k = Some r"
    using res_ok_eq_Some by metis
  show ?thesis
  proof (cases "sv_rcrb sv st ?k = Some r")
    case True
    then have pub: "published env ?k (bindings sv st ?k) r" using assms(1) by (simp add: settled_def)
    show ?thesis
    proof (cases "merge_inputs (key_service_account_name ?k) (bindings sv st ?k)")
      case (Inl i)
      with published_failed [OF pub Inl] show ?thesis by (simp add: sa)
    next
      case (Inr spec)
      with published_merged [OF pub Inr] read True show ?thesis by (auto simp: sa)
    qed
  qed (simp add: read)
qed

text \<open>
  C11: End to end from bindings to tokens: once the control loop has come to rest without
  having lost an event, a request is answered with a token exactly when its caller has
  proved to be the ServiceAccount it asks for, the current bindings of this ServiceAccount
  merge, and the request carries the hash of the merged configuration; lifetime and claims
  are those of the merged configuration.
\<close>

theorem mint_follows_bindings:
  assumes "server_laws sv" "\<And>spec. is_ok (env_to_vec env spec)" "lossless_reach sv env buffer n s" "idle s"
    and "reads_server api sv (ctl_store s)"
  shows "fst (mint lib api t1 t2 state auth req log) = MintJson resp \<longleftrightarrow>
     (\<exists>u spec aws b obj t. caller api log auth u (mint_namespace req) (mint_service_account_name req) \<and>
        merge_inputs (mint_service_account_name req) (bindings sv (ctl_store s) (requested_key req)) = Inr spec \<and>
        prov_aws (rcrb_providers spec) = Some aws \<and>
        env_to_vec env spec = Inr b \<and> mint_config_hash req = env_sha256_hex env b \<and>
        sv_rcrb sv (ctl_store s) (requested_key req) = Some obj \<and> rcrb_spec obj = spec \<and>
        sign_rs256 lib (fed_signing state) (token_claims t1 t2 state u req obj aws) = Inr t \<and>
        resp = \<lparr>minted_aws = Some \<lparr>token = t, expires_in_seconds = token_ttl aws\<rparr>\<rparr>)"
proof -
  have *: "settled sv env (ctl_store s) (requested_key req)"
    if "caller api log auth u (mint_namespace req) (mint_service_account_name req)" for u
    using lossless_settled [OF assms(1-4)] that by (simp add: caller_def username_iff requested_key_def)
  show ?thesis
    unfolding mint_Json_iff entitled_def
    using settled_entitles [OF * assms(5)] by blast
qed

section \<open>The startup probe\<close>

text \<open>
  C37: The startup probe that the webhook puts on the agent's container asks the agent's own
  server: it is sent to the port the agent is told, at a path the agent's router knows, and
  it is answered 200 exactly when a round of the loop has obtained and stored a token; the
  token file then holds the last such token, complete, so the application containers, which
  the kubelet starts after the probe, find it; until then the file has the contents it
  started with.
\<close>

theorem startup_probe_means_token:
  assumes "c_startup_probe (build_agent_container img policy port url sa hash) = Some probe"
    and "pr_http_get probe = Some get" "hg_path get = Some path"
    and "file_name (aws_token_path cfg) \<noteq> None"
    and "refresh_loop lib cfg rds (agent_init fs) = (st, e, ss)"
  shows "hg_port get = PortInt (uint port) \<and>
     (if tokens lib cfg rds = []
      then agent_serve st GET path = 503 \<and> ag_files st (aws_token_path cfg) = fs (aws_token_path cfg)
      else agent_serve st GET path = 200 \<and>
        ag_files st (aws_token_path cfg) = Some (amt_token (last (tokens lib cfg rds))))"
proof -
  have probe: "hg_port get = PortInt (uint port)" "path = ''/startupz''"
    using assms(1-3) by (auto simp: build_agent_container_def)
  from ready_means_token [OF assms(4,5)] show ?thesis
    unfolding probe startupz_route by simp
qed

section \<open>From the injected container to the agent's configuration\<close>

text \<open>What the kubelet does with the variables of a container: a literal without a
  \<open>$\<close> reaches the process as it is, and a reference to \<open>metadata.name\<close> is the name of
  the Pod.\<close>

definition kubelet_laws :: "(EnvVar list \<Rightarrow> environ) \<Rightarrow> string \<Rightarrow> bool" where
  "kubelet_laws kubelet pod_name \<longleftrightarrow>
     (\<forall>env n v. effective_env env n = Some v \<and> CHR ''$'' \<notin> set v \<longrightarrow> kubelet env n = Some v) \<and>
     (\<forall>env e. distinct (map env_name env) \<and> e \<in> set env \<and> env_value e = None \<and>
        env_value_from e = Some \<lparr>evs_field_ref = Some
          \<lparr>ofs_api_version = Some ''v1'', ofs_field_path = ''metadata.name''\<rparr>, evs_other = []\<rparr> \<longrightarrow>
        kubelet env (env_name e) = Some pod_name)"

lemma digits_no_dollar: "CHR ''$'' \<notin> set (show_nat n)"
proof (induction n rule: show_nat.induct)
  case (1 n)
  have "digit_char d \<noteq> CHR ''$''" if "d < 10" for d
  proof
    assume "digit_char d = CHR ''$''"
    with digit_val_char [OF that] show False by (simp add: digit_val_def)
  qed
  with 1 show ?case by (cases "n < 10") (auto simp: show_nat.simps [of n] mod_less_divisor dest: sym)
qed

text \<open>
  C31: The agent container the webhook builds is read back by the agent as it was meant:
  with the variables as the kubelet passes them, the agent's configuration has the injected
  port, federation URL, ServiceAccount, hash and Pod name, and it asks to mint for just
  these.
\<close>

theorem injected_agent_config:
  assumes "kubelet_laws kubelet pod_name" "pod_namespace read_file = Inr namespace"
    and "CHR ''$'' \<notin> set sa \<union> set hash \<union> set url"
    and "kubelet (env_of (build_agent_container img pull_policy port url sa hash)) ''SA_TOKEN_PATH'' = None"
  shows "\<exists>cfg. agent_from_env read_file
       (kubelet (env_of (build_agent_container img pull_policy port url sa hash))) = Inr cfg \<and>
     ag_port cfg = port \<and> ag_federation_url cfg = url \<and> sa_token_path cfg =
       ''/var/run/secrets/kubernetes.io/serviceaccount/token'' \<and>
     mint_request cfg = \<lparr>amr_namespace = namespace, amr_service_account_name = sa,
       amr_config_hash = hash, amr_pod_name = Some pod_name\<rparr>"
proof -
  let ?env = "env_of (build_agent_container img pull_policy port url sa hash)"
  have env: "?env = [env_literal ''SERVICE_ACCOUNT_NAME'' sa, env_literal ''CONFIG_HASH'' hash,
      env_literal ''FEDERATION_URL'' url, env_literal ''PORT'' (show_word port),
      \<lparr>env_name = ''POD_NAME'', env_value = None, env_value_from = Some \<lparr>evs_field_ref = Some
        \<lparr>ofs_api_version = Some ''v1'', ofs_field_path = ''metadata.name''\<rparr>, evs_other = []\<rparr>\<rparr>]"
    by (simp add: env_of_def build_agent_container_def default_Container_def)
  have literal: "kubelet ?env n = Some v" if "effective_env ?env n = Some v" "CHR ''$'' \<notin> set v" for n v
    using assms(1) that unfolding kubelet_laws_def by blast
  have "kubelet ?env ''SERVICE_ACCOUNT_NAME'' = Some sa" "kubelet ?env ''CONFIG_HASH'' = Some hash"
    "kubelet ?env ''FEDERATION_URL'' = Some url" "kubelet ?env ''PORT'' = Some (show_word port)"
    by (rule literal; use assms(3) in \<open>simp add: env effective_env_simps env_literal_def show_word_def digits_no_dollar\<close>)+
  moreover have "kubelet ?env (env_name (last ?env)) = Some pod_name"
    using assms(1) unfolding kubelet_laws_def
    by (elim conjE) (drule spec [of _ ?env], drule spec [of _ "last ?env"], simp add: env env_literal_def)
  then have "kubelet ?env ''POD_NAME'' = Some pod_name" by (simp add: env)
  ultimately show ?thesis
    using assms(4) by (simp add: agent_from_env_def assms(2) parse_u16_show mint_request_def)
qed

section \<open>From the agent to the federation service and back\<close>

text \<open>
  C5: With the agent's HTTP client connected to the federation service, the agent's mint
  call returns a response exactly when the service finds its request entitled, and the
  response carries the signed token and its lifetime unchanged: the composition of client,
  wire and handler loses and adds nothing.
\<close>

theorem agent_token_iff_entitled:
  assumes "federation_at lib api t1 t2 state log alib url post" "header_text bearer"
  shows "agent_mint alib post url bearer req = Inr resp \<longleftrightarrow>
     (\<exists>r aws t. entitled lib api t1 t2 state (Some (bearer_prefix @ bearer)) (to_wire req) log r aws t \<and>
        resp = \<lparr>amr_aws = Some \<lparr>amt_token = t, amt_expires_in_seconds = token_ttl aws\<rparr>\<rparr>)"
  unfolding federation_mint(2) [OF assms] mint_Json_iff using from_wire_Some by metis

text \<open>The agent proves to the service that it is the ServiceAccount it asks for.\<close>

definition own_identity :: "kube_api \<Rightarrow> call_log \<Rightarrow> AgentConfig \<Rightarrow> string \<Rightarrow> bool" where
  "own_identity api log cfg sa_token \<longleftrightarrow>
     (\<exists>u. authenticates api log sa_token u \<and>
        parse_service_account_username u = Some (ag_namespace cfg, ag_service_account_name cfg))"

lemma own_identity_caller:
  "own_identity api log cfg sa_token \<longleftrightarrow>
     (\<exists>u. caller api log (Some (bearer_prefix @ sa_token)) u
        (mint_namespace (to_wire (mint_request cfg))) (mint_service_account_name (to_wire (mint_request cfg))))"
  by (auto simp: own_identity_def caller_def to_wire_def mint_request_def)

lemma review_log_bearer: "review_log (Some (bearer_prefix @ b)) log = log @ [CreateTokenReview b]"
proof -
  have "bearer_token (Some (bearer_prefix @ b)) = Some b" by (simp only: bearer_token_Some)
  then show ?thesis by (simp add: review_log_def)
qed

text \<open>
  C28: When the resolved binding's configuration differs from the one whose hash was
  injected into the Pod, the next round of an agent that proves its own identity ends the
  refresh loop with a configuration hash mismatch and leaves the token file untouched; while
  it is the same, no round ends so.
\<close>

theorem config_change_stops_agent:
  assumes "federation_at lib api t1 t2 state log alib (ag_federation_url cfg) (rd_post rd)"
    and "rd_sa_token rd = Inr body" "trim body \<noteq> []" "header_text (trim body)"
    and "own_identity api log cfg (trim body)"
    and "api_get_rcrb api (log @ [CreateTokenReview (trim body)]) (ag_namespace cfg)
           (ag_service_account_name cfg) = Inr r"
    and "serde_env jt env" "reports env key crbs0 r0" "reports env key crbs r"
    and "merge_inputs (key_service_account_name key) crbs0 = Inr injected"
    and "merge_inputs (key_service_account_name key) crbs = Inr current"
    and "\<not> collides jt env injected current" "status_hash r0 = Some (ag_config_hash cfg)"
  shows "if current = injected then snd (refresh_round alib cfg rd st) \<noteq> Inl ''config hash mismatch''
     else refresh_loop alib cfg (rd # rds) st = (st, Some ''config hash mismatch'', [])"
proof -
  from assms(5) obtain u where u: "caller api log (Some (bearer_prefix @ trim body)) u
      (mint_namespace (to_wire (mint_request cfg))) (mint_service_account_name (to_wire (mint_request cfg)))"
    unfolding own_identity_caller ..
  have "rcrb_aws r \<noteq> None"
    using merged_has_aws [OF assms(11)] reports_hash(2) [OF assms(7,9,11)] by (auto simp: rcrb_aws_def)
  moreover obtain h where h: "status_hash r = Some h" using reports_hash(1) [OF assms(7,9,11)] by blast
  ultimately have "mint_status lib api t1 t2 state (Some (bearer_prefix @ trim body))
      (to_wire (mint_request cfg)) log = 409 \<longleftrightarrow> h \<noteq> ag_config_hash cfg"
    unfolding conflict_iff review_log_bearer using u assms(6) h
    by (auto simp: to_wire_def mint_request_def)
  also have "\<dots> \<longleftrightarrow> current \<noteq> injected"
    using hash_iff_spec [OF assms(7,8,9,10,11,12)] assms(13) h by auto
  finally have "told_stale alib cfg rd \<longleftrightarrow> current \<noteq> injected"
    using federation_mint(1) [OF assms(1,4), of "mint_request cfg"] assms(2,3)
    by (simp add: told_stale_def)
  then have "snd (refresh_round alib cfg rd st) = Inl ''config hash mismatch'' \<longleftrightarrow> current \<noteq> injected"
    unfolding round_stale_iff .
  with round_stale_keeps [of alib cfg rd st] show ?thesis by simp
qed

lemma mint_accepts_its_hash:
  assumes "rcrb_aws obj = Some aws" "status_hash obj = Some (mint_config_hash req)"
    and "sign_rs256 lib (fed_signing state) (token_claims t1 t2 state username req obj aws) = Inr tok"
  shows "mint_from_binding lib t1 t2 state username req obj =
     MintJson \<lparr>minted_aws = Some \<lparr>token = tok, expires_in_seconds = token_ttl aws\<rparr>\<rparr>"
  using assms by (simp add: mint_from_binding_def)

text \<open>
  C14: A resolution is published by two requests, and a mint in between breaks the promise
  of the configuration hash: when the bindings of a ServiceAccount change, the control loop
  reaches a state, without any failure, in which a request that carries the hash of the old
  configuration is answered with a token for the claims and the lifetime of the new one.
\<close>

theorem outdated_hash_mints_new_settings:
  assumes "server_laws sv" "\<And>spec. is_ok (env_to_vec env spec)" "ctl_reach sv env buffer n s" "idle s"
    and "0 < n" "0 < buffer" "key_service_account_name k \<noteq> []"
    and "event_key ev = Some k" "sv_rcrb sv st1 = sv_rcrb sv (ctl_store s)"
    and "serves sv (butlast (plan env k (sv_list sv st1 (key_namespace k)))) st1 = Some st2"
    and "sv_rcrb sv (ctl_store s) k = Some old" "status_hash old = Some (mint_config_hash req)"
    and "merge_inputs (key_service_account_name k) (bindings sv st1 k) = Inr spec"
    and "prov_aws (rcrb_providers spec) = Some aws" "\<And>c. is_ok (sign_rs256 lib (fed_signing state) c)"
  shows "\<exists>as t obj tok. ctl_exec sv env n s as t \<and> no_failure as \<and>
     sv_rcrb sv (ctl_store t) k = Some obj \<and> rcrb_spec obj = spec \<and>
     mint_from_binding lib t1 t2 state username req obj =
       MintJson \<lparr>minted_aws = Some \<lparr>token = tok, expires_in_seconds = token_ttl aws\<rparr>\<rparr> \<and>
     sign_rs256 lib (fed_signing state) (token_claims t1 t2 state username req obj aws) = Inr tok"
proof -
  obtain as t obj where run: "ctl_exec sv env n s as t" "no_failure as"
    "sv_rcrb sv (ctl_store t) k = Some obj" "rcrb_spec obj = spec" "rcrb_status obj = rcrb_status old"
    using resolution_torn_between_writes [OF assms(1-11,13)] by blast
  have obj: "rcrb_aws obj = Some aws" "status_hash obj = Some (mint_config_hash req)"
    using run(4,5) assms(12,14) by (simp_all add: rcrb_aws_def status_hash_def)
  obtain tok where tok: "sign_rs256 lib (fed_signing state) (token_claims t1 t2 state username req obj aws) = Inr tok"
    using assms(15) by (rule is_okE)
  from run tok mint_accepts_its_hash [OF obj tok] show ?thesis by blast
qed

lemma failed_merge_mints_nothing:
  assumes "reports env key crbs r" "\<not> is_ok (merge_inputs (key_service_account_name key) crbs)"
    and "api_get_rcrb api (review_log auth log) (mint_namespace req) (mint_service_account_name req) = Inr r"
  shows "mint_status lib api t1 t2 state auth req log \<in> {400, 401, 403}"
proof -
  obtain issue where "merge_inputs (key_service_account_name key) crbs = Inl issue"
    using assms(2) by (cases "merge_inputs (key_service_account_name key) crbs") simp_all
  from published_failed(3) [OF reports_published [OF assms(1)] this] have "rcrb_aws r = None" .
  then have "reply_status (mint_from_binding lib t1 t2 state u req r) = 400" for u
    by (simp add: mint_from_binding_def)
  then show ?thesis
    by (cases rule: mint_cases [of lib api t1 t2 state auth req log])
      (simp_all add: mint_status_def assms(3))
qed

end
