(* ===== verification/Samples.thy ===== *)
theory Samples
  imports Schema
begin

text \<open>
  Concrete objects, modelled on those of the unit tests in \<open>kif-webhook/src/merge.rs\<close>,
  that the witnesses of the properties share.
\<close>

section \<open>Sample objects\<close>

definition sample_aws :: AwsProviderSpec where
  "sample_aws =
     \<lparr>role_arn = ''arn:aws:iam::123456789012:role/app'', aws_region = Some ''us-east-1'',
      sts_regional_endpoints = True, aws_audience = None, max_session_duration_seconds = None\<rparr>"

definition sample_azure :: AzureProviderSpec where
  "sample_azure = \<lparr>tenant_id = ''t'', client_id = ''c'', azure_audience = None\<rparr>"

definition make_crb ::
  "string \<Rightarrow> AwsProviderSpec option \<Rightarrow> AzureProviderSpec option \<Rightarrow> CloudRoleBinding" where
  "make_crb name aws azure =
     \<lparr>crb_metadata = default_ObjectMeta\<lparr>meta_name := Some name, meta_namespace := Some ''default''\<rparr>,
      crb_spec = \<lparr>crb_subject = \<lparr>service_account_name = ''app''\<rparr>, crb_attributes = None,
        crb_providers = \<lparr>prov_aws = aws, prov_azure = azure, prov_gcp = None\<rparr>\<rparr>,
      crb_status = None\<rparr>"

definition sample_key :: Key where
  "sample_key = \<lparr>key_namespace = ''default'', key_service_account_name = ''app''\<rparr>"

definition aws_crb :: CloudRoleBinding where
  "aws_crb = make_crb ''one'' (Some sample_aws) None"

definition azure_crb :: CloudRoleBinding where
  "azure_crb = make_crb ''two'' None (Some sample_azure)"

text \<open>A server that accepts every write and answers every read with fixed objects; a token
  is the user name it stands for.\<close>

definition sample_api ::
  "CloudRoleBinding list \<Rightarrow> ResolvedCloudRoleBinding option \<Rightarrow> Secret option \<Rightarrow> kube_api" where
  "sample_api crbs rcrb secret =
     \<lparr>api_list_crbs = (\<lambda>_ _. Inr crbs), api_replace_crb_status = (\<lambda>_ _ _ _. Inr ()),
      api_get_rcrb_opt = (\<lambda>_ _ _. Inr rcrb), api_get_rcrb = (\<lambda>_ _ _. ok_or rcrb ''NotFound''),
      api_apply_rcrb = (\<lambda>_ _ _ _. Inr ()), api_apply_rcrb_status = (\<lambda>_ _ _ _. Inr ()),
      api_create_event = (\<lambda>_ _ _. Inr ()),
      api_token_review = (\<lambda>_ t. Inr (Some
        \<lparr>tr_authenticated = Some True, tr_user = Some \<lparr>user_username = Some t\<rparr>\<rparr>)),
      api_get_secret_opt = (\<lambda>_ _ _. Inr secret), api_apply_secret = (\<lambda>_ _ _ _. Inr ())\<rparr>"

definition sample_env :: "CloudRoleBinding list \<Rightarrow> reconcile_env" where
  "sample_env crbs =
     \<lparr>env_api = sample_api crbs None None, env_clock = (\<lambda>log. int (length log)),
      env_to_vec = (\<lambda>_. Inr ''{}''), env_sha256_hex = (\<lambda>_. ''abc'')\<rparr>"

lemma valid_sample: "stored_binding sample_key aws_crb" "dns_label (key_namespace sample_key)"
proof -
  have "re_role_arn ''arn:aws:iam::123456789012:role/app''" by code_simp
  then have "valid_crb aws_crb"
    by (simp add: valid_crb_def aws_crb_def make_crb_def valid_crb_spec_def valid_subject_def
        valid_providers_def valid_aws_def sample_aws_def min1_def)
  moreover have "dns_label ''default''" "dns_subdomain ''one''" by code_simp+
  ultimately show "stored_binding sample_key aws_crb" "dns_label (key_namespace sample_key)"
    by (simp_all add: stored_binding_def stored_as_def aws_crb_def make_crb_def sample_key_def crb_name_def)
qed

definition merged_app :: ResolvedCloudRoleBindingSpec where
  "merged_app =
     \<lparr>rcrb_subject = \<lparr>service_account_name = ''app''\<rparr>,
      rcrb_attributes = Some \<lparr>include_provenance = Some True, extra_attrs = None\<rparr>,
      rcrb_providers = \<lparr>prov_aws = Some sample_aws, prov_azure = None, prov_gcp = None\<rparr>\<rparr>"

lemma merge_sample:
  "merge_inputs ''app'' [aws_crb, azure_crb] = Inr merged_app" "merge_inputs ''app'' [aws_crb] = Inr merged_app"
  by (simp_all add: merge_inputs_def merge_step_def merge_init_def provider_present_def aws_crb_def
      azure_crb_def make_crb_def merge_aws_def merge_finish_def merged_app_def)

end
