(* ===== verification/Crdgen.thy ===== *)
theory Crdgen
  imports Rust_Strings
begin

text \<open>
  \<open>kif-crdgen/src/main.rs\<close>: the generator of the CRD templates of the Helm chart. Building
  a CRD and printing it as YAML are crates (\<open>kube\<close>, \<open>serde_yaml\<close>): \<open>crd_yaml\<close> is the
  text for a kind, \<open>annotated\<close> says whether a YAML text has \<open>metadata.annotations\<close>
  (\<open>None\<close> when it is no YAML). A panic is \<open>None\<close>.
\<close>

section \<open>Lines\<close>

definition newline :: char where
  "newline = CHR 0x0A"

definition chomp_cr :: "string \<Rightarrow> string" where
  "chomp_cr l = (if l \<noteq> [] \<and> last l = CHR 0x0D then butlast l else l)"

text \<open>\<open>str::lines\<close>: the pieces a newline ends, and the rest when it is not empty; a
  carriage return before a newline belongs to the line ending.\<close>

definition lines :: "string \<Rightarrow> string list" where
  "lines s =
     (let ps = split_on newline s
      in map chomp_cr (butlast ps) @ (if last ps = [] then [] else [last ps]))"

definition unlines :: "string list \<Rightarrow> string" where
  "unlines ls = concat (map (\<lambda>l. l @ [newline]) ls)"

section \<open>The wrapper\<close>

definition keep_block :: "string list" where
  "keep_block =
     [''  {{- if .Values.crds.keep }}'', ''  annotations:'',
      ''    '' @ [CHR 0x22] @ ''helm.sh/resource-policy'' @ [CHR 0x22] @ '': keep'',
      ''  {{- end }}'']"

fun wrap_lines :: "bool \<Rightarrow> string list \<Rightarrow> string" where
  "wrap_lines in_metadata [] = []"
| "wrap_lines in_metadata (l # ls) =
     (let in_metadata = (if l = ''metadata:'' then True else in_metadata) in
      if in_metadata \<and> l = ''spec:''
      then unlines keep_block @ l @ [newline] @ wrap_lines False ls
      else l @ [newline] @ wrap_lines in_metadata ls)"

definition add_helm_wrapper :: "(string \<Rightarrow> bool option) \<Rightarrow> string \<Rightarrow> string option" where
  "add_helm_wrapper annotated yaml =
     (if annotated yaml = Some False
      then Some (unlines [''{{- if .Values.crds.install }}''] @ wrap_lines False (lines yaml) @
                 unlines [''{{- end }}''])
      else None)"

text \<open>\<open>main\<close>: the error, or the text it prints.\<close>

datatype crd_kind = Crb | Rcrb

definition crdgen_main ::
  "(crd_kind \<Rightarrow> string res) \<Rightarrow> (string \<Rightarrow> bool option) \<Rightarrow> string list \<Rightarrow> string option res" where
  "crdgen_main crd_yaml annotated args =
     (if length args < 2 then Inl ''No CRD specified. Usage: crdgen <crb|rcrb>''
      else
        let crd_type = args ! 1; t = to_lowercase crd_type in
        res_bind
          (if t = ''crb'' then
             with_context ''Failed to serialize CloudRoleBinding CRD to YAML'' (crd_yaml Crb)
           else if t = ''rcrb'' then
             with_context ''Failed to serialize ResolvedCloudRoleBinding CRD to YAML'' (crd_yaml Rcrb)
           else Inl (''Invalid CRD type: '' @ crd_type @ ''. Use '' @ [CHR 0x27] @ ''crb'' @ [CHR 0x27] @
                  '' or '' @ [CHR 0x27] @ ''rcrb'' @ [CHR 0x27] @ ''.''))
          (\<lambda>yaml. Inr (add_helm_wrapper annotated yaml)))"

section \<open>What the wrapper adds\<close>

lemma unlines_simps [simp]:
  "unlines [] = []" "unlines (l # ls) = l @ newline # unlines ls" "unlines (ls @ ms) = unlines ls @ unlines ms"
  by (simp_all add: unlines_def)

lemma wrap_outside: "''metadata:'' \<notin> set ls \<Longrightarrow> wrap_lines False ls = unlines ls"
  by (induction ls) auto

lemma wrap_before: "''metadata:'' \<notin> set pre \<Longrightarrow> wrap_lines False (pre @ ls) = unlines pre @ wrap_lines False ls"
  by (induction pre) auto

lemma wrap_inside: "''spec:'' \<notin> set mid \<Longrightarrow> wrap_lines True (mid @ ls) = unlines mid @ wrap_lines True ls"
  by (induction mid) auto

lemma helm_wrapper_output:
  assumes "annotated yaml = Some False"
    and "lines yaml = pre @ ''metadata:'' # mid @ ''spec:'' # post"
    and "''metadata:'' \<notin> set pre" "''spec:'' \<notin> set mid" "''metadata:'' \<notin> set post"
  shows "add_helm_wrapper annotated yaml = Some (unlines
     (''{{- if .Values.crds.install }}'' # pre @ ''metadata:'' # mid @ keep_block @ ''spec:'' # post @
      [''{{- end }}'']))"
proof -
  have "wrap_lines False (''metadata:'' # mid @ ''spec:'' # post) =
      ''metadata:'' @ newline # wrap_lines True (mid @ ''spec:'' # post)" by simp
  also have "wrap_lines True (mid @ ''spec:'' # post) = unlines mid @ wrap_lines True (''spec:'' # post)"
    by (rule wrap_inside [OF assms(4)])
  also have "wrap_lines True (''spec:'' # post) = unlines keep_block @ ''spec:'' @ newline # unlines post"
    by (simp add: wrap_outside [OF assms(5)])
  finally have "wrap_lines False (lines yaml) =
      unlines (pre @ ''metadata:'' # mid @ keep_block @ ''spec:'' # post)"
    using wrap_before [OF assms(3)] by (simp only: assms(2)) simp
  then show ?thesis by (simp add: add_helm_wrapper_def assms(1))
qed

end
