(* ===== verification/Witnesses.thy ===== *)
theory Witnesses
  imports Samples Queue Config_Hash Admission Federation Agent Issuer Crdgen
begin

text \<open>
  For the properties with hypotheses, an application of each at the concrete objects of theory
  Samples; those of the control loop are in theory Control_Witnesses.
\<close>

section \<open>Merging\<close>

lemma merge_inputs_perm_witness: "merge_inputs ''app'' [azure_crb, aws_crb] = Inr merged_app"
  by (rule merge_inputs_perm [THEN iffD1, OF _ merge_sample(1)]) simp

lemma merge_conflict:
  "merge_inputs ''app'' [aws_crb, make_crb ''three'' (Some sample_aws) None] =
     Inl \<lparr>issue_condition_type = Conflict, issue_reason = ProviderConflict,
          issue_message = ''conflict: multiple CloudRoleBindings set providers.aws'',
          affected_crb_names = [''one'', ''three'']\<rparr>"
  by (simp add: merge_inputs_def merge_step_def merge_init_def provider_present_def aws_crb_def
      make_crb_def merge_aws_def aws_conflict_issue_def crb_name_def)


section \<open>JSON\<close>

text \<open>A spec as a user writes it: an unknown entry, and the defaults left out.\<close>

definition written_spec :: json where
  "written_spec = JObj
     [(''note'', JNull), (''subject'', JObj [(''serviceAccountName'', JStr ''app'')]),
      (''providers'', JObj [(''aws'', JObj [(''roleArn'', JStr ''arn'')])])]"

definition read_spec :: CloudRoleBindingSpec where
  "read_spec = \<lparr>crb_subject = \<lparr>service_account_name = ''app''\<rparr>, crb_attributes = None,
     crb_providers = \<lparr>prov_aws = Some \<lparr>role_arn = ''arn'', aws_region = None, sts_regional_endpoints = True,
       aws_audience = None, max_session_duration_seconds = None\<rparr>, prov_azure = None, prov_gcp = None\<rparr>\<rparr>"

lemma read_sample: "crb_spec_of_json written_spec = Some read_spec"
  by (simp add: written_spec_def read_spec_def crb_spec_of_json_def subject_of_json_def providers_of_json_def
      aws_of_json_def field_defs)

lemma crb_spec_reads_back_witness: "crb_spec_of_json (crb_spec_json read_spec) = Some read_spec"
  by (rule crb_spec_reads_back [OF read_sample])

section \<open>Reconciling\<close>

lemma accepting_sample: "accepting (env_api (sample_env crbs))"
  by (simp add: accepting_def sample_env_def sample_api_def)

lemma reconcile_sample: "fst (reconcile (sample_env [aws_crb]) sample_key []) = Inr ()"
  by (simp add: reconcile_unfold sample_env_def sample_api_def sample_key_def listed_def aws_crb_def
      make_crb_def crb_sa_def publish_def Let_def eff_bind_def merge_inputs_def merge_step_def
      merge_init_def provider_present_def merge_aws_def merge_finish_def crb_name_def replace_status_def
      resolve_merged_def build_resolved_from_spec_def upsert_resolved_def rcrb_meta_def)

lemma reconcile_publishes_witness:
  "\<exists>before r. reports (sample_env [aws_crb]) sample_key (listed (sample_env [aws_crb]) sample_key []) r \<and>
     snd (reconcile (sample_env [aws_crb]) sample_key []) = before @
       [ApplyRcrb (key_namespace sample_key) (key_service_account_name sample_key) r,
        ApplyRcrbStatus (key_namespace sample_key) (key_service_account_name sample_key) r]"
  by (rule reconcile_publishes) (rule reconcile_sample)

lemma reconcile_writes_conform_witness:
  "\<exists>cs. snd (reconcile (sample_env [aws_crb]) sample_key []) = [] @ ListCrbs (key_namespace sample_key) # cs \<and>
     list_all (\<lambda>c. conforms c \<longleftrightarrow> (writes_resolution c \<longrightarrow> dns_subdomain (key_service_account_name sample_key))) cs"
proof (rule reconcile_writes_conform)
  have "listed (sample_env [aws_crb]) sample_key [] = [aws_crb]"
    by (simp add: listed_def sample_env_def sample_api_def sample_key_def aws_crb_def make_crb_def crb_sa_def)
  then show "list_all (stored_binding sample_key) (listed (sample_env [aws_crb]) sample_key [])"
    using valid_sample(1) by simp
qed (simp_all add: valid_sample(2), simp add: sample_key_def)

text \<open>\<open>My_SA\<close> is no name, so its resolution is refused.\<close>

lemma underscore_is_no_name: "\<not> dns_subdomain ''My_SA''" "dns_subdomain ''my-sa.v2''"
  by code_simp+

definition down_env :: reconcile_env where
  "down_env = sample_env []\<lparr>env_api := (sample_api [] None None)\<lparr>api_list_crbs := (\<lambda>_ _. Inl ''down'')\<rparr>\<rparr>"

section \<open>The queue\<close>

lemma queue_exclusive_witness:
  "distinct (channel (queue_of (qsys_init 2048 :: nat qsys)) @ senders (qsys_init 2048 :: nat qsys) @
       workers (qsys_init 2048 :: nat qsys)) \<and>
     length (channel (queue_of (qsys_init 2048 :: nat qsys))) \<le> 2048 \<and>
     length (workers (qsys_init 2048 :: nat qsys)) \<le> 4"
  by (rule queue_exclusive) (rule qreach.start)

definition claimed :: "nat qsys" where
  "claimed = \<lparr>queue_of = queue_new 2048\<lparr>in_flight := {7}\<rparr>, senders = [7], workers = []\<rparr>"

lemma claimed_reachable: "qreach 2048 4 claimed"
proof -
  have "enqueue_claim 7 (queue_of (qsys_init 2048)) = Some (queue_new 2048\<lparr>in_flight := {7 :: nat}\<rparr>)"
    by (simp add: enqueue_claim_def qsys_init_def queue_new_def)
  from qreach.step [OF qreach.start qstep.claim [OF this]] show ?thesis
    by (simp add: claimed_def qsys_init_def)
qed

section \<open>Pods and admission\<close>

definition sample_container :: Container where
  "sample_container = default_Container ''app''"

definition sample_spec :: PodSpec where
  "sample_spec =
     \<lparr>ps_service_account_name = Some ''app'', ps_automount_service_account_token = None,
      ps_volumes = None, ps_init_containers = None, ps_containers = [sample_container], ps_other = []\<rparr>"

definition sample_pod :: Pod where
  "sample_pod = \<lparr>pod_metadata = default_ObjectMeta, pod_spec = Some sample_spec, pod_other = []\<rparr>"

definition sample_agent :: Container where
  "sample_agent = build_agent_container ''kif-agent:1'' ''Always'' 5004 ''http://kif-federation:5001'' ''app'' ''abc''"

definition injected_pod :: Pod where
  "injected_pod = sample_pod\<lparr>pod_spec := Some (mutated_spec sample_agent sample_aws sample_spec)\<rparr>"

lemma usable_sample: "usable_role sample_aws"
proof -
  have "trim ''arn:aws:iam::123456789012:role/app'' \<noteq> []" by code_simp
  then show ?thesis by (simp add: usable_role_def sample_aws_def)
qed

lemma mutate_sample:
  "mutate_pod (build_agent_container ''kif-agent:1'' ''Always'' 5004 ''http://kif-federation:5001'' ''app'' ''abc'')
     sample_aws sample_pod = Inr injected_pod"
  using usable_sample by (simp add: mutate_pod_eq sample_pod_def injected_pod_def sample_agent_def)

lemma sample_pod_spec: "pod_spec sample_pod = Some sample_spec"
  by (simp add: sample_pod_def)

lemma mutated_pod_receives_credentials_witness:
  "\<exists>spec' inits. injected_pod = sample_pod\<lparr>pod_spec := Some spec'\<rparr> \<and>
     list_all2 (receives sample_aws) (app_containers sample_spec) (app_containers spec') \<and>
     ps_init_containers spec' = Some (build_agent_container ''kif-agent:1'' ''Always'' 5004
       ''http://kif-federation:5001'' ''app'' ''abc'' # inits) \<and>
     ps_automount_service_account_token spec' = Some False \<and>
     ps_service_account_name spec' = ps_service_account_name sample_spec \<and> ps_other spec' = ps_other sample_spec"
  by (rule mutated_pod_receives_credentials [OF mutate_sample sample_pod_spec])

lemma sample_spec_wf: "spec_wf sample_spec"
  by (simp add: sample_spec_def spec_wf_def volumes_def init_containers_def
      mounts_declared_def mounts_of_def sample_container_def default_Container_def)

lemma sample_pod_fresh: "\<not> pod_has_container sample_pod ''kif-agent''"
  by (simp add: pod_has_container_def sample_pod_def sample_spec_def sample_container_def default_Container_def)

lemma mutated_pod_well_formed_witness:
  "\<exists>spec'. pod_spec injected_pod = Some spec' \<and> spec_wf spec' \<and> pod_has_container injected_pod ''kif-agent''"
  by (rule mutated_pod_well_formed [OF mutate_sample sample_pod_spec sample_spec_wf sample_pod_fresh])

text \<open>A library whose reviews are requests, whose JSON is the Pod itself and whose patches
  are the values they lead to.\<close>

definition sample_lib :: "(AdmissionRequest, Pod, Pod) webhook_lib" where
  "sample_lib =
     \<lparr>lib_try_into = Inr,
      lib_response_from = (\<lambda>req. \<lparr>resp_uid = req_uid req, resp_allowed = True, resp_message = [], resp_patch = None\<rparr>),
      lib_deny = (\<lambda>m r. r\<lparr>resp_allowed := False, resp_message := m\<rparr>),
      lib_with_patch = (\<lambda>p r. Inr (r\<lparr>resp_patch := Some p\<rparr>)),
      lib_to_value = Inr, lib_diff = (\<lambda>a b. b)\<rparr>"

lemma sample_lib_laws: "response_laws sample_lib" "lib_total sample_lib"
    "apply_inverts_diff (\<lambda>p a. Some p) (lib_diff sample_lib)"
  by (simp_all add: response_laws_def lib_total_def apply_inverts_diff_def sample_lib_def)

definition sample_cfg :: "AdmissionFailureMode \<Rightarrow> WebhookConfig" where
  "sample_cfg mode =
     \<lparr>https_port = 9443, health_port = 5003, tls_cert_path = [], tls_key_path = [],
      admission_failure_mode = mode, agent_image = ''kif-agent:1'', agent_image_pull_policy = ''Always'',
      agent_port = 5004, webhook_federation_url = ''http://kif-federation:5001'', reconcile_workers = 4\<rparr>"

definition create_request :: "Pod \<Rightarrow> AdmissionRequest" where
  "create_request pod =
     \<lparr>req_uid = ''uid'', req_operation = OpCreate, req_namespace = Some ''default'', req_object = Some pod\<rparr>"

definition ready_rcrb :: ResolvedCloudRoleBinding where
  "ready_rcrb =
     \<lparr>rcrb_metadata = rcrb_meta ''default'' ''app'', rcrb_spec = merged_app, rcrb_status = Some
        \<lparr>rcrb_status_providers = ''aws'', rcrb_conditions = [\<lparr>cond_type = Ready, cond_status = StatusTrue,
           observed_generation = 0, cond_reason = Validated, cond_message = ''resolved and validated'',
           last_transition_time = 0\<rparr>], sources = [], config_hash = Some ''abc'', rcrb_last_error = None\<rparr>\<rparr>"

definition failed_rcrb :: ResolvedCloudRoleBinding where
  "failed_rcrb = build_failed_resolved 0 ''default'' ''app'' [] (no_providers_issue [])"

lemma handle_failed:
  "fst (handle sample_lib (sample_api [] (Some failed_rcrb) None) (sample_cfg FailMode)
     (create_request sample_pod) []) =
   Inr \<lparr>resp_uid = ''uid'', resp_allowed = False,
        resp_message = ''ResolvedCloudRoleBinding not Ready for default/app'', resp_patch = None\<rparr>"
  using sample_pod_fresh
  by (simp add: handle_unfold handle_create_unfold Let_def fail_or_skip_eq sample_lib_def sample_api_def
      sample_cfg_def create_request_def failed_rcrb_def pod_sa_name_def sample_pod_def sample_spec_def
      not_ready_message_def)

lemma admission_decision_witness:
  "(admission_failure_mode (sample_cfg FailMode) = FailMode \<and>
     (\<exists>req pod r. governing sample_lib (sample_api [] (Some failed_rcrb) None) []
        (create_request sample_pod) = Some (req, pod, r) \<and> \<not> is_ready r))"
  using admission_decision [OF sample_lib_laws(1) handle_failed] by simp

lemma review_sample:
  "lib_try_into sample_lib (create_request pod) = Inr (create_request pod)"
  "req_object (create_request pod) = Some pod"
  by (simp_all add: sample_lib_def create_request_def)

lemma readmission_idempotent_witness:
  "\<exists>resp. handle sample_lib (sample_api [] None None) (sample_cfg FailMode) (create_request injected_pod) [] =
     (Inr resp, []) \<and> resp_allowed resp \<and> resp_patch resp = None"
  by (rule readmission_idempotent [OF sample_lib_laws(1) review_sample(1) review_sample(2) mutate_sample])

lemma governing_sample:
  "governing sample_lib (sample_api crbs (Some r) secret) log (create_request sample_pod) =
     Some (create_request sample_pod, sample_pod, r)"
  using sample_pod_fresh
  by (simp add: governing_def sample_lib_def create_request_def sample_api_def)

lemma ready_rcrb_simps: "is_ready ready_rcrb" "status_hash ready_rcrb = Some ''abc''"
    "rcrb_aws ready_rcrb = Some sample_aws"
  by (simp_all add: ready_rcrb_def is_ready_def status_hash_def rcrb_aws_def merged_app_def)

lemma handle_ready:
  "fst (handle sample_lib (sample_api [] (Some ready_rcrb) None) (sample_cfg FailMode)
     (create_request sample_pod) []) =
   Inr \<lparr>resp_uid = ''uid'', resp_allowed = True, resp_message = [], resp_patch = Some injected_pod\<rparr>"
proof -
  have "pod_sa_name sample_pod = ''app''"
    by (simp add: pod_sa_name_def sample_pod_def sample_spec_def)
  then show ?thesis
    using sample_pod_fresh mutate_sample
    by (simp add: handle_unfold handle_create_unfold Let_def sample_lib_def sample_api_def
        create_request_def ready_rcrb_simps inject_def build_pod_patch_def sample_cfg_def)
qed

lemma patch_carries_governing_binding_witness:
  "\<exists>req pod r hash aws pod' original modified.
     governing sample_lib (sample_api [] (Some ready_rcrb) None) [] (create_request sample_pod) =
       Some (req, pod, r) \<and>
     resp_uid \<lparr>resp_uid = ''uid'', resp_allowed = True, resp_message = [], resp_patch = Some injected_pod\<rparr> =
       req_uid req \<and>
     status_hash r = Some hash \<and> rcrb_aws r = Some aws \<and>
     mutate_pod (build_agent_container (agent_image (sample_cfg FailMode))
       (agent_image_pull_policy (sample_cfg FailMode)) (agent_port (sample_cfg FailMode))
       (webhook_federation_url (sample_cfg FailMode)) (pod_sa_name pod) hash) aws pod = Inr pod' \<and>
     lib_to_value sample_lib pod = Inr original \<and> lib_to_value sample_lib pod' = Inr modified \<and>
     (\<lambda>p a. Some p) injected_pod original = Some modified"
  by (rule patch_carries_governing_binding [OF sample_lib_laws(1,3) handle_ready]) simp

section \<open>The federation service\<close>

fun payload_sub :: "json \<Rightarrow> string" where
  "payload_sub (JObj kvs) = (case map_of kvs ''sub'' of Some (JStr s) \<Rightarrow> s | _ \<Rightarrow> [])"
| "payload_sub _ = []"

lemma payload_sub: "payload_sub (claims_json c) = sub c"
  by (simp add: claims_json_def)

definition sample_fed :: "(string, (string \<times> string) list, nat) fed_lib" where
  "sample_fed =
     \<lparr>jl_key_from_rsa_pem = Inr, jl_encode = (\<lambda>h c k. Inr (payload_sub c)), jl_public_parts = (\<lambda>p. Inr (p, p)),
      jl_base64_url = (\<lambda>b. b), jl_jwk_from_value = Inr, jl_jwks_to_string = (\<lambda>js. Inr ''{keys}''),
      fl_now = (\<lambda>_. 0), fl_generate = (\<lambda>_ n. Inr n), fl_to_pem = (\<lambda>_. Inr ''pem'')\<rparr>"

definition sample_material :: SigningMaterial where
  "sample_material = \<lparr>kid = ''kid-0'', private_key_pem = ''pem''\<rparr>"

lemma jwks_sample: "jwks_json_from_private_pem sample_fed m = Inr ''{keys}''"
  by (simp add: jwks_json_from_private_pem_def sample_fed_def)

lemma ensure_sample:
  "fst (ensure_signing_and_jwks sample_fed (sample_api [] None None) ''kif'' ''kif-signing'' ''kif-jwks'' 3072 []) =
     Inr sample_material"
proof -
  have "show_nat 0 = ''0''" by code_simp
  moreover have "new_signing_material sample_fed 3072 log = Inr \<lparr>kid = ''kid-'' @ show_nat 0, private_key_pem = ''pem''\<rparr>" for log
    by (simp add: new_signing_material_def sample_fed_def)
  ultimately show ?thesis
    by (simp add: ensure_run sample_api_def Let_def publish_jwks_run jwks_sample sample_material_def)
qed

definition existing_secret :: Secret where
  "existing_secret = opaque_secret ''kif-signing'' [(signing_key_kid, ''kid-0'')]"


lemma restart_keeps_key_witness:
  "\<exists>secret json. snd (ensure_signing_and_jwks sample_fed (sample_api [] None None) ''kif'' ''kif-signing''
       ''kif-jwks'' 3072 []) =
       [] @ [GetSecretOpt ''kif'' ''kif-signing'', ApplySecret ''kif'' ''kif-signing'' secret,
         jwks_write ''kif'' ''kif-jwks'' json] \<and>
     jwks_json_from_private_pem sample_fed sample_material = Inr json \<and>
     (\<forall>api' log' existing. api_get_secret_opt api' log' ''kif'' ''kif-signing'' = Inr (Some existing) \<longrightarrow>
        secret_data existing = secret_data secret \<longrightarrow>
        ensure_signing_and_jwks sample_fed api' ''kif'' ''kif-signing'' ''kif-jwks'' 3072 log' =
          (map_sum id (\<lambda>_. sample_material) (api_apply_secret api' (log' @ [GetSecretOpt ''kif'' ''kif-signing''])
             ''kif'' ''kif-jwks'' (opaque_secret ''kif-jwks'' (bt_insert jwks_secret_key json []))),
           log' @ [GetSecretOpt ''kif'' ''kif-signing'', jwks_write ''kif'' ''kif-jwks'' json]))"
proof (rule restart_keeps_key)
  show "api_get_secret_opt (sample_api [] None None) [] ''kif'' ''kif-signing'' = Inr None"
    by (simp add: sample_api_def)
  show "fst (ensure_signing_and_jwks sample_fed (sample_api [] None None) ''kif'' ''kif-signing'' ''kif-jwks'' 3072 []) =
     Inr sample_material" by (rule ensure_sample)
  have "ascii ''pem''" by (simp add: ascii_def)
  then show "\<forall>k p. fl_to_pem sample_fed k = Inr p \<longrightarrow> valid_utf8 p"
    by (simp add: sample_fed_def ascii_valid)
qed

definition sample_state :: FedState where
  "sample_state = \<lparr>fed_issuer_url = ''https://issuer'', fed_port = 5001, fed_signing = sample_material\<rparr>"

definition sample_request :: MintRequest where
  "sample_request =
     \<lparr>mint_namespace = ''default'', mint_service_account_name = ''app'', mint_config_hash = ''abc'',
      mint_pod_name = Some ''app-0''\<rparr>"

definition sample_username :: string where
  "sample_username = sa_username ''default'' ''app''"

definition sample_auth :: "string option" where
  "sample_auth = Some (bearer_prefix @ sample_username)"

lemma authenticates_sample: "authenticates (sample_api crbs r s) log t u \<longleftrightarrow> u = t"
  by (auto simp: authenticates_def sample_api_def)

lemma caller_sample: "caller (sample_api crbs r s) log sample_auth sample_username ''default'' ''app''"
  by (simp add: caller_def sample_auth_def authenticates_sample username_iff sample_username_def)

lemma entitled_sample:
  "entitled sample_fed (sample_api [] (Some ready_rcrb) None) 0 0 sample_state sample_auth sample_request []
     ready_rcrb sample_aws sample_username"
proof -
  have "sign_rs256 sample_fed (fed_signing sample_state)
      (token_claims 0 0 sample_state sample_username sample_request ready_rcrb sample_aws) = Inr sample_username"
    by (simp add: sign_rs256_def sample_fed_def payload_sub token_claims_fields)
  moreover have "api_get_rcrb (sample_api [] (Some ready_rcrb) None) log ns sa = Inr ready_rcrb" for log ns sa
    by (simp add: sample_api_def)
  moreover have "caller (sample_api [] (Some ready_rcrb) None) [] sample_auth sample_username
      (mint_namespace sample_request) (mint_service_account_name sample_request)"
    by (simp add: sample_request_def caller_sample)
  ultimately show ?thesis
    unfolding entitled_def by (intro exI [of _ sample_username])
      (simp add: ready_rcrb_simps sample_request_def)
qed

definition sample_response :: MintResponse where
  "sample_response = \<lparr>minted_aws = Some \<lparr>token = sample_username, expires_in_seconds = token_ttl sample_aws\<rparr>\<rparr>"

lemma mint_sample:
  "fst (mint sample_fed (sample_api [] (Some ready_rcrb) None) 0 0 sample_state sample_auth sample_request []) =
     MintJson sample_response"
  unfolding mint_Json_iff sample_response_def using entitled_sample by blast

lemma mint_confined_to_caller_witness:
  "\<exists>cs. snd (mint sample_fed (sample_api [] (Some ready_rcrb) None) 0 0 sample_state sample_auth
       sample_request []) = [] @ cs \<and>
     (\<forall>c \<in> set cs. case c of
        CreateTokenReview b \<Rightarrow> sample_auth = Some (bearer_prefix @ b)
      | GetRcrb ns sa \<Rightarrow> (\<exists>u. caller (sample_api [] (Some ready_rcrb) None) [] sample_auth u ns sa)
      | _ \<Rightarrow> False)"
  by (rule mint_confined_to_caller)

lemma minted_token_names_caller_witness:
  "\<exists>u claims t. caller (sample_api [] (Some ready_rcrb) None) [] sample_auth u
       (mint_namespace sample_request) (mint_service_account_name sample_request) \<and>
     sign_rs256 sample_fed (fed_signing sample_state) claims = Inr t \<and>
     sample_response = \<lparr>minted_aws = Some \<lparr>token = t, expires_in_seconds = exp claims - iat claims\<rparr>\<rparr> \<and>
     sub claims = u \<and> iss claims = fed_issuer_url sample_state \<and>
     (\<forall>k k8s. kif claims = Some k \<and> kif_k8s k = Some k8s \<longrightarrow>
        k8s_namespace k8s = mint_namespace sample_request \<and>
        k8s_service_account k8s = mint_service_account_name sample_request)"
  by (rule minted_token_names_caller) (rule mint_sample)

section \<open>The agent\<close>

definition sample_agent_cfg :: AgentConfig where
  "sample_agent_cfg =
     \<lparr>ag_port = 5004, ag_federation_url = ''http://kif-federation:5001'', ag_service_account_name = ''app'',
      ag_config_hash = ''abc'', ag_namespace = ''default'', ag_pod_name = Some ''app-0'',
      sa_token_path = ''/sa'', aws_token_path = ''/aws'', refresh_skew_seconds = 300,
      min_refresh_seconds = 30, max_jitter_seconds = 60\<rparr>"

lemma token_path_sample: "file_name (aws_token_path sample_agent_cfg) \<noteq> None"
proof -
  have "file_name ''/aws'' \<noteq> None" by code_simp
  then show ?thesis by (simp add: sample_agent_cfg_def)
qed

definition sample_io :: "(fs_op \<Rightarrow> error option) \<Rightarrow> fs_env" where
  "sample_io fails = \<lparr>fs_error = fails, fs_written = (\<lambda>_. 2)\<rparr>"

text \<open>A disk that runs full in the middle of the write.\<close>

definition full_disk :: fs_env where
  "full_disk = sample_io (\<lambda>op. case op of WriteAll _ _ \<Rightarrow> Some ''ENOSPC'' | _ \<Rightarrow> None)"

lemma token_file_never_partial_witness:
  "\<exists>r fs' seen. atomic_write full_disk ''/aws'' ''token'' [''/aws'' \<mapsto> ''old''] = (r, fs', seen) \<and>
     fs' ''/aws'' = (if r = Inr () then Some ''token'' else [''/aws'' \<mapsto> ''old''] ''/aws'') \<and>
     (\<forall>s \<in> set seen. s ''/aws'' = [''/aws'' \<mapsto> ''old''] ''/aws'' \<or> s ''/aws'' = Some ''token'') \<and>
     (\<forall>p. p \<noteq> ''/aws'' \<and> p \<noteq> with_added_extension ''/aws'' ''tmp'' \<longrightarrow> fs' p = [''/aws'' \<mapsto> ''old''] p)"
proof -
  have "file_name ''/aws'' \<noteq> None" by code_simp
  moreover obtain r fs' seen where
    run: "atomic_write full_disk ''/aws'' ''token'' [''/aws'' \<mapsto> ''old''] = (r, fs', seen)"
    by (metis prod_cases3)
  ultimately show ?thesis
    using token_file_never_partial [of "''/aws''" full_disk "''token''" "[''/aws'' \<mapsto> ''old'']" r fs' seen]
    by blast
qed

lemma sleep_bounds_witness:
  "let s = unat (compute_sleep_seconds (\<lambda>m. m) 3600 300 30 60) in
     unat (30 :: u64) \<le> s \<and>
     (unat (30 :: u64) \<le> unat (3600 :: u64) - unat (300 :: u64) \<longrightarrow>
        s \<le> unat (3600 :: u64) - unat (300 :: u64)) \<and>
     unat (3600 :: u64) \<le> s + unat (300 :: u64) + unat (60 :: u64) \<and>
     (unat (3600 :: u64) < unat (30 :: u64) \<longrightarrow> unat (3600 :: u64) < s)"
  by (rule sleep_bounds) simp

text \<open>A reader and a writer of JSON: the text of a value is its number, in unary.\<close>

definition sample_text :: json_text where
  "sample_text =
     \<lparr>jt_print = (\<lambda>j. replicate (to_nat j) CHR ''x''), jt_parse = (\<lambda>s. Some (from_nat (length s))),
      jt_error = (\<lambda>_. ''error'')\<rparr>"

lemma sample_reads_back: "reads_back sample_text"
  by (simp add: reads_back_def sample_text_def)

definition sample_alib :: agent_lib where
  "sample_alib = \<lparr>al_json = sample_text, al_show_status = (\<lambda>_. [])\<rparr>"

definition sample_round :: "http_post \<Rightarrow> round" where
  "sample_round post =
     \<lparr>rd_sa_token = Inr ''sa-token'', rd_post = post, rd_io = sample_io (\<lambda>_. None), rd_draw = (\<lambda>m. m)\<rparr>"

definition answer :: "nat \<Rightarrow> string \<Rightarrow> http_post" where
  "answer st body = (\<lambda>_ _ _. Inr \<lparr>http_status = st, http_text = Inr body\<rparr>)"

text \<open>A life of the agent: the server is not there yet, then a token, then the configuration changes.\<close>

definition sample_rounds :: "round list" where
  "sample_rounds = [sample_round (\<lambda>_ _ _. Inl ''refused''), sample_round (answer 200 (jt_print sample_text
       (JObj [(''aws'', JObj [(''token'', JStr ''jwt''), (''expiresInSeconds'', JNum 3600)])]))),
     sample_round (answer 409 ''mismatch'')]"

lemma refresh_loop_stops_iff_fatal_witness:
  "\<exists>st' e ss. refresh_loop sample_alib sample_agent_cfg sample_rounds (agent_init Map.empty) = (st', e, ss) \<and>
     (e = None \<longleftrightarrow> list_all (\<lambda>rd. \<not> fatal sample_alib sample_agent_cfg rd) sample_rounds) \<and>
     length ss = length (takeWhile (\<lambda>rd. \<not> fatal sample_alib sample_agent_cfg rd) sample_rounds) \<and>
     list_all (\<lambda>s. min_refresh_seconds sample_agent_cfg \<le> s) ss"
  using refresh_loop_stops_iff_fatal [OF token_path_sample, of sample_alib sample_rounds "agent_init Map.empty"]
  by (metis prod_cases3)

section \<open>The issuer\<close>

definition sample_ilib :: "(string, string) issuer_lib" where
  "sample_ilib =
     \<lparr>il_issuer_url = Inr, il_parse = Inr, il_keys = length, il_to_string = Inr, il_url = Inr\<rparr>"

text \<open>A file that never appears, and a clock that shows six seconds per attempt.\<close>

definition sample_loader :: loader_env where
  "sample_loader = \<lparr>ld_file = (\<lambda>_. Inl ''ENOENT''), ld_clock = (\<lambda>i. seconds (6 * int i)), ld_start = 0\<rparr>"

lemma loader_ends_within_25_attempts_witness:
  "\<exists>n \<le> 24. load_loop sample_ilib sample_loader ''/jwks'' 0 None =
       Some (n, load_result sample_ilib sample_loader ''/jwks'' n None) \<and>
     (\<forall>k < n. \<not> is_ok (ld_file sample_loader k) \<and>
       ld_clock sample_loader k < ld_start sample_loader + seconds 120) \<and>
     (is_ok (ld_file sample_loader n) \<or> ld_start sample_loader + seconds 120 \<le> ld_clock sample_loader n)"
  by (rule loader_ends_within_25_attempts) (simp add: clock_runs_def sample_loader_def seconds_def)

section \<open>The CRD templates\<close>

definition sample_yaml :: string where
  "sample_yaml = unlines [''kind: C'', ''metadata:'', ''  name: n'', ''spec:'', ''  metadata:'']"

lemma sample_yaml_lines:
  "lines sample_yaml = [''kind: C''] @ ''metadata:'' # [''  name: n''] @ ''spec:'' # [''  metadata:'']"
  by code_simp

end
