(* ===== verification/Self_Trigger.thy ===== *)
theory Self_Trigger
  imports Lost_Updates
begin

text \<open>
  The control loop reacts to its own writes: every reconciliation sets the status of its
  bindings with the current time, the server announces the changed objects, and an event that
  arrives after the worker has given the key back starts the next reconciliation. One change
  can so keep the loop busy for any number of reconciliations. Two times differ when they are in
  different seconds, which is the precision they are stored with.
\<close>

section \<open>What a reconciliation writes first\<close>

definition ready_mark :: "Key \<Rightarrow> Time \<Rightarrow> CloudRoleBinding \<Rightarrow> kube_call" where
  "ready_mark k now crb =
     ReplaceCrbStatus (key_namespace k) (crb_name crb) (crb\<lparr>crb_status := Some (build_crb_status now crb True None)\<rparr>)"

lemma status_writes_ready:
  "status_writes (env\<lparr>env_clock := \<lambda>_. now\<rparr>) (key_namespace k) True None crbs log = map (ready_mark k now) crbs"
  by (induction crbs arbitrary: log) (simp_all add: ready_mark_def Let_def)

lemma plan_marks:
  assumes "merge_inputs (key_service_account_name k) (filter (\<lambda>crb. crb_sa crb = key_service_account_name k) all) = Inr spec"
  shows "\<exists>cs. plan (env\<lparr>env_clock := \<lambda>_. now\<rparr>) k all =
     map (ready_mark k now) (filter (\<lambda>crb. crb_name crb \<noteq> []) (filter (\<lambda>crb. crb_sa crb = key_service_account_name k) all)) @ cs"
  using assms by (simp add: plan_def Let_def status_writes_ready)

section \<open>The events of the writes\<close>

fun yields :: "'s server \<Rightarrow> kube_call list \<Rightarrow> 's \<Rightarrow> ('s \<times> watch_event list) option" where
  "yields sv [] st = Some (st, [])"
| "yields sv (c # cs) st =
     (case sv_write sv c st of
        None \<Rightarrow> None
      | Some (st', evs) \<Rightarrow> map_option (apsnd ((@) evs)) (yields sv cs st'))"

lemma serves_yields: "serves sv cs st = Some st' \<Longrightarrow> \<exists>evs. yields sv cs st = Some (st', evs)"
  by (induction cs arbitrary: st) (auto split: option.splits)

lemma yields_events:
  assumes "server_laws sv"
  shows "yields sv cs st = Some (st', evs) \<Longrightarrow> list_all (writes_for k) cs \<Longrightarrow>
     \<forall>ev \<in> set evs. event_key ev = Some k"
proof (induction cs arbitrary: st evs)
  case (Cons c cs)
  then obtain st1 e1 e2 where w: "sv_write sv c st = Some (st1, e1)" "yields sv cs st1 = Some (st', e2)"
    "evs = e1 @ e2" "writes_for k c" "list_all (writes_for k) cs"
    by (auto split: option.splits)
  with write_effect(3) [OF assms w(4,1)] Cons.IH [OF w(2,5)] show ?case by auto
qed simp

text \<open>A status write that changes an object is announced.\<close>

definition status_laws :: "'s server \<Rightarrow> bool" where
  "status_laws sv \<longleftrightarrow>
     (\<forall>st st' evs ns n c. sv_write sv (ReplaceCrbStatus ns n c) st = Some (st', evs) \<and>
        meta_namespace (crb_metadata c) = Some ns \<longrightarrow>
        (\<exists>d \<in> set (sv_list sv st' ns). crb_status d = crb_status c) \<and>
        (evs = [] \<longrightarrow> sv_list sv st' ns = sv_list sv st ns))"

text \<open>A time that no listed status has.\<close>

definition status_times :: "CloudRoleBinding \<Rightarrow> Time list" where
  "status_times crb =
     (case crb_status crb of None \<Rightarrow> [] | Some x \<Rightarrow> map last_transition_time (crb_conditions x))"

lemma fresh_time: "\<exists>now. \<forall>crb \<in> set crbs. now \<notin> set (status_times crb)"
proof -
  have "finite (\<Union>crb \<in> set crbs. set (status_times crb))" by simp
  then obtain now where "now \<notin> (\<Union>crb \<in> set crbs. set (status_times crb))"
    using ex_new_if_finite infinite_UNIV_int by metis
  then show ?thesis by blast
qed

lemma ready_mark_announced:
  assumes "status_laws sv" "sv_write sv (ready_mark k now crb) st = Some (st', evs)"
    and "meta_namespace (crb_metadata crb) = Some (key_namespace k)"
    and "\<forall>d \<in> set (sv_list sv st (key_namespace k)). now \<notin> set (status_times d)"
  shows "evs \<noteq> []"
proof
  assume none: "evs = []"
  let ?x = "build_crb_status now crb True None"
  have "meta_namespace (crb_metadata (crb\<lparr>crb_status := Some ?x\<rparr>)) = Some (key_namespace k)" using assms(3) by simp
  with assms(1,2) none obtain d where "d \<in> set (sv_list sv st (key_namespace k))" "crb_status d = Some ?x"
    unfolding status_laws_def ready_mark_def by fastforce
  moreover have "now \<in> set (map last_transition_time (crb_conditions ?x))"
    by (simp add: build_crb_status_def Let_def ready_condition_def)
  ultimately show False using assms(4) by (auto simp: status_times_def)
qed

section \<open>Reconciliation without end\<close>

text \<open>The events that are waiting when the worker takes the key are dropped; those of its own
  writes wait until it has given the key back.\<close>

lemma busy_skips:
  "\<forall>ev \<in> set evs. event_key ev = Some k \<Longrightarrow>
     ctl_exec sv env n (busy buffer st k p\<lparr>ctl_stream := evs\<rparr>) (replicate (length evs) (Skip k)) (busy buffer st k p)"
proof (induction evs)
  case Nil
  have "busy buffer st k p\<lparr>ctl_stream := []\<rparr> = busy buffer st k p" by (simp add: busy_def)
  then show ?case by (simp add: e_nil)
next
  case (Cons ev evs)
  have "ctl_step sv env n (Skip k) (busy buffer st k p\<lparr>ctl_stream := ev # evs\<rparr>) (busy buffer st k p\<lparr>ctl_stream := evs\<rparr>)"
    using skip [of "busy buffer st k p\<lparr>ctl_stream := ev # evs\<rparr>" ev evs k sv env n] Cons.prems
    by (simp add: busy_def enqueue_claim_def)
  with Cons show ?case by (auto intro: e_cons)
qed

lemma busy_collects:
  "yields sv cs st = Some (st', evs) \<Longrightarrow>
     ctl_exec sv env n (busy buffer st k (Writing cs)\<lparr>ctl_stream := es\<rparr>) (map (Write k) cs)
       (busy buffer st' k (Writing [])\<lparr>ctl_stream := es @ evs\<rparr>)"
proof (induction cs arbitrary: st es evs)
  case Nil
  then show ?case by (simp add: e_nil)
next
  case (Cons c cs)
  then obtain st1 e1 e2 where w: "sv_write sv c st = Some (st1, e1)" "yields sv cs st1 = Some (st', e2)"
    "evs = e1 @ e2"
    by (auto split: option.splits)
  let ?s = "busy buffer st k (Writing (c # cs))\<lparr>ctl_stream := es\<rparr>"
  have "ctl_step sv env n (Write k c) ?s (busy buffer st1 k (Writing cs)\<lparr>ctl_stream := es @ e1\<rparr>)"
    using put [of ?s "[]" k c cs "[]" sv st1 e1 env n] w(1) by (simp add: busy_def)
  from e_cons [OF this Cons.IH [OF w(2)]] show ?case by (simp add: w(3))
qed

lemma events_to_plan:
  assumes "0 < n" "0 < buffer" "event_key ev = Some k" "\<forall>ev \<in> set evs. event_key ev = Some k"
  shows "ctl_exec sv env n (ctl_init buffer st (ev # evs))
     ([Claim k, Send k, Take k] @ replicate (length evs) (Skip k) @ [List k])
     (busy buffer st k (Writing (plan (env\<lparr>env_clock := clock\<rparr>) k (sv_list sv st (key_namespace k)))))"
proof -
  let ?q = "queue_new buffer :: Key queue"
  let ?s1 = "ctl_init buffer st (ev # evs)"
  let ?s2 = "?s1\<lparr>ctl_stream := evs, ctl_queue := ?q\<lparr>in_flight := {k}\<rparr>, ctl_sending := Some k\<rparr>"
  let ?s3 = "?s2\<lparr>ctl_queue := ?q\<lparr>in_flight := {k}, channel := [k]\<rparr>, ctl_sending := None\<rparr>"
  let ?s4 = "busy buffer st k Fetching\<lparr>ctl_stream := evs\<rparr>"
  note defs = ctl_init_def queue_new_def busy_def
  have 1: "ctl_step sv env n (Claim k) ?s1 ?s2"
    using claim [of ?s1 ev evs k _ sv env n] assms(3) by (simp add: enqueue_claim_def defs)
  have 2: "ctl_step sv env n (Send k) ?s2 ?s3"
    using send [of ?s2 k _ sv env n] assms(2) by (simp add: enqueue_send_def defs)
  have 3: "ctl_step sv env n (Take k) ?s3 ?s4"
    using take [of ?s3 n k _ sv env] assms(1) by (simp add: recv_def defs)
  have 4: "ctl_step sv env n (List k) (busy buffer st k Fetching)
      (busy buffer st k (Writing (plan (env\<lparr>env_clock := clock\<rparr>) k (sv_list sv st (key_namespace k)))))"
    using list [where s = "busy buffer st k Fetching" and ws = "[]" and ws' = "[]" and k = k and
        clock = clock and env = env and sv = sv and n = n]
    by (simp add: busy_def)
  show ?thesis
    using e_cons [OF 1 e_cons [OF 2 e_cons [OF 3 e_append [OF busy_skips [OF assms(4)] e_one [OF 4]]]]] by simp
qed

text \<open>The server grants the writes of every plan that is made for these bindings.\<close>

definition grants :: "'s server \<Rightarrow> reconcile_env \<Rightarrow> Key \<Rightarrow> CloudRoleBinding list \<Rightarrow> bool" where
  "grants sv env k crbs \<longleftrightarrow>
     (\<forall>st clock. list_all2 same_object crbs (bindings sv st k) \<longrightarrow>
        serves sv (plan (env\<lparr>env_clock := clock\<rparr>) k (sv_list sv st (key_namespace k))) st \<noteq> None)"

text \<open>Once there is a named binding, a reconciliation at a new time is announced.\<close>

lemma plan_announced:
  assumes "server_laws sv" "status_laws sv" "merge_inputs (key_service_account_name k) crbs = Inr spec"
    and "list_ex (\<lambda>crb. crb_name crb \<noteq> []) crbs" "list_all2 same_object crbs (bindings sv st k)"
    and now: "\<forall>d \<in> set (sv_list sv st (key_namespace k)). now \<notin> set (status_times d)"
    and evs: "yields sv (plan (env\<lparr>env_clock := \<lambda>_. now\<rparr>) k (sv_list sv st (key_namespace k))) st = Some (st', evs)"
  shows "evs \<noteq> []"
proof -
  have "merge_inputs (key_service_account_name k) (bindings sv st k) = Inr spec"
    using merge_same [OF assms(5)] assms(3) by simp
  from plan_marks [OF this [unfolded bindings_def], where env = env and now = now] obtain cs where
    cs: "plan (env\<lparr>env_clock := \<lambda>_. now\<rparr>) k (sv_list sv st (key_namespace k)) =
      map (ready_mark k now) (filter (\<lambda>crb. crb_name crb \<noteq> []) (bindings sv st k)) @ cs"
    unfolding bindings_def by blast
  have "list_ex (\<lambda>crb. crb_name crb \<noteq> []) (bindings sv st k)"
    using assms(4,5) by (fastforce simp: list_ex_iff list_all2_conv_all_nth same_object_def crb_name_def in_set_conv_nth)
  then obtain crb ms where first: "filter (\<lambda>crb. crb_name crb \<noteq> []) (bindings sv st k) = crb # ms"
    by (cases "filter (\<lambda>crb. crb_name crb \<noteq> []) (bindings sv st k)") (auto simp: list_ex_iff filter_empty_conv)
  then have "crb \<in> set (bindings sv st k)" by (metis filter_is_subset list.set_intros(1) subsetD)
  then have ns: "meta_namespace (crb_metadata crb) = Some (key_namespace k)"
    using server_list [OF assms(1)] by (auto simp: bindings_def)
  from evs obtain st1 e1 where "sv_write sv (ready_mark k now crb) st = Some (st1, e1)" "\<exists>e2. evs = e1 @ e2"
    unfolding cs first by (auto split: option.splits)
  with ready_mark_announced [OF assms(2) _ ns now] show ?thesis by auto
qed

lemma one_round:
  assumes "server_laws sv" "status_laws sv" "0 < n" "0 < buffer" "grants sv env k crbs"
    and "merge_inputs (key_service_account_name k) crbs = Inr spec" "list_ex (\<lambda>crb. crb_name crb \<noteq> []) crbs"
    and "list_all2 same_object crbs (bindings sv st k)" "evs \<noteq> []" "\<forall>ev \<in> set evs. event_key ev = Some k"
  shows "\<exists>as st' evs'. ctl_exec sv env n (ctl_init buffer st evs) as (ctl_init buffer st' evs') \<and>
     no_failure as \<and> (\<forall>e. Change e \<notin> set as) \<and> count_list as (Done k) = 1 \<and>
     list_all2 same_object crbs (bindings sv st' k) \<and> evs' \<noteq> [] \<and> (\<forall>ev \<in> set evs'. event_key ev = Some k)"
proof -
  let ?all = "sv_list sv st (key_namespace k)"
  obtain now where now: "\<forall>d \<in> set ?all. now \<notin> set (status_times d)" using fresh_time by blast
  let ?env = "env\<lparr>env_clock := \<lambda>_. now\<rparr>"
  let ?cs = "plan ?env k ?all"
  obtain st' where st': "serves sv ?cs st = Some st'" using assms(5,8) unfolding grants_def by blast
  obtain evs' where evs': "yields sv ?cs st = Some (st', evs')" using serves_yields [OF st'] by blast
  have own: "list_all (writes_for k) ?cs" by (rule plan_writes_for [OF assms(1)])
  have some: "evs' \<noteq> []" by (rule plan_announced [OF assms(1,2,6-8) now evs'])
  obtain ev es where evs: "evs = ev # es" using assms(9) by (cases evs) simp_all
  let ?as = "([Claim k, Send k, Take k] @ replicate (length es) (Skip k) @ [List k]) @ map (Write k) ?cs @ [Done k]"
  have a: "ctl_exec sv env n (ctl_init buffer st evs)
      ([Claim k, Send k, Take k] @ replicate (length es) (Skip k) @ [List k]) (busy buffer st k (Writing ?cs))"
    unfolding evs by (rule events_to_plan) (use assms(3,4,10) evs in simp_all)
  have "busy buffer st k (Writing ?cs)\<lparr>ctl_stream := []\<rparr> = busy buffer st k (Writing ?cs)" by (simp add: busy_def)
  with busy_collects [OF evs', where env = env and n = n and buffer = buffer and k = k and es = "[]"]
  have b: "ctl_exec sv env n (busy buffer st k (Writing ?cs)) (map (Write k) ?cs)
      (busy buffer st' k (Writing [])\<lparr>ctl_stream := evs'\<rparr>)" by simp
  have c: "ctl_step sv env n (Done k) (busy buffer st' k (Writing [])\<lparr>ctl_stream := evs'\<rparr>) (ctl_init buffer st' evs')"
    using finish [of "busy buffer st' k (Writing [])\<lparr>ctl_stream := evs'\<rparr>" "[]" k "[]" sv env n]
    by (simp add: busy_def ctl_init_def queue_done_def queue_new_def)
  have "ctl_exec sv env n (ctl_init buffer st evs) ?as (ctl_init buffer st' evs')"
    by (rule e_append [OF a e_append [OF b e_one [OF c]]])
  moreover have "no_failure ?as" by (auto simp: no_failure_def list_all_iff)
  moreover have "\<forall>e. Change e \<notin> set ?as" by auto
  moreover have "count_list ?as (Done k) = 1" by (auto simp: count_list_0_iff)
  moreover have "list_all2 same_object crbs (bindings sv st' k)"
    using list_all2_trans [OF same_object_trans assms(8) serves_same_bindings [OF assms(1) st' own]] .
  moreover note some yields_events [OF assms(1) evs' own]
  ultimately show ?thesis by blast
qed

text \<open>
  C15: The control loop reacts to its own writes and need not come to rest: from a single
  event of a key whose bindings merge, and without any further change or failure, there are
  runs with any number of complete reconciliations of this key, as each one sets the
  statuses of the bindings to the current time, and the events this causes can arrive after
  the worker has given the key back.
\<close>

theorem reconciliation_retriggers_itself:
  assumes "server_laws sv" "status_laws sv" "0 < n" "0 < buffer" "event_key ev = Some k"
    and "merge_inputs (key_service_account_name k) (bindings sv st k) = Inr spec"
    and "list_ex (\<lambda>crb. crb_name crb \<noteq> []) (bindings sv st k)" "grants sv env k (bindings sv st k)"
  shows "\<exists>as t. ctl_exec sv env n (ctl_init buffer st [ev]) as t \<and> no_failure as \<and>
     (\<forall>e. Change e \<notin> set as) \<and> count_list as (Done k) = m \<and> \<not> idle t"
proof -
  let ?crbs = "bindings sv st k"
  have "\<exists>as st' evs. ctl_exec sv env n (ctl_init buffer st [ev]) as (ctl_init buffer st' evs) \<and> no_failure as \<and>
      (\<forall>e. Change e \<notin> set as) \<and> count_list as (Done k) = m \<and> list_all2 same_object ?crbs (bindings sv st' k) \<and>
      evs \<noteq> [] \<and> (\<forall>ev \<in> set evs. event_key ev = Some k)"
  proof (induction m)
    case 0
    show ?case
      using e_nil [of sv env n "ctl_init buffer st [ev]"] assms(5) same_bindings_refl
      by (intro exI [of _ "[]"] exI [of _ st] exI [of _ "[ev]"]) simp
  next
    case (Suc m)
    then obtain as st1 evs1 where 1: "ctl_exec sv env n (ctl_init buffer st [ev]) as (ctl_init buffer st1 evs1)"
      "no_failure as" "\<forall>e. Change e \<notin> set as" "count_list as (Done k) = m"
      "list_all2 same_object ?crbs (bindings sv st1 k)" "evs1 \<noteq> []" "\<forall>ev \<in> set evs1. event_key ev = Some k"
      by blast
    obtain bs st2 evs2 where 2: "ctl_exec sv env n (ctl_init buffer st1 evs1) bs (ctl_init buffer st2 evs2)"
      "no_failure bs" "\<forall>e. Change e \<notin> set bs" "count_list bs (Done k) = 1"
      "list_all2 same_object ?crbs (bindings sv st2 k)" "evs2 \<noteq> []" "\<forall>ev \<in> set evs2. event_key ev = Some k"
      using one_round [OF assms(1-4,8,6,7) 1(5-7)] by blast
    have "count_list (as @ bs) (Done k) = Suc m" using 1(4) 2(4) by simp
    moreover have "no_failure (as @ bs)" "\<forall>e. Change e \<notin> set (as @ bs)" using 1(2,3) 2(2,3) by simp_all
    ultimately show ?case using e_append [OF 1(1) 2(1)] 2(5-7) by metis
  qed
  then obtain as st' evs where run: "ctl_exec sv env n (ctl_init buffer st [ev]) as (ctl_init buffer st' evs)"
    "no_failure as" "\<forall>e. Change e \<notin> set as" "count_list as (Done k) = m" "evs \<noteq> []"
    by (elim exE conjE) (rule that)
  have "\<not> idle (ctl_init buffer st' evs)" using run(5) by (simp add: idle_def ctl_init_def)
  with run(1-4) show ?thesis by (intro exI conjI)
qed

end
