(* ===== verification/Control_Witnesses.thy ===== *)
theory Control_Witnesses
  imports Samples Self_Trigger
begin

text \<open>
  A concrete API server for the control loop, a list of bindings and a map of resolutions, and
  the properties of the loop applied to it.
\<close>

section \<open>A server\<close>

type_synonym sample_store = "CloudRoleBinding list \<times> (Key \<Rightarrow> ResolvedCloudRoleBinding option)"

definition take_status :: "CloudRoleBinding \<Rightarrow> CloudRoleBinding \<Rightarrow> CloudRoleBinding" where
  "take_status c d = (if same_object c d then d\<lparr>crb_status := crb_status c\<rparr> else d)"

definition sample_write :: "kube_call \<Rightarrow> sample_store \<Rightarrow> (sample_store \<times> watch_event list) option" where
  "sample_write c st =
     (let k = (\<lambda>ns n. \<lparr>key_namespace = ns, key_service_account_name = n\<rparr>) in
      case c of
        ReplaceCrbStatus ns n crb \<Rightarrow>
          if list_ex (same_object crb) (fst st)
          then Some ((map (take_status crb) (fst st), snd st), [EvApply crb]) else None
      | ApplyRcrb ns n r \<Rightarrow>
          Some ((fst st, (snd st)(k ns n \<mapsto> r\<lparr>rcrb_status := Option.bind (snd st (k ns n)) rcrb_status\<rparr>)), [])
      | ApplyRcrbStatus ns n r \<Rightarrow>
          (case snd st (k ns n) of
             None \<Rightarrow> None
           | Some obj \<Rightarrow> Some ((fst st, (snd st)(k ns n \<mapsto> obj\<lparr>rcrb_status := rcrb_status r\<rparr>)), []))
      | _ \<Rightarrow> None)"

definition sample_server :: "sample_store server" where
  "sample_server =
     \<lparr>sv_list = (\<lambda>st ns. filter (\<lambda>c. meta_namespace (crb_metadata c) = Some ns) (fst st)),
      sv_rcrb = snd, sv_write = sample_write\<rparr>"

lemma sample_server_simps [simp]:
  "sv_list sample_server st ns = filter (\<lambda>c. meta_namespace (crb_metadata c) = Some ns) (fst st)"
  "sv_rcrb sample_server = snd" "sv_write sample_server = sample_write"
  by (simp_all add: sample_server_def)

lemma take_status_same [simp]:
  "same_object (take_status c d) e = same_object d e" "same_object e (take_status c d) = same_object e d"
  "meta_namespace (crb_metadata (take_status c d)) = meta_namespace (crb_metadata d)"
  by (simp_all add: take_status_def same_object_def)

lemma take_status_bindings:
  "list_all2 same_object (filter (\<lambda>c. meta_namespace (crb_metadata c) = Some ns) crbs)
     (filter (\<lambda>c. meta_namespace (crb_metadata c) = Some ns) (map (take_status crb) crbs))"
  by (induction crbs) simp_all

lemma sample_laws: "server_laws sample_server"
  unfolding server_laws_def Let_def
  by (auto simp: sample_write_def same_bindings_def take_status_bindings same_bindings_refl
      split: if_splits option.splits)

text \<open>It grants every plan.\<close>

lemma sample_serves_marks:
  "list_all (marks_one k crbs) ms \<Longrightarrow> \<forall>crb \<in> set crbs. list_ex (same_object crb) (fst st) \<Longrightarrow>
     \<exists>st'. serves sample_server ms st = Some st' \<and> snd st' = snd st"
proof (induction ms arbitrary: st)
  case (Cons c ms)
  then obtain crb x where c: "c = ReplaceCrbStatus (key_namespace k) (crb_name crb) (crb\<lparr>crb_status := Some x\<rparr>)"
    "crb \<in> set crbs"
    by (auto simp: marks_one_def)
  have view: "same_object (crb\<lparr>crb_status := Some x\<rparr>) = same_object crb"
    by (intro ext) (simp add: same_object_def)
  let ?st = "(map (take_status (crb\<lparr>crb_status := Some x\<rparr>)) (fst st), snd st)"
  have "sample_write c st = Some (?st, [EvApply (crb\<lparr>crb_status := Some x\<rparr>)])"
    using Cons.prems(2) c by (simp add: sample_write_def view)
  moreover have "\<forall>crb \<in> set crbs. list_ex (same_object crb) (fst ?st)"
    using Cons.prems(2) by (simp add: list_ex_iff)
  moreover from Cons.IH [OF _ this] Cons.prems(1) obtain st' where
    "serves sample_server ms ?st = Some st'" "snd st' = snd ?st" by auto
  ultimately show ?case by simp
qed simp

lemma sample_serves_upsert:
  "\<exists>st'. serves sample_server [ApplyRcrb ns n r, ApplyRcrbStatus ns n r] st = Some st'"
  "\<exists>st'. serves sample_server [ApplyRcrb ns n r] st = Some st'"
  by (simp_all add: sample_write_def)

lemma sample_serves:
  assumes "\<And>spec. is_ok (env_to_vec env spec)" "key_service_account_name k \<noteq> []"
  shows "\<exists>st'. serves sample_server (plan env k (sv_list sample_server st (key_namespace k))) st = Some st'"
    "\<exists>st'. serves sample_server (butlast (plan env k (sv_list sample_server st (key_namespace k)))) st = Some st'"
proof -
  let ?all = "sv_list sample_server st (key_namespace k)"
  let ?crbs = "filter (\<lambda>crb. crb_sa crb = key_service_account_name k) ?all"
  obtain ms r where p: "plan env k ?all = ms @ [ApplyRcrb (key_namespace k) (key_service_account_name k) r,
      ApplyRcrbStatus (key_namespace k) (key_service_account_name k) r]" "list_all (marks_one k ?crbs) ms"
    using plan_shape [OF assms, of ?all] by blast
  have "\<forall>crb \<in> set ?crbs. list_ex (same_object crb) (fst st)" unfolding list_ex_iff by (metis filter_is_subset same_object_refl subsetD sample_server_simps(1))
  from sample_serves_marks [OF p(2) this] obtain st1 where st1: "serves sample_server ms st = Some st1" by blast
  then show "\<exists>st'. serves sample_server (plan env k ?all) st = Some st'"
    using sample_serves_upsert(1) [of "key_namespace k" "key_service_account_name k" r st1]
    unfolding p(1) serves_append by simp
  have "butlast (plan env k ?all) = ms @ [ApplyRcrb (key_namespace k) (key_service_account_name k) r]"
    unfolding p(1) by (simp add: butlast_append)
  with st1 show "\<exists>st'. serves sample_server (butlast (plan env k ?all)) st = Some st'"
    using sample_serves_upsert(2) [of "key_namespace k" "key_service_account_name k" r st1]
    by (simp add: serves_append)
qed

section \<open>The properties on this server\<close>

abbreviation "the_env \<equiv> sample_env []"

lemma sample_env_ok: "is_ok (env_to_vec the_env spec)"
  by (simp add: sample_env_def)

lemma sample_sa: "key_service_account_name sample_key \<noteq> []"
  by (simp add: sample_key_def)

lemma sample_event: "event_key (EvApply aws_crb) = Some sample_key" "event_key (EvDelete aws_crb) = Some sample_key"
  by (simp_all add: event_key_def crb_key_def aws_crb_def make_crb_def sample_key_def crb_sa_def)

lemma sample_bindings: "bindings sample_server ([aws_crb], rs) sample_key = [aws_crb]"
    "bindings sample_server ([], rs) k = []"
  by (simp_all add: bindings_def sample_key_def aws_crb_def make_crb_def crb_sa_def)

lemma merge_none: "merge_inputs sa [] \<noteq> Inr spec"
  by (simp add: merge_inputs_def merge_init_def merge_finish_def)

lemma init_idle: "idle (ctl_init buffer st [])"
  by (simp add: idle_def ctl_init_def queue_new_def)

lemma controller_refines_queue_witness:
  "qreach 2048 4 (abs_ctl (ctl_init 2048 ([aws_crb], Map.empty) [EvApply aws_crb] :: sample_store ctl))"
  by (rule controller_refines_queue [of sample_server the_env]) (rule ctl_reach.start)

lemma reconcile_follows_plan_witness:
  "prefix (snd (reconcile (sample_env [aws_crb]) sample_key []))
     (ListCrbs (key_namespace sample_key) # plan (sample_env [aws_crb]) sample_key [aws_crb])"
  using reconcile_follows_plan [of "sample_env [aws_crb]" sample_key "[aws_crb]"]
  by (simp add: sample_env_def sample_api_def)

lemma update_during_reconcile_is_lost_witness:
  "\<exists>ev1 ev2 st3 as mid t. ctl_exec sample_server the_env 4 (ctl_init 2048 ([], Map.empty) []) (Change ev1 # as) mid \<and>
     no_failure as \<and> (sample_key, Writing []) \<in> set (ctl_workers mid) \<and> sample_key \<in> in_flight (ctl_queue mid) \<and>
     settled sample_server the_env (ctl_store mid) sample_key \<and>
     ctl_exec sample_server the_env 4 mid [Change ev2, Skip sample_key, Done sample_key] t \<and>
     ctl_store t = ([], st3) \<and> \<not> settled sample_server the_env ([], st3) sample_key \<and>
     idle t \<and> (\<forall>a u. ctl_step sample_server the_env 4 a t u \<longrightarrow> (\<exists>ev. a = Change ev))"
proof -
  obtain st2 where st2: "serves sample_server
      (plan the_env sample_key (sv_list sample_server ([aws_crb], Map.empty) (key_namespace sample_key)))
      ([aws_crb], Map.empty) = Some st2"
    using sample_serves(1) [OF sample_env_ok sample_sa] by blast
  show ?thesis
    by (intro exI [of _ "EvApply aws_crb"] exI [of _ "EvDelete aws_crb"] exI [of _ "snd st2"],
        rule update_during_reconcile_is_lost
        [OF sample_laws sample_env_ok ctl_reach.start init_idle _ _ sample_sa sample_event(1) _ st2 sample_event(2)])
      (use merge_sample(2) merge_none in \<open>simp_all add: ctl_init_def sample_bindings, simp add: sample_key_def\<close>)
qed

text \<open>A resolution of an earlier configuration.\<close>

definition old_rcrb :: ResolvedCloudRoleBinding where
  "old_rcrb =
     \<lparr>rcrb_metadata = rcrb_meta ''default'' ''app'', rcrb_spec = merged_app\<lparr>rcrb_attributes := None\<rparr>,
      rcrb_status = Some \<lparr>rcrb_status_providers = ''aws'', rcrb_conditions = [], sources = [],
        config_hash = Some ''old'', rcrb_last_error = None\<rparr>\<rparr>"

lemma old_hash: "status_hash old_rcrb = Some ''old''"
  by (simp only: status_hash_def old_rcrb_def ResolvedCloudRoleBinding.simps ResolvedCloudRoleBindingStatus.simps bind.simps)

lemma unannounced_resolution_is_kept_witness:
  "sv_rcrb sample_server (ctl_store (ctl_init 2048 ([], [sample_key \<mapsto> old_rcrb]) [EvInit]\<lparr>ctl_stream := []\<rparr>))
     sample_key = sv_rcrb sample_server ([], [sample_key \<mapsto> old_rcrb]) sample_key"
proof (rule unannounced_resolution_is_kept [OF sample_laws])
  show "ctl_exec sample_server the_env 4 (ctl_init 2048 ([], [sample_key \<mapsto> old_rcrb]) [EvInit]) [Pass EvInit]
      (ctl_init 2048 ([], [sample_key \<mapsto> old_rcrb]) [EvInit]\<lparr>ctl_stream := []\<rparr>)"
    by (rule e_one, rule pass) (simp_all add: ctl_init_def event_key_def)
qed (simp_all add: event_key_def)

text \<open>A binding is created, and the loop publishes its resolution; or the last one is deleted.\<close>

lemma sample_announces:
  "announces sample_server ([aws_crb], Map.empty) [EvApply aws_crb]"
  "announces sample_server ([], [sample_key \<mapsto> old_rcrb]) [EvDelete aws_crb]"
proof -
  have "bindings sample_server ([aws_crb], Map.empty) k = []" if "k \<noteq> sample_key" for k
    using that by (cases k) (auto simp: bindings_def sample_key_def aws_crb_def make_crb_def crb_sa_def)
  then show "announces sample_server ([aws_crb], Map.empty) [EvApply aws_crb]"
    "announces sample_server ([], [sample_key \<mapsto> old_rcrb]) [EvDelete aws_crb]"
    by (auto simp: announces_def sample_bindings sample_event)
qed

lemma create_run:
  "\<exists>st. lossless_reach sample_server the_env 2048 4 (ctl_init 2048 st []) \<and>
     list_all2 same_object [aws_crb] (bindings sample_server st sample_key) \<and> snd st sample_key \<noteq> None"
proof -
  let ?st = "([aws_crb], Map.empty) :: sample_store"
  obtain st where st: "serves sample_server
      (plan the_env sample_key (sv_list sample_server ?st (key_namespace sample_key))) ?st = Some st"
    using sample_serves(1) [OF sample_env_ok sample_sa] by blast
  have "lossless_reach sample_server the_env 2048 4 (ctl_init 2048 st [])"
    by (rule lossless_run [OF sample_laws sample_env_ok _ _ sample_sa sample_event(1) sample_announces(1) st]) simp_all
  moreover have "list_all2 same_object [aws_crb] (bindings sample_server st sample_key)"
    using serves_same_bindings [OF sample_laws st plan_writes_for [OF sample_laws], of sample_key]
    unfolding sample_bindings .
  moreover have "snd st sample_key \<noteq> None"
    using serves_publishes(2) [OF sample_laws sample_env_ok sample_sa st] by simp
  ultimately show ?thesis by blast
qed

lemma no_lost_update_witness:
  "\<exists>t. idle t \<and> bindings sample_server (ctl_store t) sample_key \<noteq> [] \<and>
     settled sample_server the_env (ctl_store t) sample_key"
proof -
  obtain st where st: "lossless_reach sample_server the_env 2048 4 (ctl_init 2048 st [])"
    "list_all2 same_object [aws_crb] (bindings sample_server st sample_key)" using create_run by blast
  from no_lost_update [OF sample_laws sample_env_ok st(1) init_idle sample_sa] init_idle st(2)
  show ?thesis by (intro exI [of _ "ctl_init 2048 st []"]) (auto simp: ctl_init_def)
qed

lemma sample_status_laws: "status_laws sample_server"
proof -
  have "\<exists>d \<in> set (filter (\<lambda>c. meta_namespace (crb_metadata c) = Some ns) (map (take_status c) crbs)).
      crb_status d = crb_status c"
    if "list_ex (same_object c) crbs" "meta_namespace (crb_metadata c) = Some ns" for c crbs ns
  proof -
    from that(1) obtain x where "x \<in> set crbs" "same_object c x" by (auto simp: list_ex_iff)
    with that(2) show ?thesis
      by (intro bexI [of _ "take_status c x"]) (auto simp: take_status_def same_object_def)
  qed
  then show ?thesis by (auto simp: status_laws_def sample_write_def split: if_splits)
qed

lemma sample_grants: "grants sample_server the_env sample_key crbs"
proof -
  have "serves sample_server (plan (the_env\<lparr>env_clock := clock\<rparr>) sample_key
      (sv_list sample_server st (key_namespace sample_key))) st \<noteq> None" for st clock
    using sample_serves(1) [of "the_env\<lparr>env_clock := clock\<rparr>" sample_key st] sample_env_ok sample_sa by auto
  then show ?thesis unfolding grants_def by blast
qed

lemma reconciliation_retriggers_itself_witness:
  "\<exists>as t. ctl_exec sample_server the_env 4 (ctl_init 2048 ([aws_crb], Map.empty) [EvApply aws_crb]) as t \<and>
     no_failure as \<and> (\<forall>e. Change e \<notin> set as) \<and> count_list as (Done sample_key) = 1000 \<and> \<not> idle t"
proof (rule reconciliation_retriggers_itself [OF sample_laws sample_status_laws _ _ sample_event(1) _ _ sample_grants])
  show "merge_inputs (key_service_account_name sample_key)
      (bindings sample_server ([aws_crb], Map.empty) sample_key) = Inr merged_app"
    using merge_sample(2) by (simp add: sample_bindings) (simp add: sample_key_def)
  show "list_ex (\<lambda>crb. crb_name crb \<noteq> []) (bindings sample_server ([aws_crb], Map.empty) sample_key)"
    by (simp only: sample_bindings) (simp add: aws_crb_def make_crb_def crb_name_def)
qed simp_all

end
