(* ===== verification/End_To_End_Witnesses.thy ===== *)
theory End_To_End_Witnesses
  imports End_To_End Witnesses Control_Witnesses
begin

text \<open>The properties of \<open>End_To_End\<close> and \<open>Token_Trust\<close>, applied to concrete objects.\<close>

section \<open>After a run of the control loop\<close>

text \<open>An API server that answers readers from a state of the control loop's.\<close>

definition server_api :: "sample_store \<Rightarrow> kube_api" where
  "server_api st = (sample_api [] None None)
     \<lparr>api_get_rcrb_opt := \<lambda>_ ns sa. Inr (snd st \<lparr>key_namespace = ns, key_service_account_name = sa\<rparr>),
      api_get_rcrb := \<lambda>_ ns sa. ok_or (snd st \<lparr>key_namespace = ns, key_service_account_name = sa\<rparr>) ''NotFound''\<rparr>"

lemma server_api_reads: "reads_server (server_api st) sample_server (ctl_store (ctl_init buffer st []))"
  by (auto simp: reads_server_def server_api_def ctl_init_def res_ok_def ok_or_def split: option.split)

lemma merge_sample_bindings:
  assumes "list_all2 same_object [aws_crb] crbs"
  shows "merge_inputs ''app'' crbs = Inr merged_app" "list_all (valid_crb_spec \<circ> crb_spec) crbs"
proof -
  show "merge_inputs ''app'' crbs = Inr merged_app" using merge_same [OF assms] merge_sample(2) by metis
  show "list_all (valid_crb_spec \<circ> crb_spec) crbs"
    using assms valid_sample(1) by (auto simp: list_all2_Cons1 same_object_def stored_binding_def valid_crb_def)
qed

lemma pod_key_sample: "pod_key (create_request sample_pod) sample_pod = sample_key" "pod_sa_name sample_pod = ''app''"
  by (simp_all add: pod_key_def create_request_def pod_sa_name_def sample_pod_def sample_spec_def sample_key_def)

lemma admission_follows_bindings_witness:
  "\<exists>st resp. snd st sample_key \<noteq> None \<and>
     fst (handle sample_lib (server_api st) (sample_cfg FailMode) (create_request sample_pod) []) = Inr resp \<and>
     resp_allowed resp \<and> resp_patch resp \<noteq> None"
proof -
  obtain st where st: "lossless_reach sample_server the_env 2048 4 (ctl_init 2048 st [])"
    "list_all2 same_object [aws_crb] (bindings sample_server st sample_key)" "snd st sample_key \<noteq> None"
    using create_run by blast
  let ?s = "ctl_init 2048 st []"
  have store: "ctl_store ?s = st" by (simp add: ctl_init_def)
  have "\<exists>resp. fst (handle sample_lib (server_api st) (sample_cfg FailMode) (create_request sample_pod) []) = Inr resp \<and>
     (if sv_rcrb sample_server (ctl_store ?s) (pod_key (create_request sample_pod) sample_pod) = None
      then bindings sample_server (ctl_store ?s) (pod_key (create_request sample_pod) sample_pod) = [] \<and>
        resp_allowed resp \<and> resp_patch resp = None
      else admitted_by (sample_cfg FailMode) (merge_inputs (pod_sa_name sample_pod)
        (bindings sample_server (ctl_store ?s) (pod_key (create_request sample_pod) sample_pod))) resp)"
    by (rule admission_follows_bindings [OF sample_laws sample_env_ok st(1) init_idle server_api_reads
          sample_lib_laws(1,2) review_sample(1) _ review_sample(2)])
      (simp_all add: pod_key_sample sample_pod_spec sample_pod_fresh store merge_sample_bindings(2) [OF st(2)],
       simp add: create_request_def)
  then show ?thesis
    unfolding pod_key_sample store
    using st(3) merge_sample_bindings(1) [OF st(2)] by (intro exI [of _ st]) (auto simp: admitted_by_def)
qed

lemma mint_follows_bindings_witness:
  "\<exists>st obj. snd st sample_key = Some obj \<and> rcrb_spec obj = merged_app \<and>
     fst (mint sample_fed (server_api st) 0 0 sample_state sample_auth sample_request []) =
       MintJson \<lparr>minted_aws = Some \<lparr>token = sample_username, expires_in_seconds = token_ttl sample_aws\<rparr>\<rparr>"
proof -
  obtain st where st: "lossless_reach sample_server the_env 2048 4 (ctl_init 2048 st [])"
    "list_all2 same_object [aws_crb] (bindings sample_server st sample_key)" "snd st sample_key \<noteq> None"
    using create_run by blast
  let ?s = "ctl_init 2048 st []"
  have store: "ctl_store ?s = st" by (simp add: ctl_init_def)
  have req: "mint_namespace sample_request = ''default''" "mint_service_account_name sample_request = ''app''"
    by (simp_all add: sample_request_def)
  have key: "requested_key sample_request = sample_key"
    by (simp add: requested_key_def req sample_key_def)
  obtain obj where obj: "sv_rcrb sample_server (ctl_store ?s) (requested_key sample_request) = Some obj"
    "published the_env sample_key (bindings sample_server (ctl_store ?s) sample_key) obj"
    using settled_Some [OF lossless_settled [OF sample_laws sample_env_ok st(1) init_idle sample_sa]] st(3)
    by (auto simp: store key)
  have merged: "merge_inputs (mint_service_account_name sample_request)
      (bindings sample_server (ctl_store ?s) (requested_key sample_request)) = Inr merged_app"
    using merge_sample_bindings(1) [OF st(2)] by (simp add: req key store)
  then have spec: "rcrb_spec obj = merged_app"
    by (intro published_spec(1) [OF obj(2)]) (simp add: key req, simp add: sample_key_def)
  have aws: "prov_aws (rcrb_providers merged_app) = Some sample_aws" by (simp add: merged_app_def)
  have hash: "env_to_vec the_env merged_app = Inr ''{}''" "mint_config_hash sample_request = env_sha256_hex the_env ''{}''"
    by (simp_all add: sample_env_def sample_request_def)
  have sign: "sign_rs256 sample_fed (fed_signing sample_state)
      (token_claims 0 0 sample_state sample_username sample_request obj sample_aws) = Inr sample_username"
    by (simp add: sign_rs256_def sample_fed_def payload_sub token_claims_fields)
  have who: "caller (server_api st) [] sample_auth sample_username
      (mint_namespace sample_request) (mint_service_account_name sample_request)"
    using caller_sample by (simp add: req caller_def authenticates_def server_api_def)
  have "fst (mint sample_fed (server_api st) 0 0 sample_state sample_auth sample_request []) =
      MintJson \<lparr>minted_aws = Some \<lparr>token = sample_username, expires_in_seconds = token_ttl sample_aws\<rparr>\<rparr>"
    by (rule iffD2 [OF mint_follows_bindings [OF sample_laws sample_env_ok st(1) init_idle server_api_reads]])
      (use who merged aws hash obj(1) spec sign in blast)
  with obj(1) spec show ?thesis by (intro exI [of _ st] exI [of _ obj]) (simp add: store key)
qed

section \<open>From the Pod to the federation service\<close>

definition sample_kubelet :: "EnvVar list \<Rightarrow> environ" where
  "sample_kubelet env n =
     (case find (\<lambda>e. env_name e = n) (rev env) of
        None \<Rightarrow> None
      | Some e \<Rightarrow> (case env_value e of Some v \<Rightarrow> Some v | None \<Rightarrow> Some ''app-0''))"

lemma sample_kubelet_laws: "kubelet_laws sample_kubelet ''app-0''"
proof -
  have "sample_kubelet env n = Some v" if "effective_env env n = Some v" for env n v
    using that by (auto simp: sample_kubelet_def effective_env_def Option.bind_eq_Some_conv)
  moreover have "sample_kubelet env (env_name e) = Some ''app-0''"
    if "distinct (map env_name env)" "e \<in> set env" "env_value e = None" for env and e :: EnvVar
  proof -
    have "find (\<lambda>d. env_name d = env_name e) (rev env) \<noteq> None"
      using that(2) by (auto simp: find_None_iff)
    then obtain d where d: "find (\<lambda>d. env_name d = env_name e) (rev env) = Some d" by blast
    from find_Some_in [OF this] have "d \<in> set env" "env_name d = env_name e" by simp_all
    with that(1,2) have "d = e" by (simp add: distinct_map inj_on_def)
    with d that(3) show ?thesis by (simp add: sample_kubelet_def)
  qed
  ultimately show ?thesis unfolding kubelet_laws_def by blast
qed

lemma injected_agent_config_witness:
  "\<exists>cfg. agent_from_env (\<lambda>_. Inr ''default'') (sample_kubelet (env_of sample_agent)) = Inr cfg \<and>
     ag_port cfg = 5004 \<and> ag_federation_url cfg = ''http://kif-federation:5001'' \<and>
     sa_token_path cfg = ''/var/run/secrets/kubernetes.io/serviceaccount/token'' \<and>
     mint_request cfg = \<lparr>amr_namespace = ''default'', amr_service_account_name = ''app'',
       amr_config_hash = ''abc'', amr_pod_name = Some ''app-0''\<rparr>"
  unfolding sample_agent_def
proof (rule injected_agent_config [OF sample_kubelet_laws])
  have "trim ''default'' = ''default''" by code_simp
  then show "pod_namespace (\<lambda>_. Inr ''default'') = Inr ''default''" by (simp add: pod_namespace_def)
  show "CHR ''$'' \<notin> set ''app'' \<union> set ''abc'' \<union> set ''http://kif-federation:5001''" by simp
  show "sample_kubelet (env_of (build_agent_container ''kif-agent:1'' ''Always'' 5004
      ''http://kif-federation:5001'' ''app'' ''abc'')) ''SA_TOKEN_PATH'' = None"
    by (simp add: sample_kubelet_def env_of_def build_agent_container_def default_Container_def env_literal_def)
qed

text \<open>The federation service over a server with this resolved binding, and a client of it.\<close>

definition serving_post ::
  "('key, 'jwk, 'z) jwt_lib_scheme \<Rightarrow> string \<Rightarrow> ResolvedCloudRoleBinding \<Rightarrow> http_post" where
  "serving_post lib base r url bearer body =
     (let reply = fst (federation_serve sample_text lib (sample_api [] (Some r) None) 0 0 sample_state
            POST (drop (length (trim_end_char CHR ''/'' base)) url) (Some (bearer_prefix @ bearer)) body [])
      in Inr \<lparr>http_status = reply_status reply, http_text = Inr (reply_text sample_text reply)\<rparr>)"

lemma federation_sample:
  "federation_at lib (sample_api [] (Some r) None) 0 0 sample_state [] sample_alib url (serving_post lib url r)"
  by (simp add: federation_at_def connected_def sample_alib_def sample_reads_back serving_post_def Let_def)

lemma to_wire_sample: "to_wire (mint_request sample_agent_cfg) = sample_request"
  by (simp add: to_wire_def mint_request_def sample_agent_cfg_def sample_request_def)

lemma sample_username_text:
  "trim sample_username = sample_username" "sample_username \<noteq> []" "header_text sample_username"
proof -
  have "trim (sa_username ''default'' ''app'') = sa_username ''default'' ''app''"
    "sa_username ''default'' ''app'' \<noteq> []" "header_text (sa_username ''default'' ''app'')" by code_simp+
  then show "trim sample_username = sample_username" "sample_username \<noteq> []" "header_text sample_username"
    by (simp_all add: sample_username_def)
qed

lemma agent_token_iff_entitled_witness:
  "agent_mint sample_alib (serving_post sample_fed ''http://kif-federation:5001'' ready_rcrb) ''http://kif-federation:5001'' sample_username
       (mint_request sample_agent_cfg) =
     Inr \<lparr>amr_aws = Some \<lparr>amt_token = sample_username, amt_expires_in_seconds = token_ttl sample_aws\<rparr>\<rparr>"
proof -
  have "entitled sample_fed (sample_api [] (Some ready_rcrb) None) 0 0 sample_state
      (Some (bearer_prefix @ sample_username)) (to_wire (mint_request sample_agent_cfg)) []
      ready_rcrb sample_aws sample_username"
    using entitled_sample by (simp add: to_wire_sample sample_auth_def)
  then show ?thesis
    using agent_token_iff_entitled [OF federation_sample sample_username_text(3)] by blast
qed

text \<open>Configurations with their JSON texts as hashes: one injected, and one without a region.\<close>

definition text_env :: reconcile_env where
  "text_env = sample_env []\<lparr>env_to_vec := (\<lambda>s. Inr (jt_print sample_text (rcrb_spec_json s))),
     env_sha256_hex := (\<lambda>b. b)\<rparr>"

definition text_hash :: "ResolvedCloudRoleBindingSpec \<Rightarrow> string" where
  "text_hash s = jt_print sample_text (rcrb_spec_json s)"

definition hashed_rcrb :: "ResolvedCloudRoleBindingSpec \<Rightarrow> ResolvedCloudRoleBinding" where
  "hashed_rcrb s = ready_rcrb\<lparr>rcrb_spec := s, rcrb_status :=
     map_option (\<lambda>st. st\<lparr>config_hash := Some (text_hash s)\<rparr>) (rcrb_status ready_rcrb)\<rparr>"

definition changed_crb :: CloudRoleBinding where
  "changed_crb = make_crb ''one'' (Some (sample_aws\<lparr>aws_region := None\<rparr>)) None"

definition changed_app :: ResolvedCloudRoleBindingSpec where
  "changed_app = merged_app\<lparr>rcrb_providers := (rcrb_providers merged_app)
     \<lparr>prov_aws := Some (sample_aws\<lparr>aws_region := None\<rparr>)\<rparr>\<rparr>"

lemma merge_changed: "merge_inputs ''app'' [changed_crb] = Inr changed_app" "changed_app \<noteq> merged_app"
  by (simp_all add: merge_inputs_def merge_step_def merge_init_def provider_present_def changed_crb_def
      make_crb_def merge_aws_def merge_finish_def changed_app_def merged_app_def sample_aws_def)

lemma text_env_laws: "serde_env sample_text text_env" "\<not> collides sample_text text_env s s'"
  by (simp_all add: serde_env_def sample_reads_back text_env_def collides_def)

lemma hashed_simps: "status_hash (hashed_rcrb s) = Some (text_hash s)" "rcrb_spec (hashed_rcrb s) = s"
    "is_ready (hashed_rcrb s)" "rcrb_metadata (hashed_rcrb s) = rcrb_meta ''default'' ''app''"
  by (simp_all add: hashed_rcrb_def ready_rcrb_def status_hash_def is_ready_def)

lemma reports_hashed:
  "merge_inputs ''app'' crbs = Inr s \<Longrightarrow> reports text_env sample_key crbs (hashed_rcrb s)"
  by (simp add: reports_def sample_key_def hashed_simps text_env_def text_hash_def)


definition injected_cfg :: AgentConfig where
  "injected_cfg = sample_agent_cfg\<lparr>ag_config_hash := text_hash merged_app\<rparr>"

definition user_round :: "ResolvedCloudRoleBinding \<Rightarrow> round" where
  "user_round r = sample_round (serving_post sample_fed (ag_federation_url sample_agent_cfg) r)\<lparr>rd_sa_token := Inr sample_username\<rparr>"

lemma config_change_stops_agent_witness:
  "refresh_loop sample_alib injected_cfg (user_round (hashed_rcrb changed_app) # sample_rounds) (agent_init Map.empty) =
     (agent_init Map.empty, Some ''config hash mismatch'', [])"
proof -
  let ?r = "hashed_rcrb changed_app" and ?api = "sample_api [] (Some (hashed_rcrb changed_app)) None"
  have fed: "federation_at sample_fed ?api 0 0 sample_state [] sample_alib (ag_federation_url injected_cfg)
      (rd_post (user_round ?r))"
    by (simp add: user_round_def sample_round_def federation_sample injected_cfg_def)
  have token: "rd_sa_token (user_round ?r) = Inr sample_username" by (simp add: user_round_def)
  have "parse_service_account_username sample_username = Some (''default'', ''app'')"
    by (simp add: username_iff sample_username_def)
  then have own: "own_identity ?api [] injected_cfg (trim sample_username)"
    by (simp add: own_identity_def authenticates_sample sample_username_text injected_cfg_def sample_agent_cfg_def)
  have get: "api_get_rcrb ?api ([] @ [CreateTokenReview (trim sample_username)]) (ag_namespace injected_cfg)
      (ag_service_account_name injected_cfg) = Inr ?r"
    by (simp add: sample_api_def)
  have m: "merge_inputs (key_service_account_name sample_key) [aws_crb] = Inr merged_app"
    "merge_inputs (key_service_account_name sample_key) [changed_crb] = Inr changed_app"
    by (simp_all add: sample_key_def merge_sample merge_changed)
  have reps: "reports text_env sample_key [aws_crb] (hashed_rcrb merged_app)"
    "reports text_env sample_key [changed_crb] ?r"
    by (simp_all add: reports_hashed merge_sample merge_changed)
  have "trim sample_username \<noteq> []" "header_text (trim sample_username)"
    by (simp_all add: sample_username_text)
  moreover have "status_hash (hashed_rcrb merged_app) = Some (ag_config_hash injected_cfg)"
    by (simp add: hashed_simps injected_cfg_def)
  ultimately show ?thesis
    using config_change_stops_agent [OF fed token _ _ own get text_env_laws(1) reps m text_env_laws(2)]
      merge_changed(2) by simp
qed

lemma outdated_hash_mints_new_settings_witness:
  "\<exists>as t obj tok. ctl_exec sample_server the_env 4 (ctl_init 2048 ([], [sample_key \<mapsto> old_rcrb]) []) as t \<and>
     no_failure as \<and> sv_rcrb sample_server (ctl_store t) sample_key = Some obj \<and> rcrb_spec obj = merged_app \<and>
     mint_from_binding sample_fed 0 0 sample_state ''u'' (sample_request\<lparr>mint_config_hash := ''old''\<rparr>) obj =
       MintJson \<lparr>minted_aws = Some \<lparr>token = tok, expires_in_seconds = token_ttl sample_aws\<rparr>\<rparr> \<and>
     sign_rs256 sample_fed (fed_signing sample_state)
       (token_claims 0 0 sample_state ''u'' (sample_request\<lparr>mint_config_hash := ''old''\<rparr>) obj sample_aws) = Inr tok"
proof -
  obtain st2 where st2: "serves sample_server (butlast
      (plan the_env sample_key (sv_list sample_server ([aws_crb], [sample_key \<mapsto> old_rcrb]) (key_namespace sample_key))))
      ([aws_crb], [sample_key \<mapsto> old_rcrb]) = Some st2"
    using sample_serves(2) [OF sample_env_ok sample_sa] by blast
  show ?thesis
  proof (rule outdated_hash_mints_new_settings
      [OF sample_laws sample_env_ok ctl_reach.start init_idle _ _ sample_sa sample_event(1) _ st2])
    show "merge_inputs (key_service_account_name sample_key)
        (bindings sample_server ([aws_crb], [sample_key \<mapsto> old_rcrb]) sample_key) = Inr merged_app"
      using merge_sample(2) unfolding sample_bindings by (simp add: sample_key_def)
  qed (simp_all add: ctl_init_def merged_app_def sign_rs256_def sample_fed_def, use old_hash in \<open>simp add: sample_request_def\<close>)
qed

text \<open>The life of \<open>sample_rounds\<close>: nothing, a token, the end.\<close>

lemma trim_sample: "trim ''sa-token'' = ''sa-token''"
  by code_simp

lemma parse_sample:
  "parse_response sample_text (jt_print sample_text
       (JObj [(''aws'', JObj [(''token'', JStr ''jwt''), (''expiresInSeconds'', JNum 3600)])])) =
     Inr \<lparr>amr_aws = Some \<lparr>amt_token = ''jwt'', amt_expires_in_seconds = 3600\<rparr>\<rparr>"
proof -
  have "jt_parse sample_text (jt_print sample_text j) = Some j" for j
    by (simp add: sample_text_def)
  moreover have "dec_u64 (JNum 3600) = Some 3600" using u64.dec_enc [of 3600] by (simp add: enc_u64_def)
  ultimately show ?thesis
    by (simp add: parse_response_def agent_response_of_json_def agent_token_of_json_def field_defs)
qed

lemma sample_write: "\<not> write_fails sample_agent_cfg (sample_round post) aws"
proof -
  have "fst (run_ops (sample_io (\<lambda>_. None)) ops fs) = Inr ()" for ops fs
  proof (induction ops arbitrary: fs)
    case (Cons oc ops)
    obtain op ctx where "oc = (op, ctx)" by (cases oc)
    with Cons.IH show ?case by (simp only: fst_run_ops) (simp add: sample_io_def)
  qed simp
  then show ?thesis
    using token_path_sample by (simp add: write_fails_def sample_round_def atomic_write_def Let_def)
qed

lemma round_sample:
  "round_token sample_alib sample_agent_cfg (sample_round post) =
     Option.bind (res_ok (agent_mint sample_alib post (ag_federation_url sample_agent_cfg) ''sa-token''
       (mint_request sample_agent_cfg))) amr_aws"
  "fatal sample_alib sample_agent_cfg (sample_round post) \<longleftrightarrow>
     agent_mint sample_alib post (ag_federation_url sample_agent_cfg) ''sa-token'' (mint_request sample_agent_cfg) =
       Inl ConfigHashMismatch"
  using sample_write by (auto simp: round_token_def fatal_def told_stale_def sample_round_def trim_sample)

lemma mint_sample_rounds:
  "agent_mint sample_alib (\<lambda>_ _ _. Inl ''refused'') url b req = Inl (MintOther ''send mint request'')"
  "agent_mint sample_alib (answer 409 m) url b req = Inl ConfigHashMismatch"
  "agent_mint sample_alib (answer 200 (jt_print sample_text
     (JObj [(''aws'', JObj [(''token'', JStr ''jwt''), (''expiresInSeconds'', JNum 3600)])]))) url b req =
   Inr \<lparr>amr_aws = Some \<lparr>amt_token = ''jwt'', amt_expires_in_seconds = 3600\<rparr>\<rparr>"
proof -
  have "al_json sample_alib = sample_text" by (simp add: sample_alib_def)
  then show "agent_mint sample_alib (answer 200 (jt_print sample_text
     (JObj [(''aws'', JObj [(''token'', JStr ''jwt''), (''expiresInSeconds'', JNum 3600)])]))) url b req =
   Inr \<lparr>amr_aws = Some \<lparr>amt_token = ''jwt'', amt_expires_in_seconds = 3600\<rparr>\<rparr>"
    by (simp add: agent_mint_def Let_def answer_def parse_sample)
qed (simp_all add: agent_mint_def Let_def answer_def)

lemma tokens_sample:
  "tokens sample_alib sample_agent_cfg sample_rounds = [\<lparr>amt_token = ''jwt'', amt_expires_in_seconds = 3600\<rparr>]"
  unfolding sample_rounds_def by (simp only: tokens_simps round_sample mint_sample_rounds) simp

lemma startup_probe_means_token_witness:
  "\<exists>st e ss. refresh_loop sample_alib sample_agent_cfg sample_rounds (agent_init Map.empty) = (st, e, ss) \<and>
     agent_serve st GET ''/startupz'' = 200 \<and> ag_files st (aws_token_path sample_agent_cfg) = Some ''jwt''"
proof -
  obtain st e ss where
    run: "refresh_loop sample_alib sample_agent_cfg sample_rounds (agent_init Map.empty) = (st, e, ss)"
    by (metis prod_cases3)
  have "c_startup_probe (build_agent_container ''i'' ''Always'' 8080 ''u'' ''app'' ''h'') = Some
      \<lparr>pr_http_get = Some \<lparr>hg_path = Some ''/startupz'', hg_port = PortInt (uint (8080 :: u16)), hg_other = []\<rparr>,
       pr_failure_threshold = Some 30, pr_period_seconds = Some 10, pr_other = []\<rparr>"
    by (simp add: build_agent_container_def)
  from startup_probe_means_token [OF this _ _ token_path_sample run] run show ?thesis by (simp add: tokens_sample)
qed

section \<open>A relying party\<close>

text \<open>Values as texts of their numbers, in unary; a token is the encoded header, payload and key.\<close>

definition unary :: "'a::countable \<Rightarrow> string" where
  "unary x = replicate (to_nat x) CHR ''x''"

definition of_unary :: "string \<Rightarrow> 'a::countable" where
  "of_unary s = from_nat (length s)"

lemma of_unary [simp]: "of_unary (unary x) = x"
  by (simp add: unary_def of_unary_def)

lemma unary_text: "valid_utf8 (unary x)"
  by (rule ascii_valid) (simp add: ascii_def unary_def list_all_iff)

definition trust_fed :: "(string, (string \<times> string) list, nat) fed_lib" where
  "trust_fed = sample_fed
     \<lparr>jl_encode := \<lambda>h c k. Inr (unary (jwt_alg h, jwt_kid h, c, k)), jl_jwks_to_string := \<lambda>js. Inr (unary js)\<rparr>"

definition trust_ilib :: "((string \<times> string) list list, string) issuer_lib" where
  "trust_ilib = \<lparr>il_issuer_url = Inr, il_parse = (\<lambda>s. Inr (of_unary s)), il_keys = length,
     il_to_string = (\<lambda>js. Inr (unary js)), il_url = Inr\<rparr>"

definition trust_verifier :: verifier where
  "trust_verifier =
     \<lparr>vf_keys = (\<lambda>s. map map_of (of_unary s :: (string \<times> string) list list)),
      vf_open = (\<lambda>t. case (of_unary t :: string \<times> string option \<times> json \<times> string) of
        (a, i, c, _) \<Rightarrow> Some (\<lparr>jwt_alg = a, jwt_kid = i\<rparr>, c)),
      vf_check = (\<lambda>n e t. case (of_unary t :: string \<times> string option \<times> json \<times> string) of
        (_, _, _, key) \<Rightarrow> key = n)\<rparr>"

lemma trust_laws: "jose_laws trust_fed trust_ilib trust_verifier map_of"
  by (auto simp: jose_laws_def trust_fed_def sample_fed_def trust_ilib_def trust_verifier_def unary_text)

definition sample_host :: host where
  "sample_host =
     \<lparr>h_vars = [''ISSUER_URL'' \<mapsto> ''https://issuer''], h_read_file = (\<lambda>_. Inr ''kif''), h_kube_client = Inr (),
      h_http_client = Inr (), h_bind = (\<lambda>_. Inr ()), h_pem_file = (\<lambda>_ _. Inr ()), h_socket_addr = (\<lambda>_. Inr ())\<rparr>"

lemma started_sample:
  "\<exists>log. federation_start trust_fed Inr (sample_api [] None None) sample_host [] = (Inr sample_state, log)"
proof -
  have ns: "pod_namespace (\<lambda>_. Inr ''kif'') = Inr ''kif''"
  proof -
    have "trim ''kif'' = ''kif''" by code_simp
    then show ?thesis by (simp add: pod_namespace_def)
  qed
  have zero: "show_nat 0 = ''0''" by code_simp
  have key: "new_signing_material trust_fed 3072 log = Inr sample_material" for log
    by (simp add: new_signing_material_def trust_fed_def sample_fed_def sample_material_def zero)
  obtain json where "jwks_json_from_private_pem trust_fed sample_material = Inr json"
    by (simp add: jwks_json_from_private_pem_def trust_fed_def sample_fed_def)
  then have "\<exists>log. ensure_signing_and_jwks trust_fed (sample_api [] None None) ns sname jname 3072 [] =
      (Inr sample_material, log)" for ns sname jname
    by (simp add: ensure_run key sample_api_def Let_def publish_jwks_run)
  then obtain log where "ensure_signing_and_jwks trust_fed (sample_api [] None None) ''kif'' ''kif-signing'' ''kif-jwks'' 3072 [] =
      (Inr sample_material, log)" by blast
  then show ?thesis
    by (simp add: federation_start_def as_steps_def federation_from_env_def Let_def sample_host_def eff_bind_def ns
        rsa_bits_def sample_state_def)
qed

lemma obtained_token_verifies_witness:
  "\<exists>(aws :: AgentMintedToken) claims secret. \<forall>to_text cfg. \<exists>body.
     ir_body (issuer_serve trust_ilib to_text cfg (secret_event trust_ilib (Inr secret) None) GET ''/jwks.json'') = Some body \<and>
     verifies trust_verifier body (amt_token aws) (claims_json claims) \<and> sub claims = sample_username"
proof -
  obtain log where start: "federation_start trust_fed Inr (sample_api [] None None) sample_host [] = (Inr sample_state, log)"
    using started_sample by blast
  let ?api = "sample_api [] (Some ready_rcrb) None" and ?url = "''http://kif-federation:5001''"
  obtain t where "sign_rs256 trust_fed (fed_signing sample_state)
      (token_claims 0 0 sample_state sample_username sample_request ready_rcrb sample_aws) = Inr t"
    by (simp add: sign_rs256_def trust_fed_def sample_fed_def)
  moreover have "api_get_rcrb ?api log ns sa = Inr ready_rcrb" for log ns sa
    by (simp add: sample_api_def)
  moreover have "caller ?api [] sample_auth sample_username
      (mint_namespace sample_request) (mint_service_account_name sample_request)"
    by (simp add: sample_request_def caller_sample)
  ultimately have "entitled trust_fed ?api 0 0 sample_state sample_auth sample_request [] ready_rcrb sample_aws t"
    unfolding entitled_def by (intro exI [of _ sample_username]) (simp add: ready_rcrb_simps sample_request_def)
  then have "agent_mint sample_alib (serving_post trust_fed ?url ready_rcrb) ?url sample_username
      (mint_request sample_agent_cfg) =
    Inr (from_wire \<lparr>minted_aws = Some \<lparr>token = t, expires_in_seconds = token_ttl sample_aws\<rparr>\<rparr>)"
    unfolding federation_mint(2) [OF federation_sample sample_username_text(3)] mint_Json_iff to_wire_sample
    using sample_auth_def by metis
  from obtained_token_verifies [OF trust_laws start federation_sample sample_username_text(3) this]
  obtain secret and aws :: AgentMintedToken and claims where
    "\<forall>to_text cfg s. let reply = issuer_serve trust_ilib to_text cfg (secret_event trust_ilib (Inr secret) s) GET ''/jwks.json'' in
        ir_status reply = 200 \<and>
        (\<exists>body. ir_body reply = Some body \<and> verifies trust_verifier body (amt_token aws) (claims_json claims))"
    "authenticates ?api [] sample_username (sub claims)"
    by (elim exE conjE) (rule that)
  then show ?thesis
    unfolding authenticates_sample Let_def
    by (intro exI [of _ aws] exI [of _ claims] exI [of _ secret] allI) blast
qed

end
