(* ===== verification/Unit_Tests.thy ===== *)
theory Unit_Tests
  imports Wire
begin

text \<open>
  The unit tests of the repository, run on the model: the helpers that build the inputs and, for
  every test, its assertions as a bool-valued definition with a lemma that they hold. What a
  test takes from its surroundings (clock, random numbers, JSON text, an HTTP server) is a
  parameter, with the law the test relies on as a hypothesis of the lemma.
\<close>

fun contains :: "string \<Rightarrow> string \<Rightarrow> bool" where
  "contains [] pat = (pat = [])"
| "contains (c # s) pat = (starts_with (c # s) pat \<or> contains s pat)"

section \<open>\<open>kif-webhook/src/merge.rs\<close>\<close>

definition make_crb_test ::
  "string \<Rightarrow> AwsProviderSpec option \<Rightarrow> AttributesSpec option \<Rightarrow> CloudRoleBinding" where
  "make_crb_test name aws attributes =
     \<lparr>crb_metadata = default_ObjectMeta\<lparr>meta_name := Some name\<rparr>,
      crb_spec = \<lparr>crb_subject = \<lparr>service_account_name = ''my-sa''\<rparr>, crb_attributes = attributes,
        crb_providers = default_ProvidersSpec\<lparr>prov_aws := aws\<rparr>\<rparr>,
      crb_status = None\<rparr>"

definition aws_spec :: AwsProviderSpec where
  "aws_spec =
     \<lparr>role_arn = ''arn:aws:iam::123456789012:role/my-role'', aws_region = None,
      sts_regional_endpoints = True, aws_audience = None, max_session_duration_seconds = None\<rparr>"

definition azure_spec :: AzureProviderSpec where
  "azure_spec =
     \<lparr>tenant_id = ''00000000-0000-0000-0000-000000000000'',
      client_id = ''00000000-0000-0000-0000-000000000001'', azure_audience = None\<rparr>"

definition azure_crb_test :: "string \<Rightarrow> AttributesSpec \<Rightarrow> CloudRoleBinding" where
  "azure_crb_test name attributes =
     \<lparr>crb_metadata = default_ObjectMeta\<lparr>meta_name := Some name\<rparr>,
      crb_spec = \<lparr>crb_subject = \<lparr>service_account_name = ''my-sa''\<rparr>, crb_attributes = Some attributes,
        crb_providers = \<lparr>prov_aws = None, prov_azure = Some azure_spec, prov_gcp = None\<rparr>\<rparr>,
      crb_status = None\<rparr>"

definition single_crb_aws_ok :: bool where
  "single_crb_aws_ok \<longleftrightarrow>
     (case merge_inputs ''my-sa'' [make_crb_test ''crb1'' (Some aws_spec) None] of
        Inl _ \<Rightarrow> False
      | Inr spec \<Rightarrow>
          service_account_name (rcrb_subject spec) = ''my-sa'' \<and>
          (case prov_aws (rcrb_providers spec) of
             None \<Rightarrow> False | Some aws \<Rightarrow> role_arn aws = role_arn aws_spec))"

definition missing_provider :: bool where
  "missing_provider \<longleftrightarrow>
     (case merge_inputs ''my-sa'' [make_crb_test ''crb-no-provider'' None None] of
        Inr _ \<Rightarrow> False
      | Inl err \<Rightarrow>
          issue_condition_type err = InvalidSpec \<and> issue_reason err = ValidationFailed \<and>
          ''crb-no-provider'' \<in> set (affected_crb_names err))"

definition aws_provider_conflict :: bool where
  "aws_provider_conflict \<longleftrightarrow>
     (case merge_inputs ''my-sa''
        [make_crb_test ''crb1'' (Some aws_spec) None, make_crb_test ''crb2'' (Some aws_spec) None] of
        Inr _ \<Rightarrow> False
      | Inl err \<Rightarrow>
          issue_condition_type err = Conflict \<and> issue_reason err = ProviderConflict \<and>
          ''crb1'' \<in> set (affected_crb_names err) \<and> ''crb2'' \<in> set (affected_crb_names err))"

definition include_provenance_conflict :: bool where
  "include_provenance_conflict \<longleftrightarrow>
     (case merge_inputs ''my-sa''
        [make_crb_test ''crb-a'' (Some aws_spec) (Some \<lparr>include_provenance = Some True, extra_attrs = None\<rparr>),
         azure_crb_test ''crb-b'' \<lparr>include_provenance = Some False, extra_attrs = None\<rparr>] of
        Inr _ \<Rightarrow> False
      | Inl err \<Rightarrow> issue_condition_type err = Conflict \<and> issue_reason err = AttributeConflict)"

definition extra_key_conflict :: bool where
  "extra_key_conflict \<longleftrightarrow>
     (let extra1 = bt_insert ''env'' ''prod'' []; extra2 = bt_insert ''env'' ''staging'' [] in
      case merge_inputs ''my-sa''
        [make_crb_test ''crb1'' (Some aws_spec) (Some \<lparr>include_provenance = None, extra_attrs = Some extra1\<rparr>),
         azure_crb_test ''crb2'' \<lparr>include_provenance = None, extra_attrs = Some extra2\<rparr>] of
        Inr _ \<Rightarrow> False
      | Inl err \<Rightarrow>
          issue_condition_type err = Conflict \<and> issue_reason err = AttributeConflict \<and>
          contains (issue_message err) ''env'')"

definition no_providers_after_merge :: bool where
  "no_providers_after_merge \<longleftrightarrow>
     (case merge_inputs ''my-sa'' [] of
        Inr _ \<Rightarrow> False
      | Inl err \<Rightarrow> issue_condition_type err = InvalidSpec \<and> issue_reason err = ValidationFailed)"

lemma merge_tests:
  single_crb_aws_ok missing_provider aws_provider_conflict include_provenance_conflict
  extra_key_conflict no_providers_after_merge
  by code_simp+

section \<open>\<open>kif-webhook/src/mutate.rs\<close>\<close>

definition default_PodSpec :: PodSpec where
  "default_PodSpec =
     \<lparr>ps_service_account_name = None, ps_automount_service_account_token = None, ps_volumes = None,
      ps_init_containers = None, ps_containers = [], ps_other = []\<rparr>"

definition default_Pod :: Pod where
  "default_Pod = \<lparr>pod_metadata = default_ObjectMeta, pod_spec = None, pod_other = []\<rparr>"

definition make_pod :: "string list \<Rightarrow> string list option \<Rightarrow> Pod" where
  "make_pod names init_names =
     default_Pod\<lparr>pod_spec := Some (default_PodSpec
       \<lparr>ps_containers := map default_Container names,
        ps_init_containers := map_option (map default_Container) init_names\<rparr>)\<rparr>"

definition pod_has_container_finds_main_container :: bool where
  "pod_has_container_finds_main_container \<longleftrightarrow>
     (let pod = make_pod [''app'', ''sidecar''] None in
      pod_has_container pod ''app'' \<and> pod_has_container pod ''sidecar'' \<and>
      \<not> pod_has_container pod ''missing'')"

definition pod_has_container_finds_init_container :: bool where
  "pod_has_container_finds_init_container \<longleftrightarrow>
     (let pod = make_pod [''app''] (Some [''init-job'']) in
      pod_has_container pod ''init-job'' \<and> \<not> pod_has_container pod ''missing'')"

definition pod_has_container_no_spec_returns_false :: bool where
  "pod_has_container_no_spec_returns_false \<longleftrightarrow> \<not> pod_has_container default_Pod ''anything''"

definition upsert_env_adds_new_var :: bool where
  "upsert_env_adds_new_var \<longleftrightarrow>
     (let env = upsert_env [] ''FOO'' ''bar'' in
      length env = 1 \<and> env_name (env ! 0) = ''FOO'' \<and> env_value (env ! 0) = Some ''bar'')"

definition upsert_env_updates_existing_without_duplicate :: bool where
  "upsert_env_updates_existing_without_duplicate \<longleftrightarrow>
     (let env = upsert_env [env_literal ''FOO'' ''old''] ''FOO'' ''new'' in
      length env = 1 \<and> env_value (env ! 0) = Some ''new'')"

lemma mutate_tests:
  pod_has_container_finds_main_container pod_has_container_finds_init_container
  pod_has_container_no_spec_returns_false upsert_env_adds_new_var
  upsert_env_updates_existing_without_duplicate
  by code_simp+

section \<open>\<open>kif-federation/src/jwt.rs\<close> and \<open>k8s.rs\<close>\<close>

text \<open>The clock is read before the claims are made, twice in between, and afterwards.\<close>

definition test_claims :: "SystemTime \<Rightarrow> SystemTime \<Rightarrow> bool \<Rightarrow> string option \<Rightarrow> (string, string) btree option \<Rightarrow> json" where
  "test_claims t1 t2 prov pod extra =
     claims_json (new_claims t1 t2 ''https://issuer.example.com'' ''system:serviceaccount:default:my-sa''
       ''sts.amazonaws.com'' 3600 prov ''default'' ''my-sa'' pod extra)"

definition is_object :: "json option \<Rightarrow> bool" where
  "is_object j = (case j of Some (JObj _) \<Rightarrow> True | _ \<Rightarrow> False)"

definition as_u64 :: "json option \<Rightarrow> u64 option" where
  "as_u64 j = Option.bind j dec_u64"

definition aws_claims_with_provenance_includes_kif_k8s ::
  "SystemTime \<Rightarrow> SystemTime \<Rightarrow> SystemTime \<Rightarrow> SystemTime \<Rightarrow> bool" where
  "aws_claims_with_provenance_includes_kif_k8s t0 t1 t2 t3 \<longleftrightarrow>
     (let before = now_unix_seconds t0; after = now_unix_seconds t3;
          v = test_claims t1 t2 True (Some ''my-pod'') None in
      json_at v [''iss''] = Some (JStr ''https://issuer.example.com'') \<and>
      json_at v [''sub''] = Some (JStr ''system:serviceaccount:default:my-sa'') \<and>
      json_at v [''aud''] = Some (JStr ''sts.amazonaws.com'') \<and>
      (case as_u64 (json_at v [''iat'']) of None \<Rightarrow> False | Some i \<Rightarrow> before \<le> i \<and> i \<le> after) \<and>
      (case as_u64 (json_at v [''exp'']) of
         None \<Rightarrow> False | Some e \<Rightarrow> before + 3600 \<le> e \<and> e \<le> after + 3600) \<and>
      is_object (json_at v [''kif'', ''k8s'']) \<and>
      json_at v [''kif'', ''k8s'', ''namespace''] = Some (JStr ''default'') \<and>
      json_at v [''kif'', ''k8s'', ''service_account''] = Some (JStr ''my-sa'') \<and>
      json_at v [''kif'', ''k8s'', ''pod''] = Some (JStr ''my-pod''))"

definition aws_claims_without_provenance_omits_kif :: "SystemTime \<Rightarrow> SystemTime \<Rightarrow> bool" where
  "aws_claims_without_provenance_omits_kif t1 t2 \<longleftrightarrow>
     json_at (test_claims t1 t2 False None None) [''kif''] = None"

definition aws_claims_without_provenance_with_extra_attrs_includes_kif_but_no_k8s ::
  "SystemTime \<Rightarrow> SystemTime \<Rightarrow> bool" where
  "aws_claims_without_provenance_with_extra_attrs_includes_kif_but_no_k8s t1 t2 \<longleftrightarrow>
     (let v = test_claims t1 t2 False None (Some (bt_insert ''team'' ''platform'' [])) in
      is_object (json_at v [''kif'']) \<and> json_at v [''kif'', ''k8s''] = None \<and>
      json_at v [''kif'', ''attributes'', ''team''] = Some (JStr ''platform''))"

lemma as_u64_enc [simp]: "as_u64 (Some (enc_u64 w)) = Some w"
  by (simp add: as_u64_def u64.dec_enc)

text \<open>The tests hold until the seconds leave the range of \<open>u64\<close>.\<close>

lemma jwt_test_provenance:
  assumes "0 \<le> t0" "t0 \<le> t1" "t1 \<le> t3" "t3 < 2 ^ 63 * 10 ^ 9"
  shows "aws_claims_with_provenance_includes_kif_k8s t0 t1 t2 t3"
proof -
  have u: "unat (now_unix_seconds t) = nat t div 10 ^ 9" "nat t div 10 ^ 9 < 2 ^ 63"
    if "0 \<le> t" "t \<le> t3" for t
  proof -
    have "nat t < 2 ^ 63 * 10 ^ 9" using that assms(4) by simp
    then show "nat t div 10 ^ 9 < 2 ^ 63" by (simp add: div_less_iff_less_mult)
    then show "unat (now_unix_seconds t) = nat t div 10 ^ 9"
      by (simp add: now_unix_seconds_def unat_of_nat)
  qed
  have add: "unat (now_unix_seconds t + 3600) = nat t div 10 ^ 9 + 3600" if "0 \<le> t" "t \<le> t3" for t
    using word_add_lifetime(1) [of "now_unix_seconds t" 3600] u [OF that] by simp
  have order: "nat t0 div 10 ^ 9 \<le> nat t1 div 10 ^ 9" "nat t1 div 10 ^ 9 \<le> nat t3 div 10 ^ 9"
    using assms by (simp_all add: div_le_mono nat_mono)
  have issued: "now_unix_seconds t0 \<le> now_unix_seconds t1" "now_unix_seconds t1 \<le> now_unix_seconds t3"
    using order u assms by (simp_all add: word_le_nat_alt)
  have expires: "now_unix_seconds t0 + 3600 \<le> now_unix_seconds t1 + 3600"
    "now_unix_seconds t1 + 3600 \<le> now_unix_seconds t3 + 3600"
    using order add assms by (simp_all add: word_le_nat_alt)
  show ?thesis
    using issued expires by (simp add: aws_claims_with_provenance_includes_kif_k8s_def test_claims_def Let_def
        claims_json_def claims_kif kif_json_def k8s_json_def is_object_def)
qed

lemma jwt_tests:
  "aws_claims_without_provenance_omits_kif t1 t2"
  "aws_claims_without_provenance_with_extra_attrs_includes_kif_but_no_k8s t1 t2"
  by (simp_all add: aws_claims_without_provenance_omits_kif_def Let_def test_claims_def claims_json_def
      aws_claims_without_provenance_with_extra_attrs_includes_kif_but_no_k8s_def claims_kif kif_json_def
      is_object_def enc_map_def)

definition parse_sa_username_valid :: bool where
  "parse_sa_username_valid \<longleftrightarrow>
     parse_service_account_username ''system:serviceaccount:default:my-sa'' = Some (''default'', ''my-sa'')"

definition parse_sa_username_wrong_prefix :: bool where
  "parse_sa_username_wrong_prefix \<longleftrightarrow>
     parse_service_account_username ''user:admin'' = None \<and>
     parse_service_account_username ''serviceaccount:default:my-sa'' = None"

definition parse_sa_username_missing_sa_part :: bool where
  "parse_sa_username_missing_sa_part \<longleftrightarrow>
     parse_service_account_username ''system:serviceaccount:default'' = None"

definition parse_sa_username_empty_parts :: bool where
  "parse_sa_username_empty_parts \<longleftrightarrow>
     parse_service_account_username ''system:serviceaccount::my-sa'' = None \<and>
     parse_service_account_username ''system:serviceaccount:default:'' = None"

lemma username_tests:
  parse_sa_username_valid parse_sa_username_wrong_prefix parse_sa_username_missing_sa_part
  parse_sa_username_empty_parts
  by code_simp+

section \<open>\<open>kif-agent\<close>\<close>

text \<open>\<open>draw\<close> is the random number generator.\<close>

definition compute_sleep_normal_case :: "(u64 \<Rightarrow> u64) \<Rightarrow> bool" where
  "compute_sleep_normal_case draw \<longleftrightarrow> compute_sleep_seconds draw 3600 300 60 0 = 3300"

definition compute_sleep_saturating_skew_clamps_to_min :: "(u64 \<Rightarrow> u64) \<Rightarrow> bool" where
  "compute_sleep_saturating_skew_clamps_to_min draw \<longleftrightarrow> compute_sleep_seconds draw 100 200 60 0 = 60"

definition compute_sleep_never_below_min :: "(u64 \<Rightarrow> u64) \<Rightarrow> bool" where
  "compute_sleep_never_below_min draw \<longleftrightarrow> compute_sleep_seconds draw 0 0 30 0 = 30"

definition compute_jitter_zero_when_max_zero :: "(u64 \<Rightarrow> u64) \<Rightarrow> bool" where
  "compute_jitter_zero_when_max_zero draw \<longleftrightarrow> compute_jitter draw 0 = 0"

definition compute_jitter_within_range :: "(u64 \<Rightarrow> u64) list \<Rightarrow> bool" where
  "compute_jitter_within_range draws \<longleftrightarrow> list_all (\<lambda>draw. compute_jitter draw 60 \<le> 60) draws"

lemma sleep_tests:
  "compute_sleep_normal_case draw" "compute_sleep_saturating_skew_clamps_to_min draw"
  "compute_sleep_never_below_min draw" "compute_jitter_zero_when_max_zero draw"
  "\<forall>draw \<in> set draws. draw 60 \<le> 60 \<Longrightarrow> compute_jitter_within_range draws"
  by (simp_all add: compute_sleep_normal_case_def compute_sleep_saturating_skew_clamps_to_min_def
      compute_sleep_never_below_min_def compute_jitter_zero_when_max_zero_def compute_jitter_within_range_def
      compute_sleep_seconds_def compute_jitter_def sat_sub_def list_all_iff max_def)

text \<open>The mock of the federation service checks what the test expects it to have seen.\<close>

definition mock_reply :: json where
  "mock_reply = JObj
     [(''aws'', JObj [(''token'', JStr ''MOCK_AWS_TOKEN''), (''expiresInSeconds'', JNum 3600)])]"

definition seen_as_expected :: "string \<Rightarrow> json \<Rightarrow> bool" where
  "seen_as_expected auth body \<longleftrightarrow>
     auth = ''Bearer DUMMY_SA_TOKEN'' \<and>
     json_at body [''namespace''] = Some (JStr ''default'') \<and>
     json_at body [''serviceAccountName''] = Some (JStr ''app'') \<and>
     json_at body [''configHash''] = Some (JStr ''abc123'')"

definition mock_mint :: "json_text \<Rightarrow> string \<Rightarrow> http_post" where
  "mock_mint jt base url bearer body =
     (if url \<noteq> base @ ''/v1/mint'' then Inr \<lparr>http_status = 404, http_text = Inr []\<rparr>
      else (case jt_parse jt body of
          None \<Rightarrow> Inr \<lparr>http_status = 400, http_text = Inr []\<rparr>
        | Some j \<Rightarrow>
            if seen_as_expected (bearer_prefix @ bearer) j
            then Inr \<lparr>http_status = 200, http_text = Inr (jt_print jt mock_reply)\<rparr>
            else Inr \<lparr>http_status = 500, http_text = Inr []\<rparr>))"

definition mint_once_and_write ::
  "agent_lib \<Rightarrow> http_post \<Rightarrow> (MintError \<Rightarrow> error) \<Rightarrow> fs_env \<Rightarrow> string \<Rightarrow> string \<Rightarrow> string \<Rightarrow> string \<Rightarrow>
     string res \<Rightarrow> string \<Rightarrow> files \<Rightarrow> unit res \<times> files" where
  "mint_once_and_write lib post show_err io url ns sa hash sa_text path fs =
     (case sa_text of
        Inl e \<Rightarrow> (Inl e, fs)
      | Inr text \<Rightarrow>
          let sa_token = trim text in
          if sa_token = [] then (Inl ''ServiceAccount token file was empty'', fs)
          else (case agent_mint lib post url sa_token
                  \<lparr>amr_namespace = ns, amr_service_account_name = sa, amr_config_hash = hash, amr_pod_name = None\<rparr> of
              Inl e \<Rightarrow> (Inl (show_err e), fs)
            | Inr resp \<Rightarrow>
                (case amr_aws resp of
                   None \<Rightarrow> (Inl ''no AWS token returned'', fs)
                 | Some aws \<Rightarrow>
                     (case atomic_write io path (amt_token aws) fs of (r, fs, _) \<Rightarrow> (r, fs)))))"

definition mint_once_writes_token_and_sends_expected_request ::
  "agent_lib \<Rightarrow> (MintError \<Rightarrow> error) \<Rightarrow> fs_env \<Rightarrow> string \<Rightarrow> string \<Rightarrow> files \<Rightarrow> bool" where
  "mint_once_writes_token_and_sends_expected_request lib show_err io base path fs \<longleftrightarrow>
     (case mint_once_and_write lib (mock_mint (al_json lib) base) show_err io base ''default'' ''app'' ''abc123''
          (Inr ''DUMMY_SA_TOKEN'') path fs of
        (r, fs') \<Rightarrow> r = Inr () \<and> fs' path = Some ''MOCK_AWS_TOKEN'')"

lemma mint_once_test:
  assumes "reads_back (al_json lib)" "trim_end_char CHR ''/'' base = base" "file_name path \<noteq> None"
    and "\<And>op. fs_error io op = None"
  shows "mint_once_writes_token_and_sends_expected_request lib show_err io base path fs"
proof -
  let ?req = "\<lparr>amr_namespace = ''default'', amr_service_account_name = ''app'', amr_config_hash = ''abc123'',
    amr_pod_name = None\<rparr> :: AgentMintRequest"
  let ?resp = "\<lparr>amr_aws = Some \<lparr>amt_token = ''MOCK_AWS_TOKEN'', amt_expires_in_seconds = 3600\<rparr>\<rparr>"
  have seen: "seen_as_expected (bearer_prefix @ ''DUMMY_SA_TOKEN'') (agent_request_json ?req)"
    by (simp add: seen_as_expected_def bearer_prefix_def agent_request_json_def)
  have depth: "json_depth mock_reply \<le> 127" by (simp add: mock_reply_def)
  have parse: "parse_response (al_json lib) (jt_print (al_json lib) mock_reply) = Inr ?resp"
    by (simp add: parse_response_def reads_backD [OF assms(1) depth])
      (simp add: mock_reply_def agent_response_of_json_def agent_token_of_json_def field_defs)
  have "posted lib (mock_mint (al_json lib) base) base ''DUMMY_SA_TOKEN'' ?req =
      Inr \<lparr>http_status = 200, http_text = Inr (jt_print (al_json lib) mock_reply)\<rparr>"
    unfolding posted_def mock_mint_def assms(2) reads_backD [OF assms(1) message_depths(1)] using seen by simp
  with parse have mint: "agent_mint lib (mock_mint (al_json lib) base) base ''DUMMY_SA_TOKEN'' ?req = Inr ?resp"
    by (simp add: agent_mint_Inr)
  have token: "trim ''DUMMY_SA_TOKEN'' = ''DUMMY_SA_TOKEN''" by code_simp
  obtain r fs' seen' where w: "atomic_write io path ''MOCK_AWS_TOKEN'' fs = (r, fs', seen')" by (metis prod_cases3)
  have "r = Inr ()" using w assms(4) by (auto simp: atomic_write_def Let_def split: option.splits)
  with atomic_write_run [OF assms(3) w] w mint token show ?thesis
    by (simp add: mint_once_writes_token_and_sends_expected_request_def mint_once_and_write_def)
qed

section \<open>\<open>kif-issuer\<close>\<close>

definition test_cfg :: "string \<Rightarrow> issuer_config" where
  "test_cfg base =
     \<lparr>iss_issuer_url = base, running_in_cluster = False, iss_port = 0, jwks_secret_name = [], jwks_file_path = []\<rparr>"

definition serves_endpoints ::
  "('jwks, 'url) issuer_lib \<Rightarrow> ('url ProviderMetadata \<Rightarrow> string) \<Rightarrow> string \<Rightarrow> 'jwks \<Rightarrow> bool" where
  "serves_endpoints lib to_text base jwks \<longleftrightarrow>
     (let s = store_set jwks store_new;
          get = issuer_serve lib to_text (test_cfg base) s GET in
      ir_status (get ''/startupz'') = 200 \<and>
      ir_status (get ''/jwks.json'') = 200 \<and>
      (case ir_body (get ''/jwks.json'') of
         None \<Rightarrow> False | Some body \<Rightarrow> contains body ''\"kid\":\"test-kid\"'') \<and>
      ir_status (get ''/.well-known/openid-configuration'') = 200 \<and>
      (case openid_discovery_doc lib (test_cfg base) of
         Inl _ \<Rightarrow> False
       | Inr (_, doc) \<Rightarrow>
           pm_issuer doc = base \<and> Inr (pm_jwks_uri doc) = il_url lib (base @ ''/jwks.json'') \<and>
           ir_body (get ''/.well-known/openid-configuration'') = Some (to_text doc)))"

lemma issuer_test:
  assumes "il_to_string lib jwks = Inr text" "contains text ''\"kid\":\"test-kid\"''"
    and "\<And>u. is_ok (il_url lib u)"
  shows "serves_endpoints lib to_text base jwks"
proof -
  obtain a j where "il_url lib (base @ ''/authorize'') = Inr a" "il_url lib (base @ ''/jwks.json'') = Inr j"
    using assms(3) by (metis is_okE)
  with assms(1,2) show ?thesis
    by (simp add: serves_endpoints_def Let_def issuer_serve_def dispatch_def issuer_router_def
        issuer_startupz_def is_loaded_def store_set_def get_jwks_def store_get_def status_only_def
        openid_discovery_doc_def test_cfg_def)
qed

definition empty_jwks_text :: string where
  "empty_jwks_text = ''{\"keys\":[]}''"

definition parse_jwks_empty_keys_rejected :: "('jwks, 'url) issuer_lib \<Rightarrow> bool" where
  "parse_jwks_empty_keys_rejected lib \<longleftrightarrow>
     (case parse_jwks lib empty_jwks_text of Inr _ \<Rightarrow> False | Inl e \<Rightarrow> contains e ''empty JWKS'')"

definition parse_jwks_invalid_json_rejected :: "('jwks, 'url) issuer_lib \<Rightarrow> bool" where
  "parse_jwks_invalid_json_rejected lib \<longleftrightarrow> \<not> is_ok (parse_jwks lib ''not json at all'')"

text \<open>The JSON reader finds no key in the one document and none at all in the other.\<close>

lemma jwks_tests:
  assumes "il_parse lib empty_jwks_text = Inr jwks" "il_keys lib jwks = 0"
    and "\<not> is_ok (il_parse lib ''not json at all'')"
  shows "parse_jwks_empty_keys_rejected lib" "parse_jwks_invalid_json_rejected lib"
proof -
  have "from_utf8 empty_jwks_text = Inr empty_jwks_text" by code_simp
  then have "parse_jwks lib empty_jwks_text = Inl ''attempted to set empty JWKS; ignoring''"
    using assms(1,2) by (simp add: parse_jwks_def)
  moreover have "contains ''attempted to set empty JWKS; ignoring'' ''empty JWKS''" by code_simp
  ultimately show "parse_jwks_empty_keys_rejected lib" by (simp add: parse_jwks_empty_keys_rejected_def)
  have "from_utf8 ''not json at all'' = Inr ''not json at all''" by code_simp
  with assms(3) show "parse_jwks_invalid_json_rejected lib"
    by (auto simp: parse_jwks_invalid_json_rejected_def parse_jwks_def is_ok_def split: sum.splits)
qed

end
