(* ===== verification/Spec2Isabelle.thy ===== *)
theory Spec2Isabelle
  imports End_To_End_Witnesses Unit_Tests
begin

text \<open>
  A model of the Rust workspace \<open>src/app\<close>, which gives the Pods of a Kubernetes cluster
  short-lived credentials of a cloud provider, and proofs about it. Paths below are relative
  to \<open>src/app/crates\<close>.

  \<^bold>\<open>The program.\<close> A developer describes in a \<open>CloudRoleBinding\<close> which cloud role a
  ServiceAccount may take. Five programs share the work.

    \<^item> \<open>kif-webhook\<close> watches these objects. For every ServiceAccount an event concerns, a worker
      merges all its bindings into one \<open>ResolvedCloudRoleBinding\<close>, whose status carries a hash
      of the merged configuration. As an admission webhook it reads the resolved binding of a
      new Pod's ServiceAccount, denies the Pod or adds an agent container, volumes and AWS
      variables to it.
    \<^item> \<open>kif-agent\<close>, the added container, sends the token of its ServiceAccount and the hash it
      was started with to the federation service, writes the token it gets to a file shared
      with the application, and repeats this before the token expires.
    \<^item> \<open>kif-federation\<close> authenticates the agent with a \<open>TokenReview\<close>, looks up the resolved
      binding, compares the hashes and signs a token (a JWT). Its signing key and the matching
      key set (a JWKS) are kept in two Secrets it creates at its start.
    \<^item> \<open>kif-issuer\<close> serves the key set, and the OpenID discovery document that names it, to the
      cloud provider, which checks the signature of the token with it.
    \<^item> \<open>kif-crdgen\<close> writes the CRDs of \<open>kif-api\<close> into the Helm chart.

  \<^bold>\<open>How the model is built.\<close> A Rust struct is a record and an enum a datatype, a String a list
  of characters, \<open>u16\<close>, \<open>u32\<close> and \<open>u64\<close> are words, a \<open>BTreeMap\<close> is the list of its entries in key
  order. \<open>Result\<close> is \<open>string + 'a\<close> with the error message on the left, so every \<open>?\<close>, \<open>bail!\<close>
  and early return is a branch. An operation on the API server is a function from the log of
  the requests made so far to its result and the longer log; what the server answers is a
  parameter that may depend on the whole log (theory Kube). What runs concurrently, that is
  the API server with its users, the watcher, the queue and the workers, is an inductive step
  relation whose steps interleave (Control_Loop); the refresh loop of the agent is a function
  of the list of rounds it meets, and the loader of the issuer, whose loop has no bound in the
  code, a \<open>partial_function\<close>.

  \<^bold>\<open>The theories\<close>, each with a text on what it holds.

    \<^item> Shared: Prelude (\<open>Result\<close>, words), Rust_Strings (\<open>str\<close>), BTree_Map, Utf8, Paths, Json (values
      and what serde derives for a struct), Environment (\<open>std::env\<close>, \<open>kif-api/src/shared.rs\<close>),
      Kube (the API server).
    \<^item> \<open>kif-api/src/crds.rs\<close>: Crds (the types), Crd_Json (their JSON), Schema (the constraints of
      the schema, the naming rules, and how far reconciliations keep them), Config_Hash.
    \<^item> \<open>kif-webhook\<close>, the control loop: Merge and Merge_Status (\<open>merge.rs\<close>), Queue (\<open>queue.rs\<close>),
      Reconcile, Reconcile_Plan, Controller and Control_Loop (\<open>reconcile.rs\<close>); on its runs,
      Convergence (when no change is lost), Lost_Updates and Self_Trigger (when one is, and when
      the loop does not come to rest).
    \<^item> \<open>kif-webhook\<close>, admission: Pods (the types), Mutate (\<open>mutate.rs\<close>), Admission (\<open>admission.rs\<close>,
      \<open>http.rs\<close>, the event of \<open>k8s.rs\<close>), Webhook_Config (\<open>config.rs\<close>).
    \<^item> \<open>kif-federation\<close>: Jwt (\<open>jwt.rs\<close>), Federation_K8s (\<open>k8s.rs\<close>), Federation (\<open>config.rs\<close>, \<open>http.rs\<close>).
    \<^item> \<open>kif-agent\<close>: Agent_Files (\<open>atomic_write\<close>), Agent (\<open>config.rs\<close>, \<open>federation.rs\<close>, the loop
      of \<open>main.rs\<close>).
    \<^item> \<open>kif-issuer\<close>: Issuer (\<open>config.rs\<close>, \<open>jwks.rs\<close>, \<open>kube_watch.rs\<close>, \<open>http.rs\<close>, the loader of
      \<open>main.rs\<close>). \<open>kif-crdgen\<close>: Crdgen.
    \<^item> The parts together: Http_Routes (the routers and probes), Processes (every \<open>main.rs\<close>: the
      start step by step, the tasks, which of them ends the process and how), Wire (agent and
      federation service over HTTP), Token_Trust (federation service, issuer and a relying
      party), End_To_End.
    \<^item> Concrete objects and the properties applied to them: Samples, Witnesses, Control_Witnesses,
      End_To_End_Witnesses. Unit_Tests has the repository's own tests, each proved of the model.

  \<^bold>\<open>What is proved.\<close>

    \<^item> Minting: a request gets a token exactly when its bearer token authenticates the
      ServiceAccount it names, that has a ready resolved binding with AWS settings, and the
      hashes agree; the claims name the authenticated caller; the service asks the API server
      for nothing else. The agent behind its HTTP client sees exactly this decision, and the
      token verifies under the key set that the issuer serves.
    \<^item> Merging: the loop is equivalent to a specification over the list of bindings, its result
      does not depend on their order, and each of its errors names a defect that is there.
    \<^item> Reconciling: a reconciliation, whatever the server answers, makes a prefix of the
      requests of a plan, a list written down from the outcome of the merge; these stay in one
      namespace, conform to the schema and publish what the merge gives. The name of the
      resolution conforms only when the ServiceAccount's does, which the schema does not ask for.
    \<^item> The control loop: seen from the queue it is a run of the queue system, in which no key is
      handled twice at a time. No change is lost under the conditions that \<open>lossless\<close> names.
      When they fail there are runs that end with an outdated resolution: a change during a
      reconciliation, a failed reconciliation, a binding deleted while the webhook is down.
      A reconciliation's own writes can start the next one without end.
    \<^item> Admission: the decision, the patch, what mutation does to containers and Pod, and that a
      second admission changes nothing. After a lossless run the bindings themselves decide the
      admission of Pods and the minting of tokens.
    \<^item> Agent: no reader sees a partial token file, the loop stops in the first fatal round and
      only there, the startup probe succeeds once a token has been written; the time between
      refreshes is bounded; the container the webhook injects is read back as it was meant, and a change of
      the configuration stops the agent.
    \<^item> Keys: an existing signing key is kept, and a restart finds the one that was generated.
      Issuer: the last good key set is served, and the loader ends.

  \<^bold>\<open>Interfaces.\<close> Where one part relies on a contract of another, the contract is a locale,
  interpreted on the code's model where that is defined: \<open>ordered_map\<close> (the \<open>BTreeMap\<close>), \<open>codec\<close>
  (a type with serde's two directions; every struct of the specs is one), \<open>ensure_named\<close> and
  \<open>env_store\<close> (adding volumes, mounts and variables to a Pod), \<open>dedup_queue\<close> (the work queue with
  its set of keys in flight) and \<open>latest_value\<close> (the store of the issuer).

  \<^bold>\<open>Bounds.\<close> There is no fuel. The loader of the issuer sleeps five seconds between attempts and
  gives up after 120, so 25 attempts are the most, for a clock that advances by what it
  sleeps. The expiry of a token is a 64-bit sum that wraps around. serde_json reads values of at most 127 levels, which the messages and specs keep
  (\<open>message_depths\<close>, \<open>rcrb_spec_depth\<close>). The queue holds 2048 keys and there is at least one worker,
  whatever is configured (\<open>webhook_loop_reach\<close>).

  \<^bold>\<open>Parameters and what is assumed of them.\<close> Code outside the repository is an argument of the
  definitions. Where a theorem relies on its behaviour, that is a hypothesis under a name:
  \<open>server_laws\<close> (what the API server lists after a write, and which events it sends),
  \<open>status_laws\<close> (it announces a status that changes an object), \<open>reads_back\<close> (serde_json reads
  what it wrote), \<open>response_laws\<close> (kube's admission responses), \<open>jose_laws\<close> (a signature verifies
  under the public half of its key, a key set is printed as it is), \<open>kubelet_laws\<close> (a container
  gets the variables of its spec), \<open>clock_runs\<close>. Each holds of a concrete function in the
  witness theories.

  \<^bold>\<open>Not modelled.\<close> Logging and tracing, which nothing depends on. TLS, sockets and the accept
  loops of axum: a process is a start, which may fail to bind, and handlers that are functions
  of a request. RSA and random numbers, base64, the text of JSON and YAML, URL parsing and the kube
  client with its watcher are crates the sources only call. Tasks interleave
  in the control loop only; elsewhere they share no more than a flag or a store, and a task
  that panics is an outcome of its join handle, except that a worker of the control loop does not
  panic (no call of \<open>reconcile\<close> does). Times have the precision of their wire form. The OpenAPI document that \<open>schemars\<close> derives is modelled by the constraints
  it imposes on a spec, not as text. The Helm chart, the Terraform code and the CI workflows
  are not Rust code.
\<close>

end
